(* ===== verification/Prelude.thy ===== *)
theory Prelude
  imports Main "HOL-Library.Word"
begin

unbundle bit_operations_syntax

text \<open>
  Shared vocabulary of the development: the C integer types as words, the outcome type of
  a piece of kernel code, C strings, little-endian fields, bounded buffers, and the lemma
  collections the component theories extend.

  A kernel routine that touches memory or loops returns a value of type \<open>'a run\<close>:
  \<open>None\<close> is "does not return", \<open>Some (Inl f)\<close> is a fault (an access outside an object,
  a null dereference, a division by zero: all undefined behaviour of C, and the last two
  CPU exceptions that end in the halting loop of \<^verbatim>\<open>isr_handler\<close>), and
  \<open>Some (Inr x)\<close> is a normal return.
\<close>

section \<open>Integer types\<close>

type_synonym u8 = "8 word"
type_synonym u16 = "16 word"
type_synonym u32 = "32 word"
type_synonym u64 = "64 word"

section \<open>Bit masks\<close>

named_theorems mask_bits "the bits of the mask constants of the code"

text \<open>The simplifier reads the bits of a word numeral off the integer numeral.\<close>

lemma bit_int_0FFF [mask_bits]: "bit (0x0FFF :: int) n \<longleftrightarrow> n < 12"
proof -
  have "(0x0FFF :: int) = mask 12" by (simp add: mask_eq_exp_minus_1)
  then show ?thesis by (simp only: bit_mask_iff) auto
qed

lemma bit_int_0F [mask_bits]: "bit (0x0F :: int) n \<longleftrightarrow> n < 4"
proof -
  have "(0x0F :: int) = mask 4" by (simp add: mask_eq_exp_minus_1)
  then show ?thesis by (simp only: bit_mask_iff) auto
qed

lemma bit_int_FF [mask_bits]: "bit (0xFF :: int) n \<longleftrightarrow> n < 8"
proof -
  have "(0xFF :: int) = mask 8" by (simp add: mask_eq_exp_minus_1)
  then show ?thesis by (simp only: bit_mask_iff) auto
qed

lemma bit_int_F0 [mask_bits]: "bit (0xF0 :: int) n \<longleftrightarrow> 4 \<le> n \<and> n < 8"
proof -
  have "(0xF0 :: int) = push_bit 4 (mask 4)" by (simp add: mask_eq_exp_minus_1)
  then show ?thesis by (simp only: bit_simps) auto
qed

lemma and_one_odd: "(c :: u16) AND 1 \<noteq> 0 \<longleftrightarrow> odd (unat c)"
  by (simp add: and_one_eq odd_iff_mod_2_eq_one word_unat_eq_iff unat_mod_distrib)

section \<open>Widening\<close>

lemma unat_u8_u16: "unat (ucast (b :: u8) :: u16) = unat b"
  using unsigned_less [where ?'a = nat, of b] by (simp add: unsigned_ucast_eq take_bit_eq_mod)

lemma unat_u8_u32: "unat (ucast (b :: u8) :: u32) = unat b"
  using unsigned_less [where ?'a = nat, of b] by (simp add: unsigned_ucast_eq take_bit_eq_mod)

lemma unat_u16_u32: "unat (ucast (b :: u16) :: u32) = unat b"
  using unsigned_less [where ?'a = nat, of b] by (simp add: unsigned_ucast_eq take_bit_eq_mod)

section \<open>Outcomes\<close>

datatype fault = OutOfBounds | NullPointer | DivideError | PageFault

type_synonym 'a run = "(fault + 'a) option"

abbreviation ret :: "'a \<Rightarrow> 'a run" where
  "ret x \<equiv> Some (Inr x)"

abbreviation fail :: "fault \<Rightarrow> 'a run" where
  "fail f \<equiv> Some (Inl f)"

definition bind_run :: "'a run \<Rightarrow> ('a \<Rightarrow> 'b run) \<Rightarrow> 'b run" where
  "bind_run m k =
     (case m of None \<Rightarrow> None
      | Some r \<Rightarrow> (case r of Inl f \<Rightarrow> Some (Inl f) | Inr x \<Rightarrow> k x))"

definition returns :: "'a run \<Rightarrow> bool" where
  "returns m \<longleftrightarrow> (\<exists>x. m = ret x)"

named_theorems run_simps "evaluation of sequenced code"
named_theorems codec_simps "byte-level encodings"
named_theorems geometry_simps "lengths and positions in buffers"

lemma bind_ret [simp, run_simps]: "bind_run (ret x) k = k x"
  by (simp add: bind_run_def)

lemma bind_fail [simp, run_simps]: "bind_run (fail f) k = fail f"
  by (simp add: bind_run_def)

lemma bind_None [simp, run_simps]: "bind_run None k = None"
  by (simp add: bind_run_def)

lemma bind_run_assoc: "bind_run (bind_run m k) h = bind_run m (\<lambda>x. bind_run (k x) h)"
  by (simp add: bind_run_def split: option.split sum.split)

lemma bind_run_eq_ret: "bind_run m k = ret y \<longleftrightarrow> (\<exists>x. m = ret x \<and> k x = ret y)"
  by (auto simp: bind_run_def split: option.split sum.split)

lemma bind_run_cong [fundef_cong]:
  "m = m' \<Longrightarrow> (\<And>x. m' = ret x \<Longrightarrow> k x = k' x) \<Longrightarrow> bind_run m k = bind_run m' k'"
  by (simp add: bind_run_def split: option.split sum.split)

lemma bind_run_retE:
  assumes "bind_run m k = ret y"
  obtains x where "m = ret x" "k x = ret y"
  using assms by (auto simp: bind_run_eq_ret)

lemma bind_run_split:
  "P (bind_run m k) \<longleftrightarrow>
     (m = None \<longrightarrow> P None) \<and> (\<forall>f. m = fail f \<longrightarrow> P (fail f)) \<and> (\<forall>x. m = ret x \<longrightarrow> P (k x))"
  by (auto simp: bind_run_def split: option.split sum.split)

lemma bind_run_mono [partial_function_mono]:
  fixes B :: "('x \<Rightarrow> 'y option) \<Rightarrow> 'a run" and C :: "'a \<Rightarrow> ('x \<Rightarrow> 'y option) \<Rightarrow> 'b run"
  assumes B: "mono_option B" and C: "\<And>y. mono_option (\<lambda>f. C y f)"
  shows "mono_option (\<lambda>f. bind_run (B f) (\<lambda>y. C y f))"
proof (rule monotoneI)
  fix f g :: "'x \<Rightarrow> 'y option"
  assume fg: "option.le_fun f g"
  have "option_ord (B f) (B g)"
    using B fg unfolding monotone_def by blast
  moreover have "option_ord (C y f) (C y g)" for y
    using C fg unfolding monotone_def by blast
  ultimately show "option_ord (bind_run (B f) (\<lambda>y. C y f)) (bind_run (B g) (\<lambda>y. C y g))"
    by (cases "B f"; cases "B g") (auto simp: bind_run_def flat_ord_def split: sum.splits)
qed

lemma returnsI [intro]: "m = ret x \<Longrightarrow> returns m"
  by (auto simp: returns_def)

lemma returnsE [elim]: "returns m \<Longrightarrow> (\<And>x. m = ret x \<Longrightarrow> P) \<Longrightarrow> P"
  by (auto simp: returns_def)

lemma returns_bind: "returns (bind_run m k) \<longleftrightarrow> (\<exists>x. m = ret x \<and> returns (k x))"
  by (auto simp: returns_def bind_run_eq_ret)

section \<open>C strings\<close>

text \<open>
  A \<^verbatim>\<open>const char*\<close> argument is the list of its bytes before the terminating NUL;
  \<open>bytes\<close> turns a literal into that list and \<open>cstr\<close> reads one out of a buffer.
\<close>

definition bytes :: "string \<Rightarrow> u8 list" where
  "bytes s = map of_char s"

definition cstr :: "u8 list \<Rightarrow> u8 list" where
  "cstr buf = takeWhile (\<lambda>b. b \<noteq> 0) buf"

lemma cstr_no_zero [simp]: "0 \<notin> set (cstr buf)"
  by (auto simp: cstr_def dest: set_takeWhileD)

lemma cstr_append_zero: "0 \<notin> set s \<Longrightarrow> cstr (s @ 0 # rest) = s"
  unfolding cstr_def by (subst takeWhile_append2) auto

lemma cstr_id: "0 \<notin> set s \<Longrightarrow> cstr s = s"
  unfolding cstr_def by (subst takeWhile_eq_all_conv) auto

lemma length_cstr_le [simp]: "length (cstr buf) \<le> length buf"
  by (simp add: cstr_def length_takeWhile_le)

section \<open>Buffers\<close>

text \<open>\<open>splice buf i bs\<close> overwrites \<open>bs\<close> at position \<open>i\<close>; every use is behind a bounds check.\<close>

definition splice :: "'a list \<Rightarrow> nat \<Rightarrow> 'a list \<Rightarrow> 'a list" where
  "splice buf i bs = take i buf @ bs @ drop (i + length bs) buf"

lemma length_splice [simp, geometry_simps]:
  "i + length bs \<le> length buf \<Longrightarrow> length (splice buf i bs) = length buf"
  by (simp add: splice_def)

lemma splice_Nil [simp]: "splice buf i [] = buf"
  by (simp add: splice_def)

lemma nth_splice:
  assumes "i + length bs \<le> length buf" and "j < length buf"
  shows "splice buf i bs ! j = (if i \<le> j \<and> j < i + length bs then bs ! (j - i) else buf ! j)"
  using assms by (auto simp: splice_def nth_append min_def)

lemma take_splice_same: "i \<le> length buf \<Longrightarrow> take (i + length bs) (splice buf i bs) = take i buf @ bs"
  by (simp add: splice_def)

lemma take_drop_splice:
  "i + length bs \<le> length buf \<Longrightarrow> take (length bs) (drop i (splice buf i bs)) = bs"
  by (simp add: splice_def)

lemma take_drop_splice_other:
  assumes "i + length bs \<le> length buf" and "k + n \<le> i \<or> i + length bs \<le> k"
  shows "take n (drop k (splice buf i bs)) = take n (drop k buf)"
proof (rule nth_equalityI)
  show "length (take n (drop k (splice buf i bs))) = length (take n (drop k buf))"
    using assms by simp
next
  fix j assume "j < length (take n (drop k (splice buf i bs)))"
  with assms show "take n (drop k (splice buf i bs)) ! j = take n (drop k buf) ! j"
    by (auto simp: nth_splice)
qed

lemma takeWhile_absent: "x \<notin> set xs \<Longrightarrow> takeWhile (\<lambda>c. c \<noteq> x) xs = xs"
  by (induction xs) auto

lemma takeWhile_first: "x \<notin> set xs \<Longrightarrow> takeWhile (\<lambda>c. c \<noteq> x) (xs @ x # ys) = xs"
  by (induction xs) auto

section \<open>Little-endian fields\<close>

definition le16 :: "u8 list \<Rightarrow> nat \<Rightarrow> u16" where
  "le16 b i = ucast (b ! i) OR push_bit 8 (ucast (b ! (i + 1)))"

definition le32 :: "u8 list \<Rightarrow> nat \<Rightarrow> u32" where
  "le32 b i = ucast (le16 b i) OR push_bit 16 (ucast (le16 b (i + 2)))"

definition enc16 :: "u16 \<Rightarrow> u8 list" where
  "enc16 v = [ucast v, ucast (drop_bit 8 v)]"

definition enc32 :: "u32 \<Rightarrow> u8 list" where
  "enc32 v = enc16 (ucast v) @ enc16 (ucast (drop_bit 16 v))"

lemma length_enc16 [simp, geometry_simps]: "length (enc16 v) = 2"
  by (simp add: enc16_def)

lemma length_enc32 [simp, geometry_simps]: "length (enc32 v) = 4"
  by (simp add: enc32_def)

lemma le16_enc16 [codec_simps]: "le16 (xs @ enc16 v @ ys) (length xs) = v"
  by (auto simp: le16_def enc16_def nth_append bit_eq_iff bit_simps)

lemma le32_enc32 [codec_simps]: "le32 (xs @ enc32 v @ ys) (length xs) = v"
proof -
  have lo: "le16 (xs @ enc32 v @ ys) (length xs) = ucast v"
    using le16_enc16 [of xs "ucast v" "enc16 (ucast (drop_bit 16 v)) @ ys"]
    by (simp add: enc32_def)
  have hi: "le16 (xs @ enc32 v @ ys) (length xs + 2) = ucast (drop_bit 16 v)"
    using le16_enc16 [of "xs @ enc16 (ucast v)" "ucast (drop_bit 16 v)" ys]
    by (simp add: enc32_def)
  show ?thesis
    unfolding le32_def lo hi by (auto simp: bit_eq_iff bit_simps)
qed

end
