(* ===== verification/Block_Device.thy ===== *)
theory Block_Device
  imports Prelude
begin

text \<open>
  The interface between the file system and the disk driver: \<^verbatim>\<open>ata_read(lba, 1, buf)\<close> and
  \<^verbatim>\<open>ata_write(lba, 1, buf)\<close>, the only two calls \<^verbatim>\<open>drivers/fs/fat.c\<close> makes.
  A \<open>block_io\<close> is a pair of such operations over a device state; the locales state what the
  file system relies on. Theory \<open>Ata\<close> shows that the driver of \<^verbatim>\<open>drivers/fs/ata.c\<close>
  provides it.
\<close>

text \<open>
  \<open>bread\<close> yields \<open>None\<close> for the return value -1 (the buffer is then unchanged) and the 512
  bytes stored into the buffer otherwise; \<open>bwrite\<close> yields whether 0 was returned.
\<close>

record 'd block_io =
  bread :: "'d \<Rightarrow> u32 \<Rightarrow> u8 list option \<times> 'd"
  bwrite :: "'d \<Rightarrow> u32 \<Rightarrow> u8 list \<Rightarrow> bool \<times> 'd"

text \<open>
  The contract: \<open>good\<close> device states hold a \<open>disk\<close>, a map from sector numbers below
  \<open>capacity\<close> to 512-byte sectors. Reading does not change it and returns its content; a
  write changes no other sector, and the written one to the given bytes when it succeeds.
\<close>

locale block_device =
  fixes io :: "'d block_io" and good :: "'d \<Rightarrow> bool" and disk :: "'d \<Rightarrow> u32 \<Rightarrow> u8 list"
    and capacity :: u32
  assumes sector_size: "good d \<Longrightarrow> a < capacity \<Longrightarrow> length (disk d a) = 512"
    and bread_good: "good d \<Longrightarrow> a < capacity \<Longrightarrow> bread io d a = (r, d') \<Longrightarrow>
      good d' \<and> disk d' = disk d \<and> (r = None \<or> r = Some (disk d a))"
    and bwrite_good: "good d \<Longrightarrow> a < capacity \<Longrightarrow> length bs = 512 \<Longrightarrow> bwrite io d a bs = (ok, d') \<Longrightarrow>
      good d' \<and> (\<forall>b. b \<noteq> a \<longrightarrow> disk d' b = disk d b) \<and> (ok \<longrightarrow> disk d' a = bs)"
begin

lemma bwrite_disk:
  assumes "good d" "a < capacity" "length bs = 512" "bwrite io d a bs = (True, d')"
  shows "good d'" and "disk d' = (disk d)(a := bs)"
  using bwrite_good [OF assms] by (auto simp: fun_eq_iff)

end

text \<open>A device on which no operation fails.\<close>

locale reliable_device = block_device +
  assumes bread_ok: "good d \<Longrightarrow> a < capacity \<Longrightarrow> fst (bread io d a) \<noteq> None"
    and bwrite_ok: "good d \<Longrightarrow> a < capacity \<Longrightarrow> length bs = 512 \<Longrightarrow> fst (bwrite io d a bs)"
begin

lemma bread_disk:
  assumes "good d" "a < capacity"
  obtains d' where "bread io d a = (Some (disk d a), d')" "good d'" "disk d' = disk d"
  using assms bread_good [OF assms] bread_ok [OF assms]
  by (cases "bread io d a") auto

lemma bwrite_done:
  assumes "good d" "a < capacity" "length bs = 512"
  obtains d' where "bwrite io d a bs = (True, d')" "good d'" "disk d' = (disk d)(a := bs)"
  using assms bwrite_disk [OF assms] bwrite_ok [OF assms]
  by (cases "bwrite io d a bs") auto

end

end
