(* ===== verification/Fat_Codec.thy ===== *)
theory Fat_Codec
  imports Prelude
begin

unbundle bit_operations_syntax

text \<open>
  The packed 12-bit allocation table of \<^verbatim>\<open>drivers/fs/fat.c\<close>: reading and writing one
  entry, and the search for a free cluster. \<open>fat_entry\<close> is the abstract table (cluster
  number to 12-bit value); the lemmas show that the byte-level code refines reads and updates
  of that table.
\<close>

section \<open>Code\<close>

definition fat_offset :: "u16 \<Rightarrow> nat" where
  "fat_offset cluster = unat cluster + unat cluster div 2"

definition fat_next_cluster :: "u8 list \<Rightarrow> u16 \<Rightarrow> u16 run" where
  "fat_next_cluster fat_buf cluster =
     (let offset = fat_offset cluster
      in if offset + 1 < length fat_buf
         then let val = ucast (fat_buf ! offset) OR push_bit 8 (ucast (fat_buf ! (offset + 1)))
              in ret (if cluster AND 1 \<noteq> 0 then drop_bit 4 val else val AND 0x0FFF)
         else fail OutOfBounds)"

definition fat_set_cluster :: "u8 list \<Rightarrow> u16 \<Rightarrow> u16 \<Rightarrow> u8 list run" where
  "fat_set_cluster fat_buf cluster v =
     (let offset = fat_offset cluster
      in if offset + 1 < length fat_buf
         then ret (if cluster AND 1 \<noteq> 0
                   then fat_buf
                     [offset := (fat_buf ! offset AND 0x0F) OR push_bit 4 (ucast (v AND 0x0F)),
                      offset + 1 := ucast (drop_bit 4 v AND 0xFF)]
                   else fat_buf
                     [offset := ucast (v AND 0xFF),
                      offset + 1 := (fat_buf ! (offset + 1) AND 0xF0) OR ucast (drop_bit 8 v AND 0x0F)])
         else fail OutOfBounds)"

text \<open>
  The loop \<^verbatim>\<open>for (uint32_t c = 2; c < total_clusters + 2; c++)\<close>; the remaining number
  of candidates makes it terminate. The argument of \<^verbatim>\<open>fat_next_cluster\<close> is truncated
  to 16 bits.
\<close>

fun find_free_from :: "u8 list \<Rightarrow> u32 \<Rightarrow> nat \<Rightarrow> u16 run" where
  "find_free_from fat_buf c 0 = ret 0"
| "find_free_from fat_buf c (Suc n) =
     bind_run (fat_next_cluster fat_buf (ucast c))
       (\<lambda>v. if v = 0 then ret (ucast c) else find_free_from fat_buf (c + 1) n)"

definition fat_find_free_cluster :: "u8 list \<Rightarrow> u32 \<Rightarrow> u16 run" where
  "fat_find_free_cluster fat_buf total_clusters =
     find_free_from fat_buf 2 (unat (total_clusters + 2) - 2)"

text \<open>
  The loop of \<^verbatim>\<open>fat_delete\<close> and \<^verbatim>\<open>fat_rmdir\<close> that gives a file's chain back.
  Its guard \<^verbatim>\<open>cluster >= 2 && cluster <= 0xFEF\<close> is \<open>data_cluster\<close>.
\<close>

definition data_cluster :: "u16 \<Rightarrow> bool" where
  "data_cluster cluster \<longleftrightarrow> 2 \<le> cluster \<and> cluster \<le> 0xFEF"

partial_function (option) free_chain :: "u8 list \<Rightarrow> u16 \<Rightarrow> u8 list run" where
  "free_chain fat_buf cluster =
     (if data_cluster cluster
      then bind_run (fat_next_cluster fat_buf cluster)
        (\<lambda>nxt. bind_run (fat_set_cluster fat_buf cluster 0)
          (\<lambda>fat_buf'. free_chain fat_buf' nxt))
      else ret fat_buf)"

section \<open>The table the buffer holds\<close>

text \<open>\<open>in_fat fb c\<close>: both bytes of entry \<open>c\<close> lie in the buffer.\<close>

definition in_fat :: "u8 list \<Rightarrow> u16 \<Rightarrow> bool" where
  "in_fat fat_buf cluster \<longleftrightarrow> fat_offset cluster + 1 < length fat_buf"

definition fat_entry :: "u8 list \<Rightarrow> u16 \<Rightarrow> u16" where
  "fat_entry fat_buf cluster =
     (let offset = fat_offset cluster;
          val = ucast (fat_buf ! offset) OR push_bit 8 (ucast (fat_buf ! (offset + 1)))
      in if odd (unat cluster) then drop_bit 4 val else val AND 0x0FFF)"

lemma next_cluster_entry [run_simps]:
  "fat_next_cluster fb c = (if in_fat fb c then ret (fat_entry fb c) else fail OutOfBounds)"
  by (simp add: fat_next_cluster_def in_fat_def fat_entry_def Let_def and_one_odd)

lemma fat_entry_bound: "fat_entry fb c \<le> 0x0FFF"
proof -
  have "fat_entry fb c = fat_entry fb c AND 0x0FFF"
    by (intro bit_word_eqI) (auto simp: fat_entry_def Let_def bit_simps mask_bits)
  then show ?thesis
    by (metis word_and_le1)
qed

text \<open>Entries \<open>2 k\<close> and \<open>2 k + 1\<close> share the three bytes from \<open>3 k\<close>.\<close>

lemma fat_offset_even: "even (unat c) \<Longrightarrow> fat_offset c = 3 * (unat c div 2)"
  unfolding fat_offset_def by presburger

lemma fat_offset_odd: "odd (unat c) \<Longrightarrow> fat_offset c = 3 * (unat c div 2) + 1"
  unfolding fat_offset_def by presburger

lemma fat_offset_bounds:
  "3 * (unat c div 2) \<le> fat_offset c" "fat_offset c \<le> 3 * (unat c div 2) + 1"
  using fat_offset_even [of c] fat_offset_odd [of c] by (cases "even (unat c)"; simp)+

definition fat_store :: "u8 list \<Rightarrow> u16 \<Rightarrow> u16 \<Rightarrow> u8 list" where
  "fat_store fat_buf cluster v =
     (let offset = fat_offset cluster
      in if odd (unat cluster)
         then fat_buf
           [offset := (fat_buf ! offset AND 0x0F) OR push_bit 4 (ucast (v AND 0x0F)),
            offset + 1 := ucast (drop_bit 4 v AND 0xFF)]
         else fat_buf
           [offset := ucast (v AND 0xFF),
            offset + 1 := (fat_buf ! (offset + 1) AND 0xF0) OR ucast (drop_bit 8 v AND 0x0F)])"

lemma set_cluster_store [run_simps]:
  "fat_set_cluster fb c v = (if in_fat fb c then ret (fat_store fb c v) else fail OutOfBounds)"
  by (simp add: fat_set_cluster_def in_fat_def fat_store_def Let_def and_one_odd)

lemma length_fat_store [simp]: "length (fat_store fb c v) = length fb"
  by (simp add: fat_store_def Let_def)

lemma in_fat_store [simp]: "in_fat (fat_store fb c v) = in_fat fb"
  by (simp add: in_fat_def fun_eq_iff)

lemma fat_entry_store_same:
  assumes "in_fat fb c"
  shows "fat_entry (fat_store fb c v) c = v AND 0x0FFF"
  using assms
  by (intro bit_word_eqI)
    (auto simp: in_fat_def fat_entry_def fat_store_def Let_def bit_simps mask_bits)

text \<open>The byte an even and an odd entry share keeps the other entry's nibble.\<close>

lemma low_nibble_kept:
  fixes a b :: u8 and x :: u8
  shows "(ucast a OR push_bit 8 (ucast ((b AND 0x0F) OR push_bit 4 x))) AND (0x0FFF :: u16) =
         (ucast a OR push_bit 8 (ucast b)) AND 0x0FFF"
  by (rule bit_word_eqI) (auto simp: bit_simps mask_bits)

lemma high_nibble_kept:
  fixes a :: u8 and x :: u16
  shows "drop_bit 4 (ucast ((a AND 0xF0) OR ucast (x AND 0x0F)) :: u16) = drop_bit 4 (ucast a)"
  by (rule bit_word_eqI) (auto simp: bit_simps mask_bits dest: bit_imp_le_length)

lemma fat_entry_store_next:
  assumes "in_fat fb c" and "in_fat fb c'" and "even (unat c)" "odd (unat c')"
    and "fat_offset c' = fat_offset c + 1"
  shows "fat_entry (fat_store fb c v) c' = fat_entry fb c'"
  using assms
  by (simp add: in_fat_def fat_entry_def fat_store_def Let_def high_nibble_kept)

lemma fat_entry_store_prev:
  assumes "in_fat fb c" and "in_fat fb c'" and "odd (unat c)" "even (unat c')"
    and "fat_offset c = fat_offset c' + 1"
  shows "fat_entry (fat_store fb c v) c' = fat_entry fb c'"
  using assms
  by (simp add: in_fat_def fat_entry_def fat_store_def Let_def low_nibble_kept)

lemma fat_entry_store_other:
  assumes "in_fat fb c" and "in_fat fb c'" and "c \<noteq> c'"
  shows "fat_entry (fat_store fb c v) c' = fat_entry fb c'"
proof (cases "unat c div 2 = unat c' div 2")
  case True
  with assms(3) have "odd (unat c) \<noteq> odd (unat c')"
    by (metis bit_eq_rec unsigned_word_eqI)
  show ?thesis
  proof (cases "even (unat c)")
    case even: True
    then have "fat_offset c' = fat_offset c + 1"
      using True \<open>odd (unat c) \<noteq> odd (unat c')\<close> fat_offset_even [of c] fat_offset_odd [of c'] by simp
    then show ?thesis
      using assms(1,2) even \<open>odd (unat c) \<noteq> odd (unat c')\<close> by (blast intro: fat_entry_store_next)
  next
    case odd: False
    then have "fat_offset c = fat_offset c' + 1"
      using True \<open>odd (unat c) \<noteq> odd (unat c')\<close> fat_offset_even [of c'] fat_offset_odd [of c] by simp
    then show ?thesis
      using assms(1,2) odd \<open>odd (unat c) \<noteq> odd (unat c')\<close> by (blast intro: fat_entry_store_prev)
  qed
next
  case False
  then have "fat_offset c + 1 < fat_offset c' \<or> fat_offset c' + 1 < fat_offset c"
    using fat_offset_bounds [of c] fat_offset_bounds [of c'] by linarith
  then have "fat_offset c \<noteq> fat_offset c'" "fat_offset c + 1 \<noteq> fat_offset c'"
    "fat_offset c \<noteq> fat_offset c' + 1" "fat_offset c + 1 \<noteq> fat_offset c' + 1"
    by auto
  then show ?thesis
    by (simp add: fat_entry_def fat_store_def Let_def del: One_nat_def)
qed

lemma fat_entry_store:
  assumes "in_fat fb c" and "in_fat fb c'"
  shows "fat_entry (fat_store fb c v) c' = (if c' = c then v AND 0x0FFF else fat_entry fb c')"
  using assms fat_entry_store_same fat_entry_store_other by auto


section \<open>Searching for a free cluster\<close>

lemma find_free_from_spec:
  assumes "\<And>k. k < n \<Longrightarrow> in_fat fb (ucast (c + of_nat k))"
  shows "find_free_from fb c n =
    (case find (\<lambda>k. fat_entry fb (ucast (c + of_nat k)) = 0) [0..<n] of
       None \<Rightarrow> ret 0
     | Some k \<Rightarrow> ret (ucast (c + of_nat k)))"
  using assms
proof (induction n arbitrary: c)
  case 0
  then show ?case by simp
next
  case (Suc n)
  have "in_fat fb (ucast (c + 1 + of_nat k))" if "k < n" for k
    using Suc.prems [of "Suc k"] that by (simp add: ac_simps)
  note IH = Suc.IH [OF this]
  have shift: "[0..<Suc n] = 0 # map Suc [0..<n]"
    by (simp add: map_Suc_upt upt_conv_Cons del: upt_Suc)
  have "find P (map Suc xs) = map_option Suc (find (P \<circ> Suc) xs)" for P xs
    by (induction xs) auto
  then show ?case
    using Suc.prems [of 0] IH unfolding shift
    by (auto simp: next_cluster_entry comp_def ac_simps split: option.split)
qed


lemma find_free_from_overrun:
  assumes "\<And>k. k < m \<Longrightarrow> in_fat fb (ucast (c + of_nat k)) \<and> fat_entry fb (ucast (c + of_nat k)) \<noteq> 0"
    and "m < n" and "\<not> in_fat fb (ucast (c + of_nat m))"
  shows "find_free_from fb c n = fail OutOfBounds"
  using assms
proof (induction m arbitrary: c n)
  case 0
  then show ?case by (cases n) (auto simp: next_cluster_entry)
next
  case (Suc m)
  from Suc.prems(2) obtain n' where n: "n = Suc n'" "m < n'" by (cases n) auto
  have "find_free_from fb (c + 1) n' = fail OutOfBounds"
  proof (rule Suc.IH [OF _ n(2)])
    show "in_fat fb (ucast (c + 1 + of_nat k)) \<and> fat_entry fb (ucast (c + 1 + of_nat k)) \<noteq> 0"
      if "k < m" for k
      using Suc.prems(1) [of "Suc k"] that by (simp add: ac_simps)
    show "\<not> in_fat fb (ucast (c + 1 + of_nat m))"
      using Suc.prems(3) by (simp add: ac_simps)
  qed
  then show ?case
    using Suc.prems(1) [of 0] n by (simp add: next_cluster_entry)
qed

lemma unat_candidate:
  assumes "k < 65534"
  shows "unat (ucast (2 + of_nat k :: u32) :: u16) = k + 2"
proof -
  have "unat (2 + of_nat k :: u32) = k + 2"
    using assms by (simp add: unat_word_ariths unat_of_nat)
  then show ?thesis
    using assms by (simp add: unsigned_ucast_eq take_bit_eq_mod)
qed

lemma candidate_of_cluster:
  assumes "2 \<le> unat (x :: u16)"
  shows "ucast (2 + of_nat (unat x - 2) :: u32) = x"
proof (rule word_unat_eq_iff [THEN iffD2])
  have "unat x - 2 < 65534"
    using unsigned_less [where ?'a = nat, of x] assms by simp
  from unat_candidate [OF this] assms
  show "unat (ucast (2 + of_nat (unat x - 2) :: u32) :: u16) = unat x"
    by (simp del: of_nat_diff)
qed

lemma find_free_total:
  assumes "unat (tc :: u32) \<le> 6142" and "length fb = 18 * 512"
  shows "fat_find_free_cluster fb tc =
    (case find (\<lambda>k. fat_entry fb (ucast (2 + of_nat k :: u32)) = 0) [0..<unat tc] of
       None \<Rightarrow> ret 0
     | Some k \<Rightarrow> ret (ucast (2 + of_nat k :: u32)))"
proof -
  have "unat (tc + 2) = unat tc + 2"
    using assms(1) by (simp add: unat_word_ariths)
  moreover have "in_fat fb (ucast (2 + of_nat k :: u32))" if "k < unat tc" for k
    using unat_candidate [of k] that assms by (simp add: in_fat_def fat_offset_def)
  ultimately show ?thesis
    unfolding fat_find_free_cluster_def by (subst find_free_from_spec) simp_all
qed

lemma find_free_result:
  assumes "length fat_buf = 18 * 512" and "unat total_clusters \<le> 6142"
  shows "\<exists>c. fat_find_free_cluster fat_buf total_clusters = ret c \<and>
    (if c = 0
     then \<forall>x. 2 \<le> unat x \<and> unat x < unat total_clusters + 2 \<longrightarrow> fat_entry fat_buf x \<noteq> 0
     else 2 \<le> unat c \<and> unat c < unat total_clusters + 2 \<and> fat_entry fat_buf c = 0 \<and>
          (\<forall>x. 2 \<le> unat x \<and> unat x < unat c \<longrightarrow> fat_entry fat_buf x \<noteq> 0))"
proof -
  let ?P = "\<lambda>k. fat_entry fat_buf (ucast (2 + of_nat k :: u32)) = 0"
  have cand: "fat_entry fat_buf x = 0 \<longleftrightarrow> ?P (unat x - 2)" if "2 \<le> unat x" for x
    using candidate_of_cluster [OF that] by simp
  show ?thesis
  proof (cases "find ?P [0..<unat total_clusters]")
    case None
    then have "\<forall>k < unat total_clusters. \<not> ?P k"
      by (auto simp: find_None_iff)
    then have "\<forall>x. 2 \<le> unat x \<and> unat x < unat total_clusters + 2 \<longrightarrow> fat_entry fat_buf x \<noteq> 0"
      using cand by (metis add.commute less_diff_conv2)
    then show ?thesis
      using None by (simp add: find_free_total [OF assms(2,1)])
  next
    case (Some k)
    then have k: "k < unat total_clusters" "?P k" "\<forall>j < k. \<not> ?P j"
      by (auto simp: find_Some_iff)
    let ?c = "ucast (2 + of_nat k :: u32) :: u16"
    have c: "unat ?c = k + 2"
      using unat_candidate [of k] k(1) assms(2) by simp
    then have "?c \<noteq> 0" by auto
    moreover have "\<forall>x. 2 \<le> unat x \<and> unat x < unat ?c \<longrightarrow> fat_entry fat_buf x \<noteq> 0"
      using c k(3) cand by (metis less_diff_conv2)
    moreover have "fat_find_free_cluster fat_buf total_clusters = ret ?c"
      using Some by (simp add: find_free_total [OF assms(2,1)])
    ultimately show ?thesis
      using c k by (intro exI [of _ ?c]) simp
  qed
qed

section \<open>Freeing a chain\<close>

text \<open>\<open>holds_fat fb\<close>: every data cluster's entry lies in the buffer (so for the 9216-byte buffers of the code).\<close>

definition holds_fat :: "u8 list \<Rightarrow> bool" where
  "holds_fat fat_buf \<longleftrightarrow> (\<forall>c. data_cluster c \<longrightarrow> in_fat fat_buf c)"

lemma holds_fat_9216: "length fb = 18 * 512 \<Longrightarrow> holds_fat fb"
  unfolding holds_fat_def
proof (intro allI impI)
  fix c assume len: "length fb = 18 * 512" and "data_cluster c"
  then have "unat c \<le> unat (0xFEF :: u16)"
    by (simp add: data_cluster_def word_le_nat_alt)
  then show "in_fat fb c"
    using len by (simp add: in_fat_def fat_offset_def)
qed

lemma holds_fat_store [simp]: "holds_fat (fat_store fb c v) = holds_fat fb"
  by (simp add: holds_fat_def)

text \<open>The clusters a walk from \<open>c\<close> visits.\<close>

inductive reach :: "u8 list \<Rightarrow> u16 \<Rightarrow> u16 \<Rightarrow> bool" for fat_buf where
  here: "data_cluster c \<Longrightarrow> reach fat_buf c c"
| step: "data_cluster c \<Longrightarrow> reach fat_buf (fat_entry fat_buf c) x \<Longrightarrow> reach fat_buf c x"

inductive_simps reach_iff: "reach fat_buf c x"

lemma reach_data: "reach fb c x \<Longrightarrow> data_cluster c \<and> data_cluster x"
  by (induction rule: reach.induct) auto

lemma data_cluster_0 [simp]: "\<not> data_cluster 0"
  by (simp add: data_cluster_def)

lemma reach_store_zero:
  assumes fb: "holds_fat fb" "data_cluster c"
  shows "reach fb c x \<longleftrightarrow> x = c \<or> reach (fat_store fb c 0) (fat_entry fb c) x"
proof
  let ?fb' = "fat_store fb c 0"
  have entry: "data_cluster a \<Longrightarrow> fat_entry ?fb' a = (if a = c then 0 else fat_entry fb a)" for a
    using fb by (auto simp: holds_fat_def fat_entry_store)
  show "x = c \<or> reach ?fb' (fat_entry fb c) x" if "reach fb c x"
  proof -
    have "x = c \<or> reach ?fb' (fat_entry fb c) x \<or> reach ?fb' a x" if "reach fb a x" for a
      using that
    proof (induction rule: reach.induct)
      case (here a)
      then show ?case by (blast intro: reach.here)
    next
      case (step a x)
      then show ?case
        using entry [of a] by (cases "a = c") (auto intro: reach.step)
    qed
    from this [OF that] show ?thesis
      using entry [of c] fb(2) by (auto simp: reach_iff [of ?fb' c] reach_iff [of ?fb' 0])
  qed
  show "reach fb c x" if "x = c \<or> reach ?fb' (fat_entry fb c) x"
  proof -
    have "reach fb a x" if "reach ?fb' a x" for a
      using that
    proof (induction rule: reach.induct)
      case (here a)
      then show ?case by (rule reach.here)
    next
      case (step a x)
      then show ?case
        using entry [of a] by (cases "a = c") (auto intro: reach.step dest: reach_data)
    qed
    with that fb(2) show ?thesis by (auto intro: reach.intros)
  qed
qed

definition used_clusters :: "u8 list \<Rightarrow> u16 set" where
  "used_clusters fat_buf = {c. data_cluster c \<and> fat_entry fat_buf c \<noteq> 0}"

lemma used_store_zero:
  assumes "holds_fat fb" and "data_cluster c"
  shows "used_clusters (fat_store fb c 0) = used_clusters fb - {c}"
  using assms by (auto simp: used_clusters_def holds_fat_def fat_entry_store split: if_splits)

lemma free_chain_result:
  assumes "holds_fat fb"
  shows "\<exists>fb'. free_chain fb c = ret fb' \<and> length fb' = length fb \<and>
    (\<forall>x. data_cluster x \<longrightarrow> fat_entry fb' x = (if reach fb c x then 0 else fat_entry fb x))"
  using assms
proof (induction "card (used_clusters fb)" arbitrary: fb c rule: less_induct)
  case less
  show ?case
  proof (cases "data_cluster c")
    case False
    then show ?thesis
      by (auto simp: free_chain.simps [of fb c] reach_iff [of fb c])
  next
    case True
    let ?fb' = "fat_store fb c 0"
    have c: "in_fat fb c" using True less.prems by (simp add: holds_fat_def)
    have step: "free_chain fb c = free_chain ?fb' (fat_entry fb c)"
      using True c by (simp add: free_chain.simps [of fb c] run_simps)
    have upd: "data_cluster x \<Longrightarrow> fat_entry ?fb' x = (if x = c then 0 else fat_entry fb x)" for x
      using less.prems True by (auto simp: holds_fat_def fat_entry_store)
    show ?thesis
    proof (cases "fat_entry fb c = 0")
      case zero: True
      then have "free_chain fb c = ret ?fb'"
        using step by (simp add: free_chain.simps [of ?fb' 0])
      then show ?thesis
        using upd zero True
        by (auto simp: reach_store_zero [OF less.prems True] reach_iff [of ?fb' 0])
    next
      case False
      then have "c \<in> used_clusters fb" using True by (simp add: used_clusters_def)
      then have "card (used_clusters ?fb') < card (used_clusters fb)"
        by (simp only: used_store_zero [OF less.prems True]) (rule card_Diff1_less, simp)
      from less.hyps [OF this, of "fat_entry fb c"] less.prems obtain fb''
        where IH: "free_chain ?fb' (fat_entry fb c) = ret fb''" "length fb'' = length fb"
          "\<And>x. data_cluster x \<Longrightarrow> fat_entry fb'' x =
             (if reach ?fb' (fat_entry fb c) x then 0 else fat_entry ?fb' x)"
        by auto
      then show ?thesis
        using step upd by (auto simp: reach_store_zero [OF less.prems True])
    qed
  qed
qed


section \<open>Properties\<close>

text \<open>
  Property C7: the byte-level table code implements a table of 12-bit entries. After
  \<^verbatim>\<open>fat_set_cluster(fat_buf, c, v)\<close> the entry of \<open>c\<close> reads \<open>v\<close> truncated to 12 bits, and
  every other entry, the one sharing a byte with \<open>c\<close> included, reads as before (or faults as
  before, when it lies outside the buffer).
\<close>

theorem fat_set_next_cluster:
  assumes "fat_set_cluster fat_buf c v = ret fat_buf'"
  shows "length fat_buf' = length fat_buf \<and>
    fat_next_cluster fat_buf' c' =
      (if c' = c then ret (v AND 0x0FFF) else fat_next_cluster fat_buf c')"
  using assms
  by (auto simp: run_simps fat_entry_store split: if_splits)

theorem fat_set_next_cluster_witness:
  "length [0x56, 0xC4, 0xAB :: u8] = length [0x56, 0xF4, 0x12 :: u8] \<and>
   fat_next_cluster [0x56, 0xC4, 0xAB] 0 = ret 0x456"
proof -
  have "fat_set_cluster [0x56, 0xF4, 0x12] 1 0xFABC = ret [0x56, 0xC4, 0xAB]"
    by (simp add: fat_set_cluster_def fat_offset_def)
  from fat_set_next_cluster [OF this, of 0] show ?thesis
    by (simp add: fat_next_cluster_def fat_offset_def)
qed

text \<open>
  Property C8: giving a chain back always terminates, on a cyclic or cross-linked table too,
  never leaves the 9216-byte buffer, zeroes exactly the clusters the walk reaches and leaves
  every other data cluster alone.
\<close>

theorem free_chain_total:
  assumes "length fat_buf = 18 * 512"
  shows "\<exists>fat_buf'. free_chain fat_buf c = ret fat_buf' \<and> length fat_buf' = 18 * 512 \<and>
    (\<forall>x. data_cluster x \<longrightarrow>
       fat_entry fat_buf' x = (if reach fat_buf c x then 0 else fat_entry fat_buf x))"
  using free_chain_result [OF holds_fat_9216 [OF assms], of c] assms by auto

theorem free_chain_total_witness:
  "\<exists>fat_buf'. free_chain (replicate (18 * 512) 0) 5 = ret fat_buf' \<and> length fat_buf' = 18 * 512"
  using free_chain_total [of "replicate (18 * 512) 0" 5] by auto


text \<open>
  Property C9: allocation is first fit. For the table sizes below 18 sectors
  (\<open>total_clusters \<le> 6142\<close>), \<^verbatim>\<open>fat_find_free_cluster\<close> stays in the buffer and returns the
  least cluster from 2 on whose entry is 0, or 0 exactly when every candidate is taken.
\<close>

theorem find_free_first_fit:
  assumes "length fat_buf = 18 * 512" and "unat total_clusters \<le> 6142"
  shows "\<exists>c. fat_find_free_cluster fat_buf total_clusters = ret c \<and>
    (if c = 0
     then \<forall>x. 2 \<le> unat x \<and> unat x < unat total_clusters + 2 \<longrightarrow> fat_entry fat_buf x \<noteq> 0
     else 2 \<le> unat c \<and> unat c < unat total_clusters + 2 \<and> fat_entry fat_buf c = 0 \<and>
          (\<forall>x. 2 \<le> unat x \<and> unat x < unat c \<longrightarrow> fat_entry fat_buf x \<noteq> 0))"
  by (rule find_free_result [OF assms])

theorem find_free_first_fit_witness:
  "\<exists>c. fat_find_free_cluster (replicate (18 * 512) 0) 100 = ret c"
  using find_free_first_fit [of "replicate (18 * 512) 0" 100] by auto

text \<open>
  Property C19: with the largest table the code accepts (18 sectors, for which it computes
  \<open>total_clusters = 6144\<close>) a full disk makes the search read past the end of \<^verbatim>\<open>fat_buf\<close>:
  the loop runs to cluster 6145 while the buffer ends with the entry of cluster 6143.
\<close>

theorem find_free_overruns_full_table:
  assumes "length fat_buf = 18 * 512"
    and "\<forall>x. 2 \<le> unat x \<and> unat x < 6144 \<longrightarrow> fat_entry fat_buf x \<noteq> 0"
  shows "fat_find_free_cluster fat_buf 6144 = fail OutOfBounds"
proof -
  have "find_free_from fat_buf 2 6144 = fail OutOfBounds"
  proof (rule find_free_from_overrun [where m = 6142])
    fix k :: nat assume k: "k < 6142"
    then show "in_fat fat_buf (ucast (2 + of_nat k :: u32)) \<and>
      fat_entry fat_buf (ucast (2 + of_nat k :: u32)) \<noteq> 0"
      using unat_candidate [of k] assms by (simp add: in_fat_def fat_offset_def)
  next
    show "\<not> in_fat fat_buf (ucast (2 + of_nat 6142 :: u32))"
      using assms(1) by (simp add: in_fat_def fat_offset_def)
  qed simp
  then show ?thesis
    by (simp add: fat_find_free_cluster_def)
qed

theorem find_free_overruns_full_table_witness:
  "fat_find_free_cluster (replicate (18 * 512) 0xFF) 6144 = fail OutOfBounds"
proof (rule find_free_overruns_full_table)
  show "\<forall>x. 2 \<le> unat x \<and> unat x < 6144 \<longrightarrow> fat_entry (replicate (18 * 512) 0xFF) x \<noteq> 0"
    by (auto simp: fat_entry_def fat_offset_def Let_def)
qed simp

end
