(* ===== verification/Fat_Names.thy ===== *)
theory Fat_Names
  imports Prelude
begin

text \<open>
  File names of \<^verbatim>\<open>drivers/fs/fat.c\<close>: \<^verbatim>\<open>make_name\<close> (directory entry to
  \<^verbatim>\<open>NAME.EXT\<close>), \<^verbatim>\<open>split_83\<close> (user's name to directory entry) and the
  case-insensitive comparison. The lemmas say for which names the two conversions are inverse.
\<close>

section \<open>Code\<close>

definition k_toupper :: "u8 \<Rightarrow> u8" where
  "k_toupper c = (if 0x61 \<le> c \<and> c \<le> 0x7A then c - 32 else c)"

text \<open>The current character of a C string; the end of the list is its NUL.\<close>

fun char_at :: "u8 list \<Rightarrow> u8" where
  "char_at [] = 0"
| "char_at (c # s) = c"

fun k_strcmp_nocase :: "u8 list \<Rightarrow> u8 list \<Rightarrow> int" where
  "k_strcmp_nocase (a # as) (b # bs) =
     (let ca = uint (k_toupper a); cb = uint (k_toupper b)
      in if ca \<noteq> cb then ca - cb else k_strcmp_nocase as bs)"
| "k_strcmp_nocase as bs = uint (k_toupper (char_at as)) - uint (k_toupper (char_at bs))"

text \<open>The bytes \<^verbatim>\<open>make_name\<close> stores into \<^verbatim>\<open>out\<close>, its NUL included.\<close>

definition make_name :: "u8 list \<Rightarrow> u8 list \<Rightarrow> u8 list" where
  "make_name raw_name raw_ext =
     (let base = takeWhile (\<lambda>c. c \<noteq> 0x20) (take 8 raw_name);
          has_ext = list_ex (\<lambda>c. c \<noteq> 0x20) (take 3 raw_ext)
      in (if has_ext
          then base @ [0x2E] @ takeWhile (\<lambda>c. c \<noteq> 0x20) (take 3 raw_ext)
          else base) @ [0])"

definition pad :: "nat \<Rightarrow> u8 list \<Rightarrow> u8 list" where
  "pad n cs = cs @ replicate (n - length cs) 0x20"

definition split_83 :: "u8 list \<Rightarrow> u8 list \<times> u8 list" where
  "split_83 name =
     (let base = take 8 (takeWhile (\<lambda>c. c \<noteq> 0x2E) name);
          rest = drop (length base) name;
          ext = (if char_at rest = 0x2E then take 3 (tl rest) else [])
      in (pad 8 (map k_toupper base), pad 3 (map k_toupper ext)))"

section \<open>Letters\<close>

lemma unat_toupper:
  "unat (k_toupper c) = (if 97 \<le> unat c \<and> unat c \<le> 122 then unat c - 32 else unat c)"
  by (simp add: k_toupper_def word_le_nat_alt unat_sub)

lemma k_toupper_special [simp]:
  "k_toupper c = 0 \<longleftrightarrow> c = 0" "k_toupper c = 0x20 \<longleftrightarrow> c = 0x20" "k_toupper c = 0x2E \<longleftrightarrow> c = 0x2E"
  by (auto simp: word_unat_eq_iff unat_toupper)

lemma k_toupper_idem [simp]: "k_toupper (k_toupper c) = k_toupper c"
  by (auto simp: word_unat_eq_iff unat_toupper)

lemma k_toupper_const [simp]: "k_toupper 0 = 0" "k_toupper 0x20 = 0x20" "k_toupper 0x2E = 0x2E"
  by simp_all

lemma uint_eq_iff: "uint (a :: u8) = uint b \<longleftrightarrow> a = b"
  by (simp add: word_uint_eq_iff)

lemma zero_eq_uint: "0 = uint (w :: u8) \<longleftrightarrow> w = 0"
  by (metis uint_0_iff)

lemma k_strcmp_nocase_iff:
  assumes "0 \<notin> set as" and "0 \<notin> set bs"
  shows "k_strcmp_nocase as bs = 0 \<longleftrightarrow> map k_toupper as = map k_toupper bs"
  using assms
proof (induction as bs rule: k_strcmp_nocase.induct, goal_cases)
  case (1 a as b bs)
  then show ?case by (auto simp: Let_def uint_eq_iff)
next
  case (2 bs)
  then show ?case by (cases bs) (auto simp: zero_eq_uint uint_0_iff)
next
  case (3 as)
  then show ?case by (cases as) (auto simp: zero_eq_uint uint_0_iff)
qed


section \<open>Which names survive the conversion\<close>

text \<open>
  A name the 8.3 format can hold: at most eight characters before the first dot, nothing or a
  dot and one to three characters after them, no space and no NUL.
\<close>

definition valid_83 :: "u8 list \<Rightarrow> bool" where
  "valid_83 name =
     (let base = takeWhile (\<lambda>c. c \<noteq> 0x2E) name; rest = drop (length base) name
      in length base \<le> 8 \<and> (rest = [] \<or> 2 \<le> length rest \<and> length rest \<le> 4) \<and>
         list_all (\<lambda>c. c \<noteq> 0x20 \<and> c \<noteq> 0) name)"

definition stored_name :: "u8 list \<Rightarrow> u8 list" where
  "stored_name name = (case split_83 name of (n, e) \<Rightarrow> cstr (make_name n e))"

lemma length_pad: "length cs \<le> n \<Longrightarrow> length (pad n cs) = n"
  by (simp add: pad_def)

lemma length_split_83:
  assumes "split_83 name = (n, e)"
  shows "length n = 8" "length e = 3"
  using assms by (auto simp: split_83_def Let_def length_pad)

lemma takeWhile_pad: "takeWhile (\<lambda>c. c \<noteq> 0x20) (pad n cs) = takeWhile (\<lambda>c. c \<noteq> 0x20) cs"
proof (cases "0x20 \<in> set cs")
  case True
  then show ?thesis by (simp add: pad_def takeWhile_append1 [of "0x20"])
next
  case False
  then have "takeWhile (\<lambda>c. c \<noteq> 0x20) cs = cs" by (auto simp: takeWhile_eq_all_conv)
  moreover have "takeWhile (\<lambda>c. c \<noteq> 0x20) (replicate m (0x20 :: u8)) = []" for m
    by (cases m) simp_all
  ultimately show ?thesis
    using False unfolding pad_def by (subst takeWhile_append2) (auto simp del: takeWhile_eq_all_conv)
qed

lemma list_ex_pad: "list_ex (\<lambda>c. c \<noteq> 0x20) (pad n cs) = list_ex (\<lambda>c. c \<noteq> 0x20) cs"
  by (auto simp: pad_def list_ex_iff)

text \<open>What \<^verbatim>\<open>make_name\<close> makes of a pair of padded fields.\<close>

lemma make_name_pad:
  assumes "length b \<le> 8" and "length e \<le> 3"
  shows "make_name (pad 8 b) (pad 3 e) =
    takeWhile (\<lambda>c. c \<noteq> 0x20) b @
    (if list_ex (\<lambda>c. c \<noteq> 0x20) e then 0x2E # takeWhile (\<lambda>c. c \<noteq> 0x20) e else []) @ [0]"
  using assms by (simp add: make_name_def Let_def takeWhile_pad list_ex_pad length_pad)

lemma map_toupper_takeWhile:
  "takeWhile (\<lambda>c. c \<noteq> 0x2E) (map k_toupper s) = map k_toupper (takeWhile (\<lambda>c. c \<noteq> 0x2E) s)"
  "takeWhile (\<lambda>c. c \<noteq> 0x20) (map k_toupper s) = map k_toupper (takeWhile (\<lambda>c. c \<noteq> 0x20) s)"
  by (induction s) auto

text \<open>Every name is \<open>b @ rest\<close>: no dot in \<open>b\<close>, and \<open>rest\<close> empty or starting with the first dot.\<close>

definition dotted :: "u8 list \<Rightarrow> u8 list \<Rightarrow> bool" where
  "dotted b rest \<longleftrightarrow> 0x2E \<notin> set b \<and> (rest = [] \<or> hd rest = 0x2E)"

lemma dottedE:
  obtains b rest where "name = b @ rest" "dotted b rest"
proof
  show "name = takeWhile (\<lambda>c. c \<noteq> 0x2E) name @ dropWhile (\<lambda>c. c \<noteq> 0x2E) name"
    by simp
  show "dotted (takeWhile (\<lambda>c. c \<noteq> 0x2E) name) (dropWhile (\<lambda>c. c \<noteq> 0x2E) name)"
    using hd_dropWhile [of "\<lambda>c. c \<noteq> 0x2E" name] by (auto simp: dotted_def dest: set_takeWhileD)
qed

lemma takeWhile_dotted: "dotted b rest \<Longrightarrow> takeWhile (\<lambda>c. c \<noteq> 0x2E) (b @ rest) = b"
  unfolding dotted_def by (cases rest) (auto simp: takeWhile_absent takeWhile_first)

lemma valid_83_dotted:
  assumes "dotted b rest"
  shows "valid_83 (b @ rest) \<longleftrightarrow>
    length b \<le> 8 \<and> (rest = [] \<or> 2 \<le> length rest \<and> length rest \<le> 4) \<and>
    list_all (\<lambda>c. c \<noteq> 0x20 \<and> c \<noteq> 0) (b @ rest)"
  by (simp add: valid_83_def Let_def takeWhile_dotted [OF assms])

lemma split_83_dotted:
  assumes "dotted b rest"
  shows "split_83 (b @ rest) =
    (pad 8 (map k_toupper (take 8 b)),
     pad 3 (map k_toupper (if length b \<le> 8 then take 3 (tl rest) else [])))"
proof (cases "length b \<le> 8")
  case True
  have "rest \<noteq> [] \<Longrightarrow> char_at rest = 0x2E"
    using assms by (cases rest) (auto simp: dotted_def)
  with True show ?thesis
    using takeWhile_dotted [OF assms] assms
    by (cases "rest = []") (simp_all add: split_83_def Let_def dotted_def takeWhile_absent)
next
  case False
  then obtain c cs where c: "drop 8 b = c # cs" by (cases "drop 8 b") auto
  then have "c \<in> set b" by (metis in_set_dropD list.set_intros(1))
  with assms have "c \<noteq> 0x2E" by (auto simp: dotted_def)
  with False c show ?thesis
    by (simp add: split_83_def Let_def takeWhile_dotted [OF assms] min_def)
qed

lemma list_ex_toupper:
  "list_ex (\<lambda>c. c \<noteq> 0x20) (map k_toupper e) = list_ex (\<lambda>c. c \<noteq> 0x20) e"
  by (induction e) auto

lemma stored_name_dotted:
  assumes "dotted b rest" and "0 \<notin> set (b @ rest)"
  defines "e \<equiv> if length b \<le> 8 then take 3 (tl rest) else []"
  shows "stored_name (b @ rest) =
    map k_toupper (takeWhile (\<lambda>c. c \<noteq> 0x20) (take 8 b) @
      (if list_ex (\<lambda>c. c \<noteq> 0x20) e then 0x2E # takeWhile (\<lambda>c. c \<noteq> 0x20) e else []))"
    (is "_ = ?out")
proof -
  have "0 \<notin> set e"
    using assms(2) by (cases rest) (auto simp: e_def dest: in_set_takeD split: if_splits)
  with assms(2) have "0 \<notin> set ?out"
    by (auto dest!: set_takeWhileD in_set_takeD)
  moreover have "make_name (pad 8 (map k_toupper (take 8 b))) (pad 3 (map k_toupper e)) = ?out @ [0]"
    by (simp add: make_name_pad e_def map_toupper_takeWhile list_ex_toupper k_toupper_def)
  ultimately show ?thesis
    unfolding stored_name_def split_83_dotted [OF assms(1)] prod.case e_def [symmetric]
    using cstr_append_zero [of ?out "[]"] by simp
qed


lemma stored_name_valid:
  assumes "valid_83 name"
  shows "stored_name name = map k_toupper name"
proof -
  obtain b rest where name: "name = b @ rest" and d: "dotted b rest" by (rule dottedE)
  from assms have v: "length b \<le> 8" "rest = [] \<or> 2 \<le> length rest \<and> length rest \<le> 4"
    "0x20 \<notin> set b" "0x20 \<notin> set rest" "0 \<notin> set (b @ rest)"
    by (auto simp: name valid_83_dotted [OF d] list_all_iff)
  show ?thesis
  proof (cases rest)
    case Nil
    then show ?thesis
      using v stored_name_dotted [OF d v(5)] by (simp add: name takeWhile_absent)
  next
    case (Cons c ext)
    with d v have "c = 0x2E" "length ext \<le> 3" "ext \<noteq> []" "0x20 \<notin> set ext"
      by (auto simp: dotted_def)
    moreover from this have "list_ex (\<lambda>c. c \<noteq> 0x20) ext"
      by (cases ext) auto
    ultimately show ?thesis
      using v Cons stored_name_dotted [OF d v(5)] by (simp add: name takeWhile_absent)
  qed
qed

lemma stored_name_invalid:
  assumes nz: "0 \<notin> set name" and eq: "stored_name name = map k_toupper name"
  shows "valid_83 name"
proof -
  obtain b rest where name: "name = b @ rest" and d: "dotted b rest" by (rule dottedE)
  define e where "e = (if length b \<le> 8 then take 3 (tl rest) else [])"
  define b' where "b' = takeWhile (\<lambda>c. c \<noteq> 0x20) (take 8 b)"
  define r' where "r' = (if list_ex (\<lambda>c. c \<noteq> 0x20) e then 0x2E # takeWhile (\<lambda>c. c \<noteq> 0x20) e else [])"
  have eq': "map k_toupper (b' @ r') = map k_toupper (b @ rest)"
    using eq stored_name_dotted [OF d] nz by (simp add: name b'_def r'_def e_def)
  have "0x20 \<notin> set (b' @ r')"
    by (auto simp: b'_def r'_def dest: set_takeWhileD)
  then have "0x20 \<notin> k_toupper ` set (b' @ r')"
    by (metis imageE k_toupper_special(2))
  then have "0x20 \<notin> k_toupper ` set (b @ rest)"
    using arg_cong [OF eq', of set] by (auto simp: image_Un)
  then have sp: "0x20 \<notin> set (b @ rest)"
    by (metis image_eqI k_toupper_const(2))
  have d': "dotted b' r'"
    using d by (auto simp: dotted_def b'_def r'_def dest!: set_takeWhileD in_set_takeD)
  have "map k_toupper b' = map k_toupper b"
    using arg_cong [OF eq', of "takeWhile (\<lambda>c. c \<noteq> 0x2E)"]
    by (simp only: map_toupper_takeWhile takeWhile_dotted [OF d] takeWhile_dotted [OF d'])
  then have len: "length b' = length b" "length r' = length rest"
    using eq' by (metis length_map, metis append_eq_append_conv length_map map_append)
  moreover have "length b' \<le> 8" "length r' \<le> 4"
    by (auto simp: b'_def r'_def e_def intro!: le_trans [OF length_takeWhile_le])
  moreover have "length rest \<noteq> 1"
  proof
    assume "length rest = 1"
    then have "tl rest = []" by (cases rest) auto
    then have "r' = []" by (simp add: r'_def e_def)
    with len \<open>length rest = 1\<close> show False by simp
  qed
  moreover from this have "rest = [] \<or> 2 \<le> length rest"
    by (cases rest; cases "tl rest") auto
  ultimately show ?thesis
    using sp nz by (auto simp: name valid_83_dotted [OF d] list_all_iff)
qed


lemma stored_name_matches:
  assumes "0 \<notin> set name"
  shows "k_strcmp_nocase (stored_name name) name = 0 \<longleftrightarrow> valid_83 name"
proof -
  have "map k_toupper (stored_name name) = stored_name name"
  proof -
    obtain b rest where name: "name = b @ rest" and d: "dotted b rest" by (rule dottedE)
    show ?thesis
      using assms by (simp add: name stored_name_dotted [OF d] comp_def)
  qed
  moreover have "0 \<notin> set (stored_name name)"
    by (simp add: stored_name_def split: prod.split)
  ultimately show ?thesis
    using assms stored_name_valid [of name] stored_name_invalid [of name]
    by (auto simp: k_strcmp_nocase_iff)
qed

lemma replicate_three: "replicate 3 x = [x, x, x]"
  by (simp add: numeral_eq_Suc)

section \<open>Properties\<close>

text \<open>
  Property C11: storing a name and reading it back. The entry \<^verbatim>\<open>split_83\<close> makes of a name
  is shown by \<^verbatim>\<open>make_name\<close> as the upper-case form of that name, so that the
  case-insensitive lookups find it, exactly when the name is a valid 8.3 name.
\<close>

theorem split_make_name:
  assumes "split_83 name = (n, e)" and "0 \<notin> set name"
  shows "length n = 8 \<and> length e = 3 \<and>
    (k_strcmp_nocase (cstr (make_name n e)) name = 0 \<longleftrightarrow> valid_83 name) \<and>
    (valid_83 name \<longrightarrow> cstr (make_name n e) = map k_toupper name)"
  using assms stored_name_matches [of name] stored_name_valid [of name] length_split_83 [of name]
  by (simp add: stored_name_def)

theorem split_make_name_witness:
  "cstr (make_name (bytes ''HELLO   '') (bytes ''TXT'')) = bytes ''HELLO.TXT''"
proof -
  have "split_83 (bytes ''Hello.txt'') = (bytes ''HELLO   '', bytes ''TXT'')"
    by (simp add: split_83_def bytes_def pad_def k_toupper_def Let_def replicate_three)
  moreover have "0 \<notin> set (bytes ''Hello.txt'')" "valid_83 (bytes ''Hello.txt'')"
    by (simp_all add: bytes_def valid_83_def Let_def)
  ultimately show ?thesis
    using split_make_name [of "bytes ''Hello.txt''"] by (simp add: bytes_def k_toupper_def)
qed

text \<open>
  A name with more than eight characters before its dot is stored under an entry
  that no lookup by that name finds again: \<^verbatim>\<open>fat_write\<close> cannot replace the file it wrote
  before, and \<^verbatim>\<open>fat_read\<close>, \<^verbatim>\<open>fat_delete\<close> and \<^verbatim>\<open>fat_rename\<close> do not see it.
\<close>

theorem long_name_not_found:
  assumes "split_83 name = (n, e)" and "0 \<notin> set name"
    and "8 < length (takeWhile (\<lambda>c. c \<noteq> 0x2E) name)"
  shows "k_strcmp_nocase (cstr (make_name n e)) name \<noteq> 0"
  using assms stored_name_matches [of name] by (simp add: stored_name_def valid_83_def Let_def)

theorem long_name_not_found_witness:
  "k_strcmp_nocase (cstr (make_name (bytes ''LONGFILE'') (bytes ''   ''))) (bytes ''longfilename.txt'') \<noteq> 0"
proof (rule long_name_not_found)
  show "split_83 (bytes ''longfilename.txt'') = (bytes ''LONGFILE'', bytes ''   '')"
    by (simp add: split_83_def bytes_def pad_def k_toupper_def Let_def replicate_three)
qed (simp_all add: bytes_def)

end
