(* ===== verification/Fat_Disk.thy ===== *)
theory Fat_Disk
  imports Block_Device Fat_Codec Fat_Names
begin

unbundle bit_operations_syntax

text \<open>
  The disk layer of \<^verbatim>\<open>drivers/fs/fat.c\<close>: the static variables, the BIOS parameter block,
  directory entries, loading and flushing the allocation table, reading one sector of the
  current directory, and the directory scan every operation performs.
\<close>

section \<open>State\<close>

record bpb =
  bytes_per_sector :: u16
  sectors_per_cluster :: u8
  reserved_sectors :: u16
  fat_count :: u8
  root_entry_count :: u16
  total_sectors_16 :: u16
  sectors_per_fat :: u16
  total_sectors_32 :: u32

text \<open>The other fields of \<^verbatim>\<open>BPB\<close> are never read. Offsets are those of the packed struct.\<close>

definition parse_bpb :: "u8 list \<Rightarrow> bpb" where
  "parse_bpb sec =
     \<lparr> bytes_per_sector = le16 sec 11, sectors_per_cluster = sec ! 13,
       reserved_sectors = le16 sec 14, fat_count = sec ! 16, root_entry_count = le16 sec 17,
       total_sectors_16 = le16 sec 19, sectors_per_fat = le16 sec 22,
       total_sectors_32 = le32 sec 32 \<rparr>"

text \<open>
  Every operation has its own \<^verbatim>\<open>static uint8_t fat_buf[18 * 512]\<close>, reloaded on entry.
  The sector buffers are local values of the model: each is used only after a successful read
  that overwrites all of it.
\<close>

datatype fat_fn = FList | FRead | FDelete | FRename | FWrite | FMkdir | FCd | FRmdir

record 'd fat_state =
  params :: bpb
  initialized :: bool
  fat_start :: u32
  root_start :: u32
  data_start :: u32
  root_sectors :: u32
  current_dir_cluster :: u32
  current_path :: "u8 list"
  fat_bufs :: "fat_fn \<Rightarrow> u8 list"
  dev :: 'd

definition rd_sector :: "'d block_io \<Rightarrow> u32 \<Rightarrow> 'd fat_state \<Rightarrow> u8 list option \<times> 'd fat_state" where
  "rd_sector io lba st = (case bread io (dev st) lba of (r, d) \<Rightarrow> (r, st\<lparr>dev := d\<rparr>))"

definition wr_sector :: "'d block_io \<Rightarrow> u32 \<Rightarrow> u8 list \<Rightarrow> 'd fat_state \<Rightarrow> int \<times> 'd fat_state" where
  "wr_sector io lba bs st =
     (case bwrite io (dev st) lba bs of (ok, d) \<Rightarrow> (if ok then 0 else -1, st\<lparr>dev := d\<rparr>))"

definition save_fat :: "fat_fn \<Rightarrow> u8 list \<Rightarrow> 'd fat_state \<Rightarrow> 'd fat_state" where
  "save_fat fn fb st = st\<lparr>fat_bufs := (fat_bufs st)(fn := fb)\<rparr>"

section \<open>Directory entries\<close>

record raw_dir_entry =
  d_name :: "u8 list"
  d_ext :: "u8 list"
  d_attr :: u8
  d_reserved :: "u8 list"
  d_time :: u16
  d_date :: u16
  d_first :: u16
  d_size :: u32

text \<open>\<^verbatim>\<open>((RawDirEntry*)buf)[i]\<close>: entry \<open>i\<close> is the 32 bytes from \<open>32 * i\<close>.\<close>

definition decode_entry :: "u8 list \<Rightarrow> raw_dir_entry" where
  "decode_entry e =
     \<lparr> d_name = take 8 e, d_ext = take 3 (drop 8 e), d_attr = e ! 11,
       d_reserved = take 10 (drop 12 e), d_time = le16 e 22, d_date = le16 e 24,
       d_first = le16 e 26, d_size = le32 e 28 \<rparr>"

definition encode_entry :: "raw_dir_entry \<Rightarrow> u8 list" where
  "encode_entry e = d_name e @ d_ext e @ [d_attr e] @ d_reserved e @
     enc16 (d_time e) @ enc16 (d_date e) @ enc16 (d_first e) @ enc32 (d_size e)"

definition dir_entry :: "u8 list \<Rightarrow> nat \<Rightarrow> raw_dir_entry" where
  "dir_entry buf i = decode_entry (take 32 (drop (32 * i) buf))"

definition put_entry :: "u8 list \<Rightarrow> nat \<Rightarrow> raw_dir_entry \<Rightarrow> u8 list" where
  "put_entry buf i e = splice buf (32 * i) (encode_entry e)"

definition first_byte :: "raw_dir_entry \<Rightarrow> u8" where
  "first_byte e = d_name e ! 0"

definition entry_name :: "raw_dir_entry \<Rightarrow> u8 list" where
  "entry_name e = cstr (make_name (d_name e) (d_ext e))"

section \<open>The allocation table on disk\<close>

definition fat_secs :: "'d fat_state \<Rightarrow> u32" where
  "fat_secs st = (let n = ucast (sectors_per_fat (params st)) in if n > 18 then 18 else n)"

fun load_fat_from ::
    "'d block_io \<Rightarrow> u32 \<Rightarrow> nat \<Rightarrow> u8 list \<Rightarrow> 'd fat_state \<Rightarrow> (int \<times> u8 list \<times> 'd fat_state) run" where
  "load_fat_from io s 0 fat_buf st = ret (0, fat_buf, st)"
| "load_fat_from io s (Suc n) fat_buf st =
     (case rd_sector io (fat_start st + s) st of
        (None, st') \<Rightarrow> ret (-1, fat_buf, st')
      | (Some sec, st') \<Rightarrow>
          if unat (s * 512) + 512 \<le> length fat_buf
          then load_fat_from io (s + 1) n (splice fat_buf (unat (s * 512)) sec) st'
          else fail OutOfBounds)"

definition load_fat ::
    "'d block_io \<Rightarrow> u8 list \<Rightarrow> u32 \<Rightarrow> 'd fat_state \<Rightarrow> (int \<times> u8 list \<times> 'd fat_state) run" where
  "load_fat io fat_buf secs st = load_fat_from io 0 (unat secs) fat_buf st"

fun write_fat_from ::
    "'d block_io \<Rightarrow> u32 \<Rightarrow> u32 \<Rightarrow> nat \<Rightarrow> u8 list \<Rightarrow> 'd fat_state \<Rightarrow> (int \<times> 'd fat_state) run" where
  "write_fat_from io start s 0 fat_buf st = ret (0, st)"
| "write_fat_from io start s (Suc n) fat_buf st =
     (if unat (s * 512) + 512 \<le> length fat_buf
      then case wr_sector io (start + s) (take 512 (drop (unat (s * 512)) fat_buf)) st of
             (r, st') \<Rightarrow> if r \<noteq> 0 then ret (-1, st')
                        else write_fat_from io start (s + 1) n fat_buf st'
      else fail OutOfBounds)"

text \<open>The outer loop over the \<^verbatim>\<open>fat_count\<close> copies, from copy \<open>f\<close> with \<open>n\<close> copies to go.\<close>

fun write_fat_copies ::
    "'d block_io \<Rightarrow> u8 list \<Rightarrow> u32 \<Rightarrow> u8 \<Rightarrow> nat \<Rightarrow> 'd fat_state \<Rightarrow> (int \<times> 'd fat_state) run" where
  "write_fat_copies io fat_buf secs f 0 st = ret (0, st)"
| "write_fat_copies io fat_buf secs f (Suc n) st =
     (let start = fat_start st + ucast f * ucast (sectors_per_fat (params st))
      in bind_run (write_fat_from io start 0 (unat secs) fat_buf st)
           (\<lambda>(r, st'). if r \<noteq> 0 then ret (-1, st')
                       else write_fat_copies io fat_buf secs (f + 1) n st'))"

definition write_fat ::
    "'d block_io \<Rightarrow> u8 list \<Rightarrow> u32 \<Rightarrow> 'd fat_state \<Rightarrow> (int \<times> 'd fat_state) run" where
  "write_fat io fat_buf secs st =
     write_fat_copies io fat_buf secs 0 (unat (fat_count (params st))) st"

text \<open>
  The prologue of every operation: \<^verbatim>\<open>if (load_fat(fat_buf, fat_secs) != 0) return -1\<close> on
  the operation's own buffer. \<open>err\<close> is the early return.
\<close>

definition with_fat ::
    "fat_fn \<Rightarrow> 'd block_io \<Rightarrow> 'd fat_state \<Rightarrow> ('d fat_state \<Rightarrow> 'r run) \<Rightarrow>
     (u32 \<Rightarrow> u8 list \<Rightarrow> 'd fat_state \<Rightarrow> 'r run) \<Rightarrow> 'r run" where
  "with_fat fn io st err k =
     bind_run (load_fat io (fat_bufs st fn) (fat_secs st) st)
       (\<lambda>(r, fb, st'). if r \<noteq> 0 then err (save_fat fn fb st')
                       else k (fat_secs st) fb (save_fat fn fb st'))"

section \<open>Sectors of the current directory\<close>

text \<open>The cluster walk of \<^verbatim>\<open>read_dir_sector\<close>; \<open>None\<close> is its \<^verbatim>\<open>return 1\<close>.\<close>

fun dir_walk :: "u8 list \<Rightarrow> u16 \<Rightarrow> nat \<Rightarrow> u16 option run" where
  "dir_walk fat_buf cluster 0 = ret (Some cluster)"
| "dir_walk fat_buf cluster (Suc n) =
     bind_run (fat_next_cluster fat_buf cluster)
       (\<lambda>c. if c < 2 \<or> c \<ge> 0xFF8 then ret None else dir_walk fat_buf c n)"

text \<open>The same walk as the write-back of a directory sector does it: without a check.\<close>

fun dir_walk_back :: "u8 list \<Rightarrow> u16 \<Rightarrow> nat \<Rightarrow> u16 run" where
  "dir_walk_back fat_buf cluster 0 = ret cluster"
| "dir_walk_back fat_buf cluster (Suc n) =
     bind_run (fat_next_cluster fat_buf cluster) (\<lambda>c. dir_walk_back fat_buf c n)"

definition cluster_lba :: "'d fat_state \<Rightarrow> u16 \<Rightarrow> u32" where
  "cluster_lba st cluster =
     data_start st + (ucast cluster - 2) * ucast (sectors_per_cluster (params st))"

text \<open>The buffer of the result is meaningful for return value 0 only.\<close>

definition read_dir_sector ::
    "'d block_io \<Rightarrow> u32 \<Rightarrow> u8 list \<Rightarrow> 'd fat_state \<Rightarrow> (int \<times> u8 list \<times> 'd fat_state) run" where
  "read_dir_sector io s fat_buf st =
     (if current_dir_cluster st = 0
      then if s \<ge> root_sectors st then ret (1, [], st)
           else case rd_sector io (root_start st + s) st of
                  (None, st') \<Rightarrow> ret (-1, [], st')
                | (Some sec, st') \<Rightarrow> ret (0, sec, st')
      else let spc = ucast (sectors_per_cluster (params st)) :: u32
           in if spc = 0 then fail DivideError
              else bind_run (dir_walk fat_buf (ucast (current_dir_cluster st)) (unat (s div spc)))
                (\<lambda>w. case w of
                   None \<Rightarrow> ret (1, [], st)
                 | Some cluster \<Rightarrow>
                     (case rd_sector io (cluster_lba st cluster + s mod spc) st of
                        (None, st') \<Rightarrow> ret (-1, [], st')
                      | (Some sec, st') \<Rightarrow> ret (0, sec, st'))))"

text \<open>Writing the changed sector back: the last lines of every operation that edits a directory.\<close>

definition write_dir_sector ::
    "'d block_io \<Rightarrow> u32 \<Rightarrow> u8 list \<Rightarrow> u8 list \<Rightarrow> 'd fat_state \<Rightarrow> (int \<times> 'd fat_state) run" where
  "write_dir_sector io s dbuf fat_buf st =
     (if current_dir_cluster st = 0 then ret (wr_sector io (root_start st + s) dbuf st)
      else let spc = ucast (sectors_per_cluster (params st)) :: u32
           in if spc = 0 then fail DivideError
              else bind_run (dir_walk_back fat_buf (ucast (current_dir_cluster st)) (unat (s div spc)))
                (\<lambda>cluster. ret (wr_sector io (cluster_lba st cluster + s mod spc) dbuf st)))"

section \<open>Scanning the current directory\<close>

text \<open>
  What the inner loop over the 16 entries of a sector ends with: an entry that matched, the
  end-of-directory mark, or neither (the next sector is read).
\<close>

datatype probe = Hit nat | Stop | Next

text \<open>The lookups: \<^verbatim>\<open>first == 0x00\<close> ends the search, entries that do not match are skipped.\<close>

fun find_entry_from :: "(raw_dir_entry \<Rightarrow> bool) \<Rightarrow> u8 list \<Rightarrow> nat \<Rightarrow> nat \<Rightarrow> probe" where
  "find_entry_from p buf i 0 = Next"
| "find_entry_from p buf i (Suc n) =
     (let e = dir_entry buf i
      in if first_byte e = 0x00 then Stop
         else if p e then Hit i
         else find_entry_from p buf (i + 1) n)"

definition find_entry :: "(raw_dir_entry \<Rightarrow> bool) \<Rightarrow> u8 list \<Rightarrow> probe" where
  "find_entry p buf = find_entry_from p buf 0 (512 div 32)"

text \<open>The search of \<^verbatim>\<open>fat_write\<close> and \<^verbatim>\<open>fat_mkdir\<close> for an entry to fill.\<close>

fun find_slot_from :: "u8 list \<Rightarrow> nat \<Rightarrow> nat \<Rightarrow> probe" where
  "find_slot_from buf i 0 = Next"
| "find_slot_from buf i (Suc n) =
     (let first = first_byte (dir_entry buf i)
      in if first = 0x00 \<or> first = 0xE5 then Hit i else find_slot_from buf (i + 1) n)"

definition find_slot :: "u8 list \<Rightarrow> probe" where
  "find_slot buf = find_slot_from buf 0 (512 div 32)"

text \<open>
  The loop \<^verbatim>\<open>for (uint32_t s = 0; ; s++)\<close> over the sectors. A subdirectory whose chain is
  cyclic and has no end mark is scanned forever, so the function is partial.
\<close>

partial_function (option) dir_search ::
    "'d block_io \<Rightarrow> (u8 list \<Rightarrow> probe) \<Rightarrow> u8 list \<Rightarrow> u32 \<Rightarrow> 'd fat_state \<Rightarrow>
     ((u32 \<times> nat \<times> u8 list) option \<times> 'd fat_state) run" where
  "dir_search io scan fat_buf s st =
     bind_run (read_dir_sector io s fat_buf st)
       (\<lambda>(r, buf, st').
          if r \<noteq> 0 then ret (None, st')
          else case scan buf of
                 Hit i \<Rightarrow> ret (Some (s, i, buf), st')
               | Stop \<Rightarrow> ret (None, st')
               | Next \<Rightarrow> dir_search io scan fat_buf (s + 1) st')"

text \<open>The conditions of the inner loops.\<close>

definition is_file :: "raw_dir_entry \<Rightarrow> bool" where
  "is_file e \<longleftrightarrow> first_byte e \<noteq> 0xE5 \<and> d_attr e AND 0x08 = 0 \<and> d_attr e AND 0x10 = 0"

definition is_subdir :: "raw_dir_entry \<Rightarrow> bool" where
  "is_subdir e \<longleftrightarrow> first_byte e \<noteq> 0xE5 \<and> d_attr e AND 0x10 \<noteq> 0 \<and> first_byte e \<noteq> 0x2E"

definition match_file :: "u8 list \<Rightarrow> raw_dir_entry \<Rightarrow> bool" where
  "match_file name e \<longleftrightarrow> is_file e \<and> k_strcmp_nocase (entry_name e) name = 0"

definition match_dir :: "u8 list \<Rightarrow> raw_dir_entry \<Rightarrow> bool" where
  "match_dir name e \<longleftrightarrow> is_subdir e \<and> k_strcmp_nocase (entry_name e) name = 0"

end
