(* ===== verification/Fat.thy ===== *)
theory Fat
  imports Fat_Disk
begin

unbundle bit_operations_syntax

text \<open>
  The file system operations of \<^verbatim>\<open>drivers/fs/fat.c\<close>, one definition per function. Each
  takes the disk operations \<open>io\<close> and the static state and returns the C return value with the
  new state.
\<close>

section \<open>Mounting and capacity\<close>

definition fat_init :: "'d block_io \<Rightarrow> 'd fat_state \<Rightarrow> (int \<times> 'd fat_state) run" where
  "fat_init io st =
     (case rd_sector io 0 st of
        (None, st') \<Rightarrow> ret (-1, st')
      | (Some sec, st') \<Rightarrow>
          let b = parse_bpb sec;
              bps = ucast (bytes_per_sector b) :: u32;
              fs = ucast (reserved_sectors b);
              rs = fs + ucast (fat_count b) * ucast (sectors_per_fat b)
          in if bps = 0 then fail DivideError
             else let rsec = (ucast (root_entry_count b) * 32 + (bps - 1)) div bps
                  in ret (0, st'\<lparr>params := b, fat_start := fs, root_start := rs,
                                root_sectors := rsec, data_start := rs + rsec,
                                initialized := True\<rparr>))"

definition fat_get_total_kb :: "'d fat_state \<Rightarrow> u32" where
  "fat_get_total_kb st =
     (if \<not> initialized st then 0
      else let p = params st;
               tot = (if total_sectors_16 p \<noteq> 0 then ucast (total_sectors_16 p)
                      else total_sectors_32 p)
           in (tot * ucast (bytes_per_sector p)) div 1024)"

text \<open>The sum over the entries of one sector; the flag is the early \<^verbatim>\<open>return used\<close>.\<close>

fun used_in_sector :: "u8 list \<Rightarrow> nat \<Rightarrow> nat \<Rightarrow> u32 \<Rightarrow> u32 \<times> bool" where
  "used_in_sector buf i 0 used = (used, False)"
| "used_in_sector buf i (Suc n) used =
     (let e = dir_entry buf i
      in if first_byte e = 0x00 then (used, True)
         else if first_byte e = 0xE5 \<or> d_attr e AND 0x08 \<noteq> 0 then used_in_sector buf (i + 1) n used
         else used_in_sector buf (i + 1) n (used + d_size e))"

fun used_from :: "'d block_io \<Rightarrow> u32 \<Rightarrow> nat \<Rightarrow> u32 \<Rightarrow> 'd fat_state \<Rightarrow> u32 \<times> 'd fat_state" where
  "used_from io s 0 used st = (used, st)"
| "used_from io s (Suc n) used st =
     (case rd_sector io (root_start st + s) st of
        (None, st') \<Rightarrow> (0, st')
      | (Some sec, st') \<Rightarrow>
          (case used_in_sector sec 0 (512 div 32) used of
             (used', done) \<Rightarrow> if done then (used', st') else used_from io (s + 1) n used' st'))"

definition fat_get_used_kb :: "'d block_io \<Rightarrow> 'd fat_state \<Rightarrow> u32 \<times> 'd fat_state" where
  "fat_get_used_kb io st =
     (if \<not> initialized st then (0, st) else used_from io 0 (unat (root_sectors st)) 0 st)"

section \<open>The current directory\<close>

text \<open>\<^verbatim>\<open>k_strcpy\<close> into a buffer at an offset; writing past its end is a fault.\<close>

definition k_strcpy :: "u8 list \<Rightarrow> nat \<Rightarrow> u8 list \<Rightarrow> u8 list run" where
  "k_strcpy dst off src =
     (if off + length src + 1 \<le> length dst then ret (splice dst off (src @ [0]))
      else fail OutOfBounds)"

definition fat_set_current :: "u32 \<Rightarrow> u8 list \<Rightarrow> 'd fat_state \<Rightarrow> 'd fat_state run" where
  "fat_set_current cluster path st =
     bind_run (k_strcpy (current_path st) 0 path)
       (\<lambda>p. ret (st\<lparr>current_dir_cluster := cluster, current_path := p\<rparr>))"

definition push_path :: "u8 list \<Rightarrow> u8 list \<Rightarrow> u8 list run" where
  "push_path path name =
     (if path ! 1 = 0 then k_strcpy path 0 (0x2F # name)
      else let len = length (cstr path)
           in if len < length path then k_strcpy (path[len := 0x2F]) (len + 1) name
              else fail OutOfBounds)"

definition fat_cd :: "'d block_io \<Rightarrow> u8 list \<Rightarrow> 'd fat_state \<Rightarrow> (int \<times> 'd fat_state) run" where
  "fat_cd io name st =
     (if \<not> initialized st then ret (-1, st)
      else if name = bytes ''..''
      then bind_run (k_strcpy (current_path st) 0 (bytes ''/''))
             (\<lambda>p. ret (0, st\<lparr>current_dir_cluster := 0, current_path := p\<rparr>))
      else with_fat FCd io st (\<lambda>st. ret (-1, st)) (\<lambda>secs fb st.
        bind_run (dir_search io (find_entry (match_dir name)) fb 0 st) (\<lambda>(hit, st).
          case hit of
            None \<Rightarrow> ret (-1, st)
          | Some (s, i, dbuf) \<Rightarrow>
              let e = dir_entry dbuf i
              in bind_run (push_path (current_path st) (entry_name e))
                   (\<lambda>p. ret (0, st\<lparr>current_dir_cluster := ucast (d_first e), current_path := p\<rparr>)))))"

section \<open>Listing\<close>

record fat12_entry =
  fe_name :: "u8 list"
  fe_size :: u32
  fe_first_cluster :: u16
  fe_is_dir :: bool

definition list_entry :: "raw_dir_entry \<Rightarrow> fat12_entry" where
  "list_entry e = \<lparr>fe_name = make_name (d_name e) (d_ext e), fe_size = d_size e,
     fe_first_cluster = d_first e, fe_is_dir = (d_attr e AND 0x10 \<noteq> 0)\<rparr>"

text \<open>\<open>acc\<close> holds the entries filled so far, \<open>count\<close> is its length; the flag is \<^verbatim>\<open>goto done\<close>.\<close>

fun list_sector ::
    "int \<Rightarrow> u8 list \<Rightarrow> nat \<Rightarrow> nat \<Rightarrow> fat12_entry list \<Rightarrow> fat12_entry list \<times> bool" where
  "list_sector max_n buf i 0 acc = (acc, False)"
| "list_sector max_n buf i (Suc n) acc =
     (if int (length acc) < max_n
      then let e = dir_entry buf i
           in if first_byte e = 0x00 then (acc, True)
              else if first_byte e = 0xE5 \<or> d_attr e AND 0x08 \<noteq> 0 \<or> first_byte e = 0x2E
              then list_sector max_n buf (i + 1) n acc
              else list_sector max_n buf (i + 1) n (acc @ [list_entry e])
      else (acc, False))"

partial_function (option) list_from ::
    "'d block_io \<Rightarrow> int \<Rightarrow> u8 list \<Rightarrow> u32 \<Rightarrow> fat12_entry list \<Rightarrow> 'd fat_state \<Rightarrow>
     (fat12_entry list \<times> 'd fat_state) run" where
  "list_from io max_n fat_buf s acc st =
     (if int (length acc) < max_n
      then bind_run (read_dir_sector io s fat_buf st)
        (\<lambda>(r, buf, st').
           if r \<noteq> 0 then ret (acc, st')
           else case list_sector max_n buf 0 (512 div 32) acc of
                  (acc', done) \<Rightarrow> if done then ret (acc', st')
                                  else list_from io max_n fat_buf (s + 1) acc' st')
      else ret (acc, st))"

definition fat_list ::
    "'d block_io \<Rightarrow> int \<Rightarrow> 'd fat_state \<Rightarrow> (int \<times> fat12_entry list \<times> 'd fat_state) run" where
  "fat_list io max_n st =
     (if \<not> initialized st then ret (-1, [], st)
      else with_fat FList io st (\<lambda>st. ret (-1, [], st)) (\<lambda>secs fb st.
        bind_run (list_from io max_n fb 0 [] st)
          (\<lambda>(acc, st). ret (int (length acc), acc, st))))"


section \<open>Reading a file\<close>

text \<open>
  The loop over the sectors of one cluster; \<open>n\<close> sectors to go. The result is the return code
  of a failed read, or \<open>bytes_read\<close>, the caller's buffer and whether \<^verbatim>\<open>goto read_done\<close> was taken.
\<close>

definition copy_len :: "u32 \<Rightarrow> u32 \<Rightarrow> u32 \<Rightarrow> u32" where
  "copy_len bytes_read file_size buf_size =
     (let c1 = (if bytes_read + 512 > file_size then file_size - bytes_read else 512)
      in if bytes_read + c1 > buf_size then buf_size - bytes_read else c1)"

fun read_sectors ::
    "'d block_io \<Rightarrow> u32 \<Rightarrow> u32 \<Rightarrow> u32 \<Rightarrow> nat \<Rightarrow> u32 \<Rightarrow> u8 list \<Rightarrow> 'd fat_state \<Rightarrow>
     ((int + u32 \<times> bool) \<times> u8 list \<times> 'd fat_state) run" where
  "read_sectors io file_size buf_size lba 0 bytes_read buf st = ret (Inr (bytes_read, False), buf, st)"
| "read_sectors io file_size buf_size lba (Suc n) bytes_read buf st =
     (case rd_sector io lba st of
        (None, st') \<Rightarrow> ret (Inl (-1), buf, st')
      | (Some sec, st') \<Rightarrow>
          let to_copy = copy_len bytes_read file_size buf_size
          in if unat to_copy \<le> 512 \<and> unat bytes_read + unat to_copy \<le> length buf
             then let buf' = splice buf (unat bytes_read) (take (unat to_copy) sec);
                      bytes_read' = bytes_read + to_copy
                  in if bytes_read' \<ge> file_size \<or> bytes_read' \<ge> buf_size
                     then ret (Inr (bytes_read', True), buf', st')
                     else read_sectors io file_size buf_size (lba + 1) n bytes_read' buf' st'
             else fail OutOfBounds)"

partial_function (option) read_clusters ::
    "'d block_io \<Rightarrow> u8 list \<Rightarrow> u32 \<Rightarrow> u32 \<Rightarrow> u16 \<Rightarrow> u32 \<Rightarrow> u8 list \<Rightarrow> 'd fat_state \<Rightarrow>
     (int \<times> u8 list \<times> 'd fat_state) run" where
  "read_clusters io fat_buf file_size buf_size cluster bytes_read buf st =
     (if data_cluster cluster
      then bind_run (read_sectors io file_size buf_size (cluster_lba st cluster)
                       (unat (sectors_per_cluster (params st))) bytes_read buf st)
        (\<lambda>(r, buf', st').
           case r of
             Inl rc \<Rightarrow> ret (rc, buf', st')
           | Inr (bytes_read', done) \<Rightarrow>
               if done then ret (sint bytes_read', buf', st')
               else bind_run (fat_next_cluster fat_buf cluster)
                      (\<lambda>c. if c < 2 then ret (sint bytes_read', buf', st')
                           else read_clusters io fat_buf file_size buf_size c bytes_read' buf' st'))
      else ret (sint bytes_read, buf, st))"

definition fat_read ::
    "'d block_io \<Rightarrow> u8 list \<Rightarrow> u8 list \<Rightarrow> u32 \<Rightarrow> 'd fat_state \<Rightarrow> (int \<times> u8 list \<times> 'd fat_state) run" where
  "fat_read io name buf buf_size st =
     (if \<not> initialized st then ret (-1, buf, st)
      else with_fat FRead io st (\<lambda>st. ret (-1, buf, st)) (\<lambda>secs fb st.
        bind_run (dir_search io (find_entry (match_file name)) fb 0 st) (\<lambda>(hit, st).
          case hit of
            None \<Rightarrow> ret (-1, buf, st)
          | Some (s, i, dbuf) \<Rightarrow>
              let found = dir_entry dbuf i
              in if d_first found < 2 \<or> d_size found = 0 then ret (0, buf, st)
                 else read_clusters io fb (d_size found) buf_size (d_first found) 0 buf st)))"

section \<open>Deleting and renaming\<close>

text \<open>
  The common end of \<^verbatim>\<open>fat_delete\<close> and \<^verbatim>\<open>fat_rmdir\<close>: free the chain, flush the table (a
  failure is ignored), mark the entry with 0xE5, write the sector back.
\<close>

definition remove_entry ::
    "'d block_io \<Rightarrow> fat_fn \<Rightarrow> u32 \<Rightarrow> u8 list \<Rightarrow> u32 \<Rightarrow> nat \<Rightarrow> u8 list \<Rightarrow> 'd fat_state \<Rightarrow>
     (int \<times> 'd fat_state) run" where
  "remove_entry io fn secs fb s i dbuf st =
     (let e = dir_entry dbuf i
      in bind_run (free_chain fb (d_first e)) (\<lambda>fb'.
         bind_run (write_fat io fb' secs (save_fat fn fb' st)) (\<lambda>(_, st').
           write_dir_sector io s (put_entry dbuf i (e\<lparr>d_name := (d_name e)[0 := 0xE5]\<rparr>)) fb' st')))"

definition fat_delete :: "'d block_io \<Rightarrow> u8 list \<Rightarrow> 'd fat_state \<Rightarrow> (int \<times> 'd fat_state) run" where
  "fat_delete io name st =
     (if \<not> initialized st then ret (-1, st)
      else with_fat FDelete io st (\<lambda>st. ret (-1, st)) (\<lambda>secs fb st.
        bind_run (dir_search io (find_entry (match_file name)) fb 0 st) (\<lambda>(hit, st).
          case hit of
            None \<Rightarrow> ret (-1, st)
          | Some (s, i, dbuf) \<Rightarrow> remove_entry io FDelete secs fb s i dbuf st)))"

definition fat_rmdir :: "'d block_io \<Rightarrow> u8 list \<Rightarrow> 'd fat_state \<Rightarrow> (int \<times> 'd fat_state) run" where
  "fat_rmdir io name st =
     (if \<not> initialized st then ret (-1, st)
      else with_fat FRmdir io st (\<lambda>st. ret (-1, st)) (\<lambda>secs fb st.
        bind_run (dir_search io (find_entry (match_dir name)) fb 0 st) (\<lambda>(hit, st).
          case hit of
            None \<Rightarrow> ret (-1, st)
          | Some (s, i, dbuf) \<Rightarrow> remove_entry io FRmdir secs fb s i dbuf st)))"

definition fat_rename ::
    "'d block_io \<Rightarrow> u8 list \<Rightarrow> u8 list \<Rightarrow> 'd fat_state \<Rightarrow> (int \<times> 'd fat_state) run" where
  "fat_rename io old_name new_name st =
     (if \<not> initialized st then ret (-1, st)
      else case split_83 new_name of (want_name, want_ext) \<Rightarrow>
        with_fat FRename io st (\<lambda>st. ret (-1, st)) (\<lambda>secs fb st.
        bind_run (dir_search io (find_entry (match_file old_name)) fb 0 st) (\<lambda>(hit, st).
          case hit of
            None \<Rightarrow> ret (-1, st)
          | Some (s, i, dbuf) \<Rightarrow>
              write_dir_sector io s
                (put_entry dbuf i ((dir_entry dbuf i)\<lparr>d_name := want_name, d_ext := want_ext\<rparr>)) fb st)))"

section \<open>Writing\<close>

text \<open>
  The sectors of one cluster: \<^verbatim>\<open>buf\<close> is zeroed, filled with at most 512 bytes of \<open>data\<close> and
  written. Returns the return code and the bytes left.
\<close>

fun write_sectors ::
    "'d block_io \<Rightarrow> u8 list \<Rightarrow> u32 \<Rightarrow> nat \<Rightarrow> u32 \<Rightarrow> u32 \<Rightarrow> 'd fat_state \<Rightarrow>
     (int \<times> u32 \<times> 'd fat_state) run" where
  "write_sectors io data lba 0 offset bytes_left st = ret (0, bytes_left, st)"
| "write_sectors io data lba (Suc n) offset bytes_left st =
     (let to_copy = (if bytes_left < 512 then bytes_left else 512)
      in if unat offset + unat to_copy \<le> length data
         then let chunk = take (unat to_copy) (drop (unat offset) data)
              in case wr_sector io lba (chunk @ replicate (512 - length chunk) 0) st of
                   (r, st') \<Rightarrow>
                     if r \<noteq> 0 then ret (-1, bytes_left, st')
                     else let bytes_left' = bytes_left - to_copy
                          in if bytes_left' = 0 then ret (0, bytes_left', st')
                             else write_sectors io data (lba + 1) n (offset + to_copy) bytes_left' st'
         else fail OutOfBounds)"

partial_function (option) write_clusters ::
    "'d block_io \<Rightarrow> u32 \<Rightarrow> u8 list \<Rightarrow> u32 \<Rightarrow> u8 list \<Rightarrow> u32 \<Rightarrow> u16 \<Rightarrow> u16 \<Rightarrow> 'd fat_state \<Rightarrow>
     (int \<times> u8 list \<times> u16 \<times> 'd fat_state) run" where
  "write_clusters io total_clusters data sz fat_buf bytes_left first_cluster prev_cluster st =
     (if bytes_left > 0
      then bind_run (fat_find_free_cluster fat_buf total_clusters) (\<lambda>cluster.
        if cluster = 0 then ret (-1, fat_buf, first_cluster, st)
        else let first' = (if first_cluster = 0 then cluster else first_cluster)
          in bind_run (if prev_cluster \<noteq> 0 then fat_set_cluster fat_buf prev_cluster cluster
                       else ret fat_buf) (\<lambda>fb1.
             bind_run (fat_set_cluster fb1 cluster 0xFFF) (\<lambda>fb2.
             bind_run (write_sectors io data (cluster_lba st cluster)
                         (unat (sectors_per_cluster (params st))) (sz - bytes_left) bytes_left st)
               (\<lambda>(r, left', st').
                  if r \<noteq> 0 then ret (-1, fb2, first', st')
                  else write_clusters io total_clusters data sz fb2 left' first' cluster st'))))
      else ret (0, fat_buf, first_cluster, st))"

definition total_clusters_of :: "u32 \<Rightarrow> u32" where
  "total_clusters_of secs = (secs * 512 * 2) div 3"

text \<open>The entry a new file or directory gets, and the loop that stores it in the first free slot.\<close>

definition new_entry :: "u8 list \<Rightarrow> u8 list \<Rightarrow> u8 \<Rightarrow> u16 \<Rightarrow> u32 \<Rightarrow> raw_dir_entry" where
  "new_entry want_name want_ext attr first sz =
     \<lparr> d_name = want_name, d_ext = want_ext, d_attr = attr, d_reserved = replicate 10 0,
       d_time = 0, d_date = 0, d_first = first, d_size = sz \<rparr>"

definition store_entry ::
    "'d block_io \<Rightarrow> raw_dir_entry \<Rightarrow> u8 list \<Rightarrow> 'd fat_state \<Rightarrow> (int \<times> 'd fat_state) run" where
  "store_entry io e fb st =
     bind_run (dir_search io find_slot fb 0 st) (\<lambda>(hit, st).
       case hit of
         None \<Rightarrow> ret (-1, st)
       | Some (s, i, dbuf) \<Rightarrow> write_dir_sector io s (put_entry dbuf i e) fb st)"

definition fat_write ::
    "'d block_io \<Rightarrow> u8 list \<Rightarrow> u8 list \<Rightarrow> u32 \<Rightarrow> 'd fat_state \<Rightarrow> (int \<times> 'd fat_state) run" where
  "fat_write io name data sz st =
     (if \<not> initialized st then ret (-1, st)
      else bind_run (fat_delete io name st) (\<lambda>(_, st).
        case split_83 name of (want_name, want_ext) \<Rightarrow>
        with_fat FWrite io st (\<lambda>st. ret (-1, st)) (\<lambda>secs fb st.
        bind_run (write_clusters io (total_clusters_of secs) data sz fb sz 0 0 st)
          (\<lambda>(r, fb', first, st).
             let st = save_fat FWrite fb' st
             in if r \<noteq> 0 then ret (-1, st)
                else bind_run (write_fat io fb' secs st) (\<lambda>(r, st).
                  if r \<noteq> 0 then ret (-1, st)
                  else store_entry io (new_entry want_name want_ext 0x00 first sz) fb' st)))))"

definition dot_entries :: "u16 \<Rightarrow> u16 \<Rightarrow> u8 list" where
  "dot_entries new_cluster parent =
     put_entry (put_entry (replicate 512 0)
       0 (new_entry (pad 8 [0x2E]) (pad 3 []) 0x10 new_cluster 0))
       1 (new_entry (pad 8 [0x2E, 0x2E]) (pad 3 []) 0x10 parent 0)"

definition fat_mkdir :: "'d block_io \<Rightarrow> u8 list \<Rightarrow> 'd fat_state \<Rightarrow> (int \<times> 'd fat_state) run" where
  "fat_mkdir io name st =
     (if \<not> initialized st then ret (-1, st)
      else case split_83 name of (want_name, want_ext) \<Rightarrow>
        with_fat FMkdir io st (\<lambda>st. ret (-1, st)) (\<lambda>secs fb st.
        bind_run (fat_find_free_cluster fb (total_clusters_of secs)) (\<lambda>new_cluster.
          if new_cluster = 0 then ret (-1, st)
          else bind_run (fat_set_cluster fb new_cluster 0xFFF) (\<lambda>fb'.
            bind_run (write_fat io fb' secs (save_fat FMkdir fb' st)) (\<lambda>(r, st).
              if r \<noteq> 0 then ret (-1, st)
              else case wr_sector io (cluster_lba st new_cluster)
                          (dot_entries new_cluster (ucast (current_dir_cluster st))) st of
                (r, st) \<Rightarrow>
                  if r \<noteq> 0 then ret (-1, st)
                  else store_entry io (new_entry want_name want_ext 0x10 new_cluster 0) fb' st)))))"

end
