(* ===== verification/Fat_Dir.thy ===== *)
theory Fat_Dir
  imports Fat
begin

unbundle bit_operations_syntax

text \<open>
  Directories as lists of entries. The byte-level directory code (32-byte entries in 512-byte
  sectors, searched sector by sector through the driver) is related to three operations on a
  list of entries: looking up the first match before the end mark, finding the first free
  slot, and replacing one entry.
\<close>

section \<open>Entry encoding\<close>

definition wf_entry :: "raw_dir_entry \<Rightarrow> bool" where
  "wf_entry e \<longleftrightarrow> length (d_name e) = 8 \<and> length (d_ext e) = 3 \<and> length (d_reserved e) = 10"

lemma length_encode_entry [simp]: "wf_entry e \<Longrightarrow> length (encode_entry e) = 32"
  by (simp add: encode_entry_def wf_entry_def)

lemma decode_encode_entry [codec_simps]:
  assumes "wf_entry e"
  shows "decode_entry (encode_entry e) = e"
proof -
  obtain n x a r t d f s where e: "e = \<lparr>d_name = n, d_ext = x, d_attr = a, d_reserved = r,
      d_time = t, d_date = d, d_first = f, d_size = s\<rparr>"
    by (cases e) auto
  from assms have len: "length n = 8" "length x = 3" "length r = 10"
    by (simp_all add: e wf_entry_def)
  let ?h = "n @ x @ [a] @ r"
  have "le16 (?h @ enc16 t @ enc16 d @ enc16 f @ enc32 s) 22 = t"
    using le16_enc16 [of ?h t] len by simp
  moreover have "le16 (?h @ enc16 t @ enc16 d @ enc16 f @ enc32 s) 24 = d"
    using le16_enc16 [of "?h @ enc16 t" d] len by simp
  moreover have "le16 (?h @ enc16 t @ enc16 d @ enc16 f @ enc32 s) 26 = f"
    using le16_enc16 [of "?h @ enc16 t @ enc16 d" f] len by simp
  moreover have "le32 (?h @ enc16 t @ enc16 d @ enc16 f @ enc32 s) 28 = s"
    using le32_enc32 [of "?h @ enc16 t @ enc16 d @ enc16 f" s "[]"] len by simp
  ultimately show ?thesis
    using len by (simp add: e decode_entry_def encode_entry_def nth_append)
qed

lemma wf_decode_entry: "length bs = 32 \<Longrightarrow> wf_entry (decode_entry bs)"
  by (simp add: wf_entry_def decode_entry_def)

lemma wf_dir_entry: "length buf = 512 \<Longrightarrow> i < 16 \<Longrightarrow> wf_entry (dir_entry buf i)"
  unfolding dir_entry_def by (rule wf_decode_entry) simp

lemma length_put_entry [simp]:
  "wf_entry e \<Longrightarrow> length buf = 512 \<Longrightarrow> i < 16 \<Longrightarrow> length (put_entry buf i e) = 512"
  by (simp add: put_entry_def)

lemma dir_entry_put:
  assumes "wf_entry e" "length buf = 512" "i < 16" "j < 16"
  shows "dir_entry (put_entry buf i e) j = (if j = i then e else dir_entry buf j)"
proof (cases "j = i")
  case True
  then show ?thesis
    using take_drop_splice [of "32 * i" "encode_entry e" buf] assms
    by (simp add: dir_entry_def put_entry_def decode_encode_entry)
next
  case False
  then have "32 * j + 32 \<le> 32 * i \<or> 32 * i + 32 \<le> 32 * j" by auto
  then show ?thesis
    using take_drop_splice_other [of "32 * i" "encode_entry e" buf "32 * j" 32] assms False
    by (simp add: dir_entry_def put_entry_def)
qed

section \<open>Operations on a list of entries\<close>

fun lookup :: "(raw_dir_entry \<Rightarrow> bool) \<Rightarrow> raw_dir_entry list \<Rightarrow> nat option" where
  "lookup p [] = None"
| "lookup p (e # es) =
     (if first_byte e = 0 then None else if p e then Some 0 else map_option Suc (lookup p es))"

fun slot :: "raw_dir_entry list \<Rightarrow> nat option" where
  "slot [] = None"
| "slot (e # es) =
     (if first_byte e = 0 \<or> first_byte e = 0xE5 then Some 0 else map_option Suc (slot es))"

lemma lookup_Some:
  "lookup p es = Some k \<longleftrightarrow>
     k < length es \<and> first_byte (es ! k) \<noteq> 0 \<and> p (es ! k) \<and>
     (\<forall>j < k. first_byte (es ! j) \<noteq> 0 \<and> \<not> p (es ! j))"
proof (induction es arbitrary: k)
  case (Cons e es)
  then show ?case
    by (cases k) (auto simp: less_Suc_eq_0_disj)
qed simp

lemma slot_Some:
  "slot es = Some k \<longleftrightarrow>
     k < length es \<and> (first_byte (es ! k) = 0 \<or> first_byte (es ! k) = 0xE5) \<and>
     (\<forall>j < k. first_byte (es ! j) \<noteq> 0 \<and> first_byte (es ! j) \<noteq> 0xE5)"
proof (induction es arbitrary: k)
  case (Cons e es)
  then show ?case
    by (cases k) (auto simp: less_Suc_eq_0_disj)
qed simp

text \<open>A lookup that fails has seen every entry before the first free slot.\<close>

lemma lookup_None_before:
  assumes "lookup p es = None" "k \<le> length es" "\<forall>j < k. first_byte (es ! j) \<noteq> 0" "j < k"
  shows "\<not> p (es ! j)"
  using assms
proof (induction es arbitrary: k j)
  case (Cons e es)
  show ?case
  proof (cases j)
    case 0
    then show ?thesis using Cons.prems by (auto split: if_splits)
  next
    case (Suc j')
    moreover from Suc Cons.prems obtain k' where "k = Suc k'" by (cases k) auto
    moreover have "first_byte e \<noteq> 0" using Cons.prems(3,4) by auto
    ultimately show ?thesis
      using Cons.prems Cons.IH [of k' j'] by (fastforce split: if_splits)
  qed
qed simp

lemma lookup_new_entry:
  assumes "lookup p es = None" "slot es = Some k" "p e" "first_byte e \<noteq> 0"
  shows "lookup p (es[k := e]) = Some k"
  using assms lookup_None_before [OF assms(1), of k] by (auto simp: lookup_Some slot_Some)


section \<open>One sector\<close>

definition sector_entries :: "u8 list \<Rightarrow> raw_dir_entry list" where
  "sector_entries buf = map (dir_entry buf) [0..<16]"

lemma length_sector_entries [simp]: "length (sector_entries buf) = 16"
  by (simp add: sector_entries_def)

text \<open>\<open>scan_spec scan f\<close>: the sector loop \<open>scan\<close> performs one step of the list function \<open>f\<close>.\<close>

definition scan_spec :: "(u8 list \<Rightarrow> probe) \<Rightarrow> (raw_dir_entry list \<Rightarrow> nat option) \<Rightarrow> bool" where
  "scan_spec scan f \<longleftrightarrow> f [] = None \<and>
     (\<forall>buf es. f (sector_entries buf @ es) =
       (case scan buf of Hit i \<Rightarrow> Some i | Stop \<Rightarrow> None | Next \<Rightarrow> map_option ((+) 16) (f es))) \<and>
     (\<forall>buf i. scan buf = Hit i \<longrightarrow> i < 16)"

lemma plus_Suc_fun: "(+) (Suc n) = (\<lambda>x. Suc (n + x))"
  by auto

lemma find_entry_from_lookup:
  "lookup p (map (dir_entry buf) [i..<i + n] @ es) =
     (case find_entry_from p buf i n of
        Hit k \<Rightarrow> Some (k - i) | Stop \<Rightarrow> None | Next \<Rightarrow> map_option ((+) n) (lookup p es)) \<and>
   (\<forall>k. find_entry_from p buf i n = Hit k \<longrightarrow> i \<le> k \<and> k < i + n)"
proof (induction n arbitrary: i)
  case 0
  then show ?case by (cases "lookup p es") simp_all
next
  case (Suc n)
  have "[i..<i + Suc n] = i # [Suc i..<Suc i + n]"
    by (simp add: upt_rec)
  then show ?case
    using Suc.IH [of "Suc i"]
    by (auto simp: Let_def Suc_diff_le option.map_comp comp_def plus_Suc_fun split: probe.splits)
qed

lemma scan_find_entry: "scan_spec (find_entry p) (lookup p)"
  using find_entry_from_lookup [of p _ 0 16]
  by (auto simp: scan_spec_def find_entry_def sector_entries_def split: probe.splits)

lemma find_slot_from_slot:
  "slot (map (dir_entry buf) [i..<i + n] @ es) =
     (case find_slot_from buf i n of
        Hit k \<Rightarrow> Some (k - i) | Stop \<Rightarrow> None | Next \<Rightarrow> map_option ((+) n) (slot es)) \<and>
   (\<forall>k. find_slot_from buf i n = Hit k \<longrightarrow> i \<le> k \<and> k < i + n)"
proof (induction n arbitrary: i)
  case 0
  then show ?case by (cases "slot es") simp_all
next
  case (Suc n)
  have "[i..<i + Suc n] = i # [Suc i..<Suc i + n]"
    by (simp add: upt_rec)
  then show ?case
    using Suc.IH [of "Suc i"]
    by (auto simp: Let_def Suc_diff_le option.map_comp comp_def plus_Suc_fun split: probe.splits)
qed

lemma scan_find_slot: "scan_spec find_slot slot"
  using find_slot_from_slot [of _ 0 16]
  by (auto simp: scan_spec_def find_slot_def sector_entries_def split: probe.splits)

section \<open>The directory on disk\<close>

text \<open>Where sector \<open>s\<close> of the current directory lies; \<open>None\<close> past its end.\<close>

definition dir_pos :: "u8 list \<Rightarrow> u32 \<Rightarrow> 'd fat_state \<Rightarrow> u32 option run" where
  "dir_pos fb s st =
     (if current_dir_cluster st = 0
      then ret (if s \<ge> root_sectors st then None else Some (root_start st + s))
      else let spc = ucast (sectors_per_cluster (params st)) :: u32
           in if spc = 0 then fail DivideError
              else bind_run (dir_walk fb (ucast (current_dir_cluster st)) (unat (s div spc)))
                (\<lambda>w. ret (map_option (\<lambda>c. cluster_lba st c + s mod spc) w)))"

lemma read_dir_sector_pos:
  "read_dir_sector io s fb st =
     bind_run (dir_pos fb s st)
       (\<lambda>w. case w of
          None \<Rightarrow> ret (1, [], st)
        | Some lba \<Rightarrow> (case rd_sector io lba st of
            (None, st') \<Rightarrow> ret (-1, [], st') | (Some sec, st') \<Rightarrow> ret (0, sec, st')))"
  by (auto simp: read_dir_sector_def dir_pos_def Let_def bind_run_assoc
      intro!: arg_cong [where f = "bind_run _"] split: option.split)

lemma dir_walk_back_checked: "dir_walk fb c n = ret (Some c') \<Longrightarrow> dir_walk_back fb c n = ret c'"
  by (induction fb c n rule: dir_walk.induct) (auto simp: bind_run_eq_ret split: if_splits)

text \<open>A sector is written back where it was read.\<close>

lemma write_dir_sector_pos:
  assumes "dir_pos fb s st = ret (Some lba)"
  shows "write_dir_sector io s dbuf fb st = ret (wr_sector io lba dbuf st)"
  using assms
  by (auto simp: dir_pos_def write_dir_sector_def Let_def bind_run_eq_ret dest: dir_walk_back_checked
      split: if_splits)

lemma dir_pos_dev [simp]:
  "dir_pos fb s (st\<lparr>dev := d\<rparr>) = dir_pos fb s st"
  "dir_pos fb s (st\<lparr>fat_bufs := b\<rparr>) = dir_pos fb s st"
  by (simp_all add: dir_pos_def cluster_lba_def Let_def)

text \<open>The sectors of the current directory, and the entries a disk holds in them.\<close>

definition dir_layout :: "u8 list \<Rightarrow> 'd fat_state \<Rightarrow> u32 list \<Rightarrow> bool" where
  "dir_layout fb st lbas \<longleftrightarrow> length lbas < 2 ^ 32 \<and>
     (\<forall>s < length lbas. dir_pos fb (of_nat s) st = ret (Some (lbas ! s))) \<and>
     dir_pos fb (of_nat (length lbas)) st = ret None"

lemma dir_layout_dev [simp]:
  "dir_layout fb (st\<lparr>dev := d\<rparr>) = dir_layout fb st"
  "dir_layout fb (st\<lparr>fat_bufs := b\<rparr>) = dir_layout fb st"
  by (simp_all add: dir_layout_def fun_eq_iff)

definition root_lbas :: "'d fat_state \<Rightarrow> u32 list" where
  "root_lbas st = map (\<lambda>s. root_start st + of_nat s) [0..<unat (root_sectors st)]"

lemma root_layout:
  assumes "current_dir_cluster st = 0"
  shows "dir_layout fb st (root_lbas st)"
proof -
  have "unat (root_sectors st) < 2 ^ 32"
    using unsigned_less [where ?'a = nat, of "root_sectors st"] by simp
  moreover from this have "\<not> root_sectors st \<le> of_nat s" if "s < unat (root_sectors st)" for s
    using that by (simp add: word_le_nat_alt unat_of_nat)
  ultimately show ?thesis
    using assms by (simp add: dir_layout_def root_lbas_def dir_pos_def)
qed

definition dir_entries :: "(u32 \<Rightarrow> u8 list) \<Rightarrow> u32 list \<Rightarrow> raw_dir_entry list" where
  "dir_entries D lbas = concat (map (\<lambda>a. sector_entries (D a)) lbas)"

lemma dir_entries_Cons [simp]: "dir_entries D (a # lbas) = sector_entries (D a) @ dir_entries D lbas"
  by (simp add: dir_entries_def)

lemma dir_entries_Nil [simp]: "dir_entries D [] = []"
  by (simp add: dir_entries_def)

lemma length_dir_entries [simp]: "length (dir_entries D lbas) = 16 * length lbas"
  by (induction lbas) simp_all

lemma nth_dir_entries:
  "k < 16 * length lbas \<Longrightarrow> dir_entries D lbas ! k = dir_entry (D (lbas ! (k div 16))) (k mod 16)"
proof (induction lbas arbitrary: k)
  case (Cons a lbas)
  show ?case
  proof (cases "k < 16")
    case True
    then show ?thesis by (simp add: nth_append sector_entries_def)
  next
    case False
    then obtain j where "k = j + 16" by (metis add.commute le_Suc_ex not_less)
    moreover have "(j + 16) div 16 = Suc (j div 16)" by simp
    ultimately show ?thesis using Cons by (simp add: nth_append)
  qed
qed simp

lemma dir_entries_update:
  assumes "distinct lbas" "\<forall>a \<in> set lbas. length (D a) = 512" "k < 16 * length lbas" "wf_entry e"
  shows "dir_entries (D(lbas ! (k div 16) := put_entry (D (lbas ! (k div 16))) (k mod 16) e)) lbas =
    (dir_entries D lbas)[k := e]" (is "dir_entries ?D' lbas = _")
proof (rule nth_equalityI)
  fix j assume "j < length (dir_entries ?D' lbas)"
  then have j: "j < 16 * length lbas" by simp
  have "lbas ! (j div 16) = lbas ! (k div 16) \<longleftrightarrow> j div 16 = k div 16"
    using assms(1,3) j by (simp add: nth_eq_iff_index_eq less_mult_imp_div_less mult.commute)
  moreover have "j = k \<longleftrightarrow> j div 16 = k div 16 \<and> j mod 16 = k mod 16"
    by (metis div_mult_mod_eq)
  ultimately show "dir_entries ?D' lbas ! j = (dir_entries D lbas)[k := e] ! j"
    using assms(2-) j
    by (auto simp: nth_dir_entries dir_entry_put nth_list_update less_mult_imp_div_less mult.commute)
qed simp

end
