(* ===== verification/Fat_Io.thy ===== *)
theory Fat_Io
  imports Fat_Dir
begin

unbundle bit_operations_syntax

text \<open>
  The file system's disk traffic on a reliable device: what searching a directory, loading the
  allocation table and flushing it do to the disk, in terms of the disk's content alone.
\<close>

section \<open>The allocation table on disk\<close>

text \<open>The bytes of \<open>n\<close> sectors from sector \<open>a\<close>, and sector \<open>i\<close> of a buffer.\<close>

definition image :: "(u32 \<Rightarrow> u8 list) \<Rightarrow> u32 \<Rightarrow> nat \<Rightarrow> u8 list" where
  "image D a n = concat (map (\<lambda>i. D (a + of_nat i)) [0..<n])"

definition slice :: "u8 list \<Rightarrow> nat \<Rightarrow> u8 list" where
  "slice fb i = take 512 (drop (512 * i) fb)"

lemma length_slice [simp]: "512 * i + 512 \<le> length fb \<Longrightarrow> length (slice fb i) = 512"
  by (simp add: slice_def)

text \<open>The disk after \<^verbatim>\<open>write_fat\<close>: every copy of the table holds the buffer.\<close>

definition flushed :: "(u32 \<Rightarrow> u8 list) \<Rightarrow> nat \<Rightarrow> nat \<Rightarrow> nat \<Rightarrow> u8 list \<Rightarrow> u32 \<Rightarrow> u8 list" where
  "flushed D start copies spf fb b =
     (if start \<le> unat b \<and> unat b < start + copies * spf
      then slice fb ((unat b - start) mod spf) else D b)"

lemma unat_plus_of_nat:
  assumes "unat (a :: u32) + s < 2 ^ 32"
  shows "unat (a + of_nat s) = unat a + s"
  using assms by (simp add: unat_word_ariths unat_of_nat)

lemma below_capacity:
  assumes "unat (a :: u32) + s < unat capacity"
  shows "a + of_nat s < capacity"
  using assms unsigned_less [where ?'a = nat, of capacity]
  by (simp add: word_less_nat_alt unat_plus_of_nat)

lemma splice_next:
  assumes "i + length bs \<le> length fb"
  shows "take i (splice fb i bs) = take i fb"
    and "drop (i + length bs + k) (splice fb i bs) = drop (i + length bs + k) fb"
    and "take (i + length bs) (splice fb i bs) = take i fb @ bs"
  using assms by (simp_all add: splice_def ac_simps)

section \<open>On a reliable device\<close>

context reliable_device begin

lemma rd_sector_good:
  assumes "good (dev st)" "a < capacity"
  obtains d where "rd_sector io a st = (Some (disk (dev st) a), st\<lparr>dev := d\<rparr>)" "good d"
    "disk d = disk (dev st)"
proof -
  obtain d where "bread io (dev st) a = (Some (disk (dev st) a), d)" "good d" "disk d = disk (dev st)"
    by (rule bread_disk [OF assms])
  then show thesis by (intro that [of d]) (simp_all add: rd_sector_def)
qed

lemma wr_sector_good:
  assumes "good (dev st)" "a < capacity" "length bs = 512"
  obtains d where "wr_sector io a bs st = (0, st\<lparr>dev := d\<rparr>)" "good d"
    "disk d = (disk (dev st))(a := bs)"
proof -
  obtain d where "bwrite io (dev st) a bs = (True, d)" "good d" "disk d = (disk (dev st))(a := bs)"
    by (rule bwrite_done [OF assms])
  then show thesis by (intro that [of d]) (simp_all add: wr_sector_def)
qed

lemma dir_search_list:
  assumes "scan_spec scan f" "dir_layout fb st lbas" "\<forall>a \<in> set lbas. a < capacity"
    and "good (dev st)" "n \<le> length lbas" "disk (dev st) = D"
  shows "\<exists>d. good d \<and> disk d = D \<and>
    dir_search io scan fb (of_nat n) st =
      ret (case f (dir_entries (D) (drop n lbas)) of
             None \<Rightarrow> None
           | Some k \<Rightarrow> Some (of_nat (n + k div 16), k mod 16, D (lbas ! (n + k div 16))),
           st\<lparr>dev := d\<rparr>)"
  using assms(2-)
proof (induction "length lbas - n" arbitrary: n st)
  case 0
  then have "n = length lbas" by simp
  with 0 have "dir_pos fb (of_nat n) st = ret None" by (simp add: dir_layout_def)
  then have "dir_search io scan fb (of_nat n) st = ret (None, st\<lparr>dev := dev st\<rparr>)"
    by (simp add: dir_search.simps [of _ _ _ "of_nat n"] read_dir_sector_pos)
  then show ?case
    using 0(4,6) assms(1) \<open>n = length lbas\<close>
    by (intro exI [of _ "dev st"]) (simp add: scan_spec_def)
next
  case (Suc m)
  then have n: "n < length lbas" by simp
  have pos: "dir_pos fb (of_nat n) st = ret (Some (lbas ! n))"
    using Suc.prems(1) n by (simp add: dir_layout_def)
  have cap: "lbas ! n < capacity" using Suc.prems(2) n by simp
  obtain d where d: "rd_sector io (lbas ! n) st = (Some (D (lbas ! n)), st\<lparr>dev := d\<rparr>)"
    "good d" "disk d = D"
    using rd_sector_good [OF Suc.prems(3) cap] unfolding Suc.prems(5) .
  have suc: "of_nat (Suc n) = of_nat n + (1 :: u32)" by simp
  have unf: "dir_search io scan fb (of_nat n) st =
    (case scan (D (lbas ! n)) of
       Hit i \<Rightarrow> ret (Some (of_nat n, i, D (lbas ! n)), st\<lparr>dev := d\<rparr>)
     | Stop \<Rightarrow> ret (None, st\<lparr>dev := d\<rparr>)
     | Next \<Rightarrow> dir_search io scan fb (of_nat (Suc n)) (st\<lparr>dev := d\<rparr>))"
    unfolding suc by (simp add: dir_search.simps [of _ _ _ "of_nat n"] read_dir_sector_pos pos d)
  have drop: "drop n lbas = lbas ! n # drop (Suc n) lbas"
    using n by (simp add: Cons_nth_drop_Suc)
  have step: "f (dir_entries D (drop n lbas)) =
    (case scan (D (lbas ! n)) of Hit i \<Rightarrow> Some i | Stop \<Rightarrow> None
     | Next \<Rightarrow> map_option ((+) 16) (f (dir_entries D (drop (Suc n) lbas))))"
    using assms(1) unfolding drop by (simp add: scan_spec_def)
  show ?case
  proof (cases "scan (D (lbas ! n))")
    case (Hit i)
    moreover have "i < 16" using assms(1) Hit by (auto simp: scan_spec_def)
    ultimately show ?thesis using unf step d by auto
  next
    case Stop
    then show ?thesis using unf step d by auto
  next
    case Next
    have m: "m = length lbas - Suc n" "Suc n \<le> length lbas"
      using Suc.hyps(2) n by simp_all
    obtain d' where "good d'" "disk d' = D" "dir_search io scan fb (of_nat (Suc n)) (st\<lparr>dev := d\<rparr>) =
        ret (case f (dir_entries D (drop (Suc n) lbas)) of None \<Rightarrow> None
           | Some k \<Rightarrow> Some (of_nat (Suc n + k div 16), k mod 16, D (lbas ! (Suc n + k div 16))),
           st\<lparr>dev := d'\<rparr>)"
      using Suc.hyps(1) [of "Suc n" "st\<lparr>dev := d\<rparr>", OF m(1)] Suc.prems d m(2)
      by (simp del: of_nat_Suc of_nat_add) blast
    moreover have "(16 + k) div 16 = Suc (k div 16)" "(16 + k) mod 16 = k mod 16" for k :: nat
      by simp_all
    ultimately show ?thesis
      using unf step Next
      by (intro exI [of _ d']) (simp del: of_nat_Suc of_nat_add split: option.split)
  qed
qed

lemma load_fat_from_image:
  assumes "good (dev st)" "disk (dev st) = D" "length fb = 18 * 512" "s + n \<le> 18"
    and "unat (fat_start st) + s + n \<le> unat capacity"
  shows "\<exists>d. good d \<and> disk d = D \<and> load_fat_from io (of_nat s) n fb st =
    ret (0, take (512 * s) fb @ concat (map (\<lambda>i. D (fat_start st + of_nat i)) [s..<s + n]) @
            drop (512 * (s + n)) fb, st\<lparr>dev := d\<rparr>)"
  using assms
proof (induction n arbitrary: s fb st)
  case 0
  then show ?case by (intro exI [of _ "dev st"]) simp
next
  case (Suc n)
  let ?a = "fat_start st + of_nat s"
  have cap: "?a < capacity" using Suc.prems(5) by (intro below_capacity) simp
  obtain d where d: "rd_sector io ?a st = (Some (D ?a), st\<lparr>dev := d\<rparr>)" "good d" "disk d = D"
    using rd_sector_good [OF Suc.prems(1) cap] unfolding Suc.prems(2) .
  have len: "length (D ?a) = 512"
    using sector_size [OF Suc.prems(1) cap] Suc.prems(2) by simp
  let ?fb = "splice fb (512 * s) (D ?a)"
  have fit: "512 * s + length (D ?a) \<le> length fb" using Suc.prems(3,4) len by simp
  have off: "unat (of_nat s * 512 :: u32) = 512 * s"
    using Suc.prems(4) by (simp add: unat_word_ariths unat_of_nat)
  have suc: "of_nat s + 1 = (of_nat (Suc s) :: u32)" by simp
  have step: "load_fat_from io (of_nat s) (Suc n) fb st =
    load_fat_from io (of_nat (Suc s)) n ?fb (st\<lparr>dev := d\<rparr>)"
    using Suc.prems(3,4) len unfolding load_fat_from.simps suc by (simp add: d(1) off del: of_nat_Suc)
  obtain d' where IH: "good d'" "disk d' = D"
    "load_fat_from io (of_nat (Suc s)) n ?fb (st\<lparr>dev := d\<rparr>) =
     ret (0, take (512 * Suc s) ?fb @ concat (map (\<lambda>i. D (fat_start st + of_nat i)) [Suc s..<Suc s + n]) @
            drop (512 * (Suc s + n)) ?fb, st\<lparr>dev := d'\<rparr>)"
    using Suc.IH [of "st\<lparr>dev := d\<rparr>" ?fb "Suc s"] Suc.prems(3-) d(2,3) fit
    by (simp del: of_nat_Suc) blast
  have "[s..<s + Suc n] = s # [Suc s..<Suc s + n]" by (simp add: upt_rec)
  moreover have "take (512 * Suc s) ?fb = take (512 * s) fb @ D ?a"
    using splice_next(3) [OF fit] len by (simp add: algebra_simps)
  moreover have "drop (512 * (Suc s + n)) ?fb = drop (512 * (s + Suc n)) fb"
    using splice_next(2) [OF fit, of "512 * n"] len by (simp add: algebra_simps)
  ultimately show ?case
    unfolding step using IH by (intro exI [of _ d']) simp
qed

lemma load_fat_ok:
  assumes "good (dev st)" "length fb = 18 * 512" "unat n \<le> 18"
    and "unat (fat_start st) + unat n \<le> unat capacity"
  shows "\<exists>d. good d \<and> disk d = disk (dev st) \<and> load_fat io fb n st =
    ret (0, image (disk (dev st)) (fat_start st) (unat n) @ drop (512 * unat n) fb, st\<lparr>dev := d\<rparr>)"
  using load_fat_from_image [OF assms(1) refl assms(2), of 0 "unat n"] assms(3,4)
  by (simp add: load_fat_def image_def)

lemma write_fat_from_flush:
  assumes "good (dev st)" "disk (dev st) = D" "length fb = 18 * 512" "s + n \<le> 18"
    and "unat start + s + n \<le> unat capacity"
  shows "\<exists>d. good d \<and>
    disk d = (\<lambda>b. if unat start + s \<le> unat b \<and> unat b < unat start + s + n
                  then slice fb (unat b - unat start) else D b) \<and>
    write_fat_from io start (of_nat s) n fb st = ret (0, st\<lparr>dev := d\<rparr>)"
  using assms
proof (induction n arbitrary: s st D)
  case 0
  then show ?case by (intro exI [of _ "dev st"]) (auto simp: fun_eq_iff)
next
  case (Suc n)
  let ?a = "start + of_nat s"
  have cap: "?a < capacity" using Suc.prems(5) by (intro below_capacity) simp
  have ua: "unat ?a = unat start + s"
    using Suc.prems(5) unsigned_less [where ?'a = nat, of capacity] by (simp add: unat_plus_of_nat)
  have len: "length (slice fb s) = 512" using Suc.prems(3,4) by simp
  obtain d where d: "wr_sector io ?a (slice fb s) st = (0, st\<lparr>dev := d\<rparr>)" "good d"
    "disk d = D(?a := slice fb s)"
    using wr_sector_good [OF Suc.prems(1) cap len] unfolding Suc.prems(2) .
  have off: "unat (of_nat s * 512 :: u32) = 512 * s"
    using Suc.prems(4) by (simp add: unat_word_ariths unat_of_nat)
  have suc: "of_nat s + 1 = (of_nat (Suc s) :: u32)" by simp
  have step: "write_fat_from io start (of_nat s) (Suc n) fb st =
    write_fat_from io start (of_nat (Suc s)) n fb (st\<lparr>dev := d\<rparr>)"
    using Suc.prems(3,4) unfolding write_fat_from.simps suc slice_def [symmetric] off
    by (simp add: d(1) slice_def [symmetric] del: of_nat_Suc)
  obtain d' where IH: "good d'"
    "disk d' = (\<lambda>b. if unat start + Suc s \<le> unat b \<and> unat b < unat start + Suc s + n
                  then slice fb (unat b - unat start) else (D(?a := slice fb s)) b)"
    "write_fat_from io start (of_nat (Suc s)) n fb (st\<lparr>dev := d\<rparr>) = ret (0, st\<lparr>dev := d'\<rparr>)"
    using Suc.IH [of "st\<lparr>dev := d\<rparr>" "D(?a := slice fb s)" "Suc s"] Suc.prems(3-) d(2,3)
    by (simp del: of_nat_Suc) blast
  have "disk d' = (\<lambda>b. if unat start + s \<le> unat b \<and> unat b < unat start + s + Suc n
                  then slice fb (unat b - unat start) else D b)"
  proof
    fix b
    have "b = ?a \<longleftrightarrow> unat b = unat start + s" by (metis ua word_unat_eq_iff)
    then show "disk d' b = (if unat start + s \<le> unat b \<and> unat b < unat start + s + Suc n
                  then slice fb (unat b - unat start) else D b)"
      unfolding IH(2) by (cases "b = ?a") auto
  qed
  then show ?case
    unfolding step using IH by (intro exI [of _ d']) simp
qed

lemma write_fat_copies_flush:
  assumes "good (dev st)" "disk (dev st) = D" "length fb = 18 * 512"
    and spf: "unat (sectors_per_fat (params st)) = spf" "0 < spf" "spf \<le> 18" "f + n < 256"
    and "unat (fat_start st) + (f + n) * spf \<le> unat capacity"
  shows "\<exists>d. good d \<and>
    disk d = (\<lambda>b. if unat (fat_start st) + f * spf \<le> unat b \<and> unat b < unat (fat_start st) + (f + n) * spf
                  then slice fb ((unat b - unat (fat_start st)) mod spf) else D b) \<and>
    write_fat_copies io fb (of_nat spf) (of_nat f) n st = ret (0, st\<lparr>dev := d\<rparr>)"
  using assms
proof (induction n arbitrary: f st D)
  case 0
  then show ?case by (intro exI [of _ "dev st"]) (auto simp: fun_eq_iff)
next
  case (Suc n)
  let ?fs = "unat (fat_start st)"
  let ?start = "fat_start st + ucast (of_nat f :: u8) * ucast (sectors_per_fat (params st))"
  have capb: "unat capacity < 2 ^ 32"
    using unsigned_less [where ?'a = nat, of capacity] by simp
  have uf: "unat (ucast (of_nat f :: u8) :: u32) = f"
    using Suc.prems(7) by (simp add: unsigned_ucast_eq unat_of_nat take_bit_eq_mod)
  have us: "unat (ucast (sectors_per_fat (params st)) :: u32) = spf"
    using Suc.prems(4,6) by (simp add: unsigned_ucast_eq take_bit_eq_mod)
  have "f * spf \<le> (f + Suc n) * spf" by (rule mult_le_mono1) simp
  then have ustart: "unat ?start = ?fs + f * spf"
    using Suc.prems(8) capb by (simp add: unat_word_ariths uf us)
  have uspf: "unat (of_nat spf :: u32) = spf"
    using Suc.prems(6) by (simp add: unat_of_nat)
  obtain d where d: "good d"
    "disk d = (\<lambda>b. if unat ?start \<le> unat b \<and> unat b < unat ?start + spf
                  then slice fb (unat b - unat ?start) else D b)"
    "write_fat_from io ?start 0 spf fb st = ret (0, st\<lparr>dev := d\<rparr>)"
    using write_fat_from_flush [OF Suc.prems(1,2,3), of 0 spf ?start] Suc.prems(6,8)
    by (auto simp: ustart algebra_simps)
  have suc: "of_nat f + 1 = (of_nat (Suc f) :: u8)" by simp
  have step: "write_fat_copies io fb (of_nat spf) (of_nat f) (Suc n) st =
    write_fat_copies io fb (of_nat spf) (of_nat (Suc f)) n (st\<lparr>dev := d\<rparr>)"
    unfolding write_fat_copies.simps suc uspf Let_def d(3) by (simp del: of_nat_Suc)
  let ?st = "st\<lparr>dev := d\<rparr>"
  have prem: "good (dev ?st)" "length fb = 18 * 512" "unat (sectors_per_fat (params ?st)) = spf"
    "0 < spf" "spf \<le> 18" "Suc f + n < 256"
    "unat (fat_start ?st) + (Suc f + n) * spf \<le> unat capacity"
    using Suc.prems d(1) by simp_all
  obtain d' where IH': "good d'"
    "disk d' = (\<lambda>b. if unat (fat_start ?st) + Suc f * spf \<le> unat b \<and>
                     unat b < unat (fat_start ?st) + (Suc f + n) * spf
                  then slice fb ((unat b - unat (fat_start ?st)) mod spf) else disk (dev ?st) b)"
    "write_fat_copies io fb (of_nat spf) (of_nat (Suc f)) n ?st = ret (0, ?st\<lparr>dev := d'\<rparr>)"
    using Suc.IH [OF prem(1) refl prem(2-)] by blast
  then have IH: "good d'"
    "disk d' = (\<lambda>b. if ?fs + Suc f * spf \<le> unat b \<and> unat b < ?fs + (Suc f + n) * spf
                  then slice fb ((unat b - ?fs) mod spf) else disk d b)"
    "write_fat_copies io fb (of_nat spf) (of_nat (Suc f)) n ?st = ret (0, st\<lparr>dev := d'\<rparr>)"
    by (simp_all cong: if_cong)
  have "disk d' = (\<lambda>b. if ?fs + f * spf \<le> unat b \<and> unat b < ?fs + (f + Suc n) * spf
                  then slice fb ((unat b - ?fs) mod spf) else D b)"
  proof
    fix b :: u32
    have "(unat b - ?fs) mod spf = unat b - unat ?start"
      if "unat ?start \<le> unat b" "unat b < unat ?start + spf"
    proof -
      have "unat b - ?fs = f * spf + (unat b - unat ?start)" "unat b - unat ?start < spf"
        using that unfolding ustart by simp_all
      then show ?thesis by simp
    qed
    then show "disk d' b = (if ?fs + f * spf \<le> unat b \<and> unat b < ?fs + (f + Suc n) * spf
                  then slice fb ((unat b - ?fs) mod spf) else D b)"
      unfolding IH(2) d(2) ustart by (auto simp: algebra_simps)
  qed
  then show ?case
    unfolding step using IH by (intro exI [of _ d']) simp
qed

lemma write_fat_ok:
  assumes "good (dev st)" "length fb = 18 * 512"
    and spf: "unat (sectors_per_fat (params st)) = spf" "0 < spf" "spf \<le> 18"
    and copies: "unat (fat_count (params st)) = copies"
    and "unat (fat_start st) + copies * spf \<le> unat capacity"
  shows "\<exists>d. good d \<and> disk d = flushed (disk (dev st)) (unat (fat_start st)) copies spf fb \<and>
    write_fat io fb (of_nat spf) st = ret (0, st\<lparr>dev := d\<rparr>)"
proof -
  have "copies < 256"
    using unsigned_less [where ?'a = nat, of "fat_count (params st)"] copies by simp
  then show ?thesis
    using write_fat_copies_flush [OF assms(1) refl assms(2) spf, of 0 copies] assms(7)
    by (simp add: write_fat_def copies flushed_def [abs_def])
qed

end

end
