(* ===== verification/Fat_File.thy ===== *)
theory Fat_File
  imports Fat_Io
begin

unbundle bit_operations_syntax

text \<open>
  Files as byte strings. A file on disk is a chain of clusters whose sectors hold its bytes;
  the read loop of \<^verbatim>\<open>fat_read\<close> returns those bytes, and the write loop of
  \<^verbatim>\<open>fat_write\<close> makes a chain of free clusters that holds them.
\<close>

section \<open>A file on disk\<close>

fun chain :: "u8 list \<Rightarrow> u16 \<Rightarrow> u16 list \<Rightarrow> bool" where
  "chain fb c [] \<longleftrightarrow> \<not> data_cluster c"
| "chain fb c (x # xs) \<longleftrightarrow> x = c \<and> data_cluster c \<and> chain fb (fat_entry fb c) xs"

text \<open>\<open>n\<close> sectors from \<open>a\<close> begin with \<open>rest\<close>, 512 bytes in each, as far as they go.\<close>

fun sectors_hold :: "(u32 \<Rightarrow> u8 list) \<Rightarrow> u32 \<Rightarrow> nat \<Rightarrow> u8 list \<Rightarrow> bool" where
  "sectors_hold D a 0 rest \<longleftrightarrow> True"
| "sectors_hold D a (Suc n) rest \<longleftrightarrow> rest = [] \<or>
     take (length (take 512 rest)) (D a) = take 512 rest \<and> sectors_hold D (a + 1) n (drop 512 rest)"

definition spc_of :: "'d fat_state \<Rightarrow> nat" where
  "spc_of st = unat (sectors_per_cluster (params st))"

fun file_data :: "(u32 \<Rightarrow> u8 list) \<Rightarrow> 'd fat_state \<Rightarrow> u16 list \<Rightarrow> u8 list \<Rightarrow> bool" where
  "file_data D st [] data \<longleftrightarrow> data = []"
| "file_data D st (c # cs) data \<longleftrightarrow> data \<noteq> [] \<and> sectors_hold D (cluster_lba st c) (spc_of st) data \<and>
     file_data D st cs (drop (512 * spc_of st) data)"

lemma splice_splice:
  assumes "i + length xs + length ys \<le> length b"
  shows "splice (splice b i xs) (i + length xs) ys = splice b i (xs @ ys)"
  using assms by (simp add: splice_def ac_simps)

lemma min_shift: "b < m \<Longrightarrow> b + min a (m - b) = min (b + a) (m :: nat)"
  by auto

lemma dev_dev: "(st\<lparr>dev := d\<rparr>)\<lparr>dev := d'\<rparr> = st\<lparr>dev := d'\<rparr>"
  by simp

lemma cluster_lba_dev [simp]: "cluster_lba (st\<lparr>dev := d\<rparr>) = cluster_lba st"
  by (simp add: cluster_lba_def fun_eq_iff)

lemma spc_of_dev [simp]: "spc_of (st\<lparr>dev := d\<rparr>) = spc_of st"
  by (simp add: spc_of_def)

lemma file_data_dev [simp]: "file_data D (st\<lparr>dev := d\<rparr>) cs data = file_data D st cs data"
  by (induction cs arbitrary: data) simp_all

lemma sint_of_unat: "unat (w :: u32) < 2 ^ 31 \<Longrightarrow> sint w = int (unat w)"
proof -
  assume a: "unat w < 2 ^ 31"
  then have "unat w < 2147483648" by simp
  then have "int (unat w) < 2147483648" by linarith
  then have "uint w < 2147483648" by simp
  moreover have "- 2147483648 \<le> uint w" using uint_ge_0 [of w] by linarith
  ultimately show ?thesis
    using signed_take_bit_int_eq_self [of 31 "uint w"] by (simp add: sint_uint)
qed

section \<open>Reading\<close>

lemma copy_len_min:
  assumes "unat br \<le> unat fs" "unat br \<le> unat bs" "unat fs < 2 ^ 31"
  shows "unat (copy_len br fs bs) = min 512 (min (unat fs - unat br) (unat bs - unat br))"
proof -
  have b: "unat (br + 512) = unat br + 512"
    using assms by (simp add: unat_word_ariths)
  have f: "unat (fs - br) = unat fs - unat br" and g: "unat (bs - br) = unat bs - unat br"
    using assms by (simp_all add: unat_sub word_le_nat_alt)
  define c1 where "c1 = (if br + 512 > fs then fs - br else 512)"
  have c1: "unat c1 = min 512 (unat fs - unat br)"
    using b f by (auto simp: c1_def word_less_nat_alt min_def)
  have sum: "unat (br + c1) = unat br + unat c1"
    using assms c1 by (simp add: unat_word_ariths)
  have "copy_len br fs bs = (if unat (br + c1) > unat bs then bs - br else c1)"
    unfolding copy_len_def Let_def c1_def [symmetric] by (simp add: word_less_nat_alt)
  then show ?thesis
    using c1 g unfolding sum by (auto simp: min_def)
qed

context reliable_device
begin

lemma read_sectors_ok:
  assumes "good (dev st)" "disk (dev st) = D" "sectors_hold D lba n rest" "rest \<noteq> []"
    and "unat br + length rest = unat fs" "unat fs < 2 ^ 31" "unat br \<le> unat bs"
    and "unat bs \<le> length buf" "unat lba + n \<le> unat capacity"
  defines "m \<equiv> min (length rest) (unat bs - unat br)"
  shows "\<exists>d. good d \<and> disk d = D \<and> read_sectors io fs bs lba n br buf st =
    ret (Inr (br + of_nat (min (512 * n) m), n > 0 \<and> m \<le> 512 * n),
         splice buf (unat br) (take (min (512 * n) m) rest), st\<lparr>dev := d\<rparr>)"
  using assms(1-9) unfolding m_def
proof (induction n arbitrary: lba rest br buf st)
  case 0
  then show ?case by (intro exI [of _ "dev st"]) simp
next
  case (Suc n)
  let ?m = "min (length rest) (unat bs - unat br)"
  let ?k = "min 512 ?m"
  have cap: "lba < capacity" using Suc.prems(9) by (simp add: word_less_nat_alt)
  obtain d where d: "rd_sector io lba st = (Some (D lba), st\<lparr>dev := d\<rparr>)" "good d" "disk d = D"
    using rd_sector_good [OF Suc.prems(1) cap] unfolding Suc.prems(2) .
  have len: "length (D lba) = 512"
    using sector_size [OF Suc.prems(1) cap] Suc.prems(2) by simp
  have "unat fs - unat br = length rest" using Suc.prems(5) by simp
  then have k: "unat (copy_len br fs bs) = ?k"
    using copy_len_min [of br fs bs] Suc.prems(5-7) by simp
  have ubr: "unat (br + copy_len br fs bs) = unat br + ?k"
    using k Suc.prems(5,6) by (simp add: unat_word_ariths)
  have brk: "br + copy_len br fs bs = br + of_nat ?k"
    by (simp add: k [symmetric])
  have sec: "take ?k (D lba) = take ?k rest"
  proof -
    have "take (length (take 512 rest)) (D lba) = take 512 rest"
      using Suc.prems(3,4) by simp
    then have "take ?k (take (length (take 512 rest)) (D lba)) = take ?k (take 512 rest)" by simp
    then show ?thesis by (simp add: min_def split: if_splits)
  qed
  let ?buf = "splice buf (unat br) (take ?k rest)"
  have fit: "unat br + ?k \<le> length buf" using Suc.prems(7,8) by simp
  have fin: "(br + copy_len br fs bs \<ge> fs \<or> br + copy_len br fs bs \<ge> bs) \<longleftrightarrow> ?m \<le> 512"
    unfolding word_le_nat_alt ubr using Suc.prems(5,7) by auto
  have unf: "read_sectors io fs bs lba (Suc n) br buf st =
    (if ?m \<le> 512 then ret (Inr (br + of_nat ?k, True), ?buf, st\<lparr>dev := d\<rparr>)
     else read_sectors io fs bs (lba + 1) n (br + of_nat ?k) ?buf (st\<lparr>dev := d\<rparr>))"
    using d(1) fit fin by (simp add: Let_def k sec brk del: of_nat_min)
  show ?case
  proof (cases "?m \<le> 512")
    case True
    moreover have "min (512 * Suc n) ?m = ?k" using True by simp
    ultimately show ?thesis using unf d by (intro exI [of _ d]) simp
  next
    case False
    then have k512: "?k = 512" by simp
    let ?rest = "drop 512 rest" and ?br = "br + of_nat ?k" and ?st = "st\<lparr>dev := d\<rparr>"
    have ubr': "unat ?br = unat br + 512" using ubr brk k512 by simp
    have lba': "unat (lba + 1) = unat lba + 1"
      using Suc.prems(9) unsigned_less [where ?'a = nat, of capacity] by (simp add: unat_word_ariths)
    have prems: "good (dev ?st)" "disk (dev ?st) = D" "sectors_hold D (lba + 1) n ?rest" "?rest \<noteq> []"
      "unat ?br + length ?rest = unat fs" "unat fs < 2 ^ 31" "unat ?br \<le> unat bs"
      "unat bs \<le> length ?buf" "unat (lba + 1) + n \<le> unat capacity"
      using Suc.prems d False fit lba' unfolding ubr' by auto
    have m': "min (length ?rest) (unat bs - (unat br + 512)) = ?m - 512"
      by simp
    obtain d' where IH: "good d'" "disk d' = D"
      "read_sectors io fs bs (lba + 1) n ?br ?buf ?st =
        ret (Inr (?br + of_nat (min (512 * n) (?m - 512)), n > 0 \<and> ?m - 512 \<le> 512 * n),
          splice ?buf (unat br + 512) (take (min (512 * n) (?m - 512)) ?rest), ?st\<lparr>dev := d'\<rparr>)"
      using Suc.IH [OF prems] unfolding ubr' m' by (elim exE conjE) (rule that)
    have sum: "512 + min (512 * n) (?m - 512) = min (512 * Suc n) ?m"
      using min_shift [of 512 ?m "512 * n"] False unfolding mult_Suc_right by (simp only: not_le)
    have buf: "splice ?buf (unat br + 512) (take (min (512 * n) (?m - 512)) ?rest) =
      splice buf (unat br) (take (min (512 * Suc n) ?m) rest)"
    proof -
      have l512: "length (take 512 rest) = 512" using False by simp
      have "unat br + ?m \<le> length buf" using Suc.prems(7,8) by simp
      then have fit1: "unat br + length (take 512 rest) + length (take (min (512 * n) (?m - 512)) ?rest) \<le> length buf"
        unfolding l512 using False by simp
      have tk: "take 512 rest @ take (min (512 * n) (?m - 512)) (drop 512 rest) = take (min (512 * Suc n) ?m) rest"
        unfolding sum [symmetric] take_add ..
      show ?thesis using splice_splice [OF fit1] unfolding l512 tk k512 .
    qed
    have pos: "?br + of_nat (min (512 * n) (?m - 512)) = br + of_nat (min (512 * Suc n) ?m)"
      unfolding sum [symmetric] k512 of_nat_add by (simp del: of_nat_min)
    have fl: "(n > 0 \<and> ?m - 512 \<le> 512 * n) = (Suc n > 0 \<and> ?m \<le> 512 * Suc n)"
      using False by auto
    have "read_sectors io fs bs lba (Suc n) br buf st =
      ret (Inr (br + of_nat (min (512 * Suc n) ?m), Suc n > 0 \<and> ?m \<le> 512 * Suc n),
        splice buf (unat br) (take (min (512 * Suc n) ?m) rest), st\<lparr>dev := d'\<rparr>)"
      unfolding unf by (simp only: False if_False IH(3) buf pos fl dev_dev)
    then show ?thesis using IH(1,2) by blast
  qed
qed

lemma read_clusters_ok:
  assumes "good (dev st)" "disk (dev st) = D" "chain fb c cs" "file_data D st cs rest" "rest \<noteq> []"
    and "unat br + length rest = unat fs" "unat fs < 2 ^ 31" "unat br \<le> unat bs"
    and "unat bs \<le> length buf" "\<forall>x \<in> set cs. unat (cluster_lba st x) + spc_of st \<le> unat capacity"
    and "holds_fat fb" "0 < spc_of st"
  shows "\<exists>d. good d \<and> disk d = D \<and> read_clusters io fb fs bs c br buf st =
    ret (int (unat br + min (length rest) (unat bs - unat br)),
         splice buf (unat br) (take (min (length rest) (unat bs - unat br)) rest), st\<lparr>dev := d\<rparr>)"
  using assms
proof (induction cs arbitrary: c rest br buf st)
  case Nil
  then show ?case by simp
next
  case (Cons x cs)
  let ?m = "min (length rest) (unat bs - unat br)" and ?n = "spc_of st"
  let ?k = "min (512 * ?n) ?m"
  have c: "data_cluster c" "x = c" "chain fb (fat_entry fb c) cs" and inf: "in_fat fb c"
    using Cons.prems(3,11) by (auto simp: holds_fat_def)
  have hold: "sectors_hold D (cluster_lba st c) ?n rest" and cap: "unat (cluster_lba st c) + ?n \<le> unat capacity"
    using Cons.prems(4,10) c by auto
  obtain d where d: "good d" "disk d = D"
    "read_sectors io fs bs (cluster_lba st c) ?n br buf st =
       ret (Inr (br + of_nat ?k, ?n > 0 \<and> ?m \<le> 512 * ?n), splice buf (unat br) (take ?k rest), st\<lparr>dev := d\<rparr>)"
    using read_sectors_ok [OF Cons.prems(1,2) hold Cons.prems(5-9) cap] by (elim exE conjE) (rule that)
  have ubr: "unat (br + of_nat ?k) = unat br + ?k"
    using Cons.prems(6,7) by (intro unat_plus_of_nat) simp
  let ?buf = "splice buf (unat br) (take ?k rest)" and ?st = "st\<lparr>dev := d\<rparr>" and ?br = "br + of_nat ?k"
  have unf: "read_clusters io fb fs bs c br buf st =
    (if ?m \<le> 512 * ?n then ret (sint ?br, ?buf, ?st)
     else if fat_entry fb c < 2 then ret (sint ?br, ?buf, ?st)
     else read_clusters io fb fs bs (fat_entry fb c) ?br ?buf ?st)"
    using c(1) inf d(3) Cons.prems(12) unfolding spc_of_def
    by (simp add: read_clusters.simps [of io fb fs bs c] next_cluster_entry del: of_nat_min)
  show ?case
  proof (cases "?m \<le> 512 * ?n")
    case True
    then have k: "?k = ?m" by (rule min_absorb2)
    have "sint ?br = int (unat br + ?m)"
      using sint_of_unat [of ?br] ubr Cons.prems(6,7) unfolding k by (simp del: of_nat_min)
    then show ?thesis
      using unf True d(1,2) unfolding k by auto
  next
    case False
    then have k: "?k = 512 * ?n" and ne: "drop (512 * ?n) rest \<noteq> []" by auto
    have ub: "unat ?br = unat br + 512 * ?n" using ubr unfolding k .
    have m': "min (length (drop (512 * ?n) rest)) (unat bs - (unat br + 512 * ?n)) = ?m - 512 * ?n"
      by simp
    have fd: "file_data D ?st cs (drop (512 * ?n) rest)" using Cons.prems(4) by simp
    then have "cs \<noteq> []" using ne by (cases cs) auto
    then have "data_cluster (fat_entry fb c)" using c(3) by (cases cs) auto
    then have nx: "\<not> fat_entry fb c < 2" by (simp add: data_cluster_def not_less)
    have fit: "unat br + 512 * ?n \<le> length buf" using False Cons.prems(8,9) by simp
    have prems: "good (dev ?st)" "disk (dev ?st) = D" "unat ?br + length (drop (512 * ?n) rest) = unat fs"
      "unat ?br \<le> unat bs" "unat bs \<le> length ?buf"
      "\<forall>x \<in> set cs. unat (cluster_lba ?st x) + spc_of ?st \<le> unat capacity" "0 < spc_of ?st"
      using Cons.prems d(1,2) False fit unfolding ub unfolding k by auto
    obtain d' where IH: "good d'" "disk d' = D"
      "read_clusters io fb fs bs (fat_entry fb c) ?br ?buf ?st =
        ret (int (unat br + 512 * ?n + (?m - 512 * ?n)),
          splice ?buf (unat br + 512 * ?n) (take (?m - 512 * ?n) (drop (512 * ?n) rest)), ?st\<lparr>dev := d'\<rparr>)"
      using Cons.IH [OF prems(1,2) c(3) fd ne prems(3) Cons.prems(7) prems(4-6) Cons.prems(11) prems(7)]
      unfolding ub m' by (elim exE conjE) (rule that)
    have sum: "unat br + 512 * ?n + (?m - 512 * ?n) = unat br + ?m" using False by simp
    have tk: "take (512 * ?n) rest @ take (?m - 512 * ?n) (drop (512 * ?n) rest) = take ?m rest"
      unfolding take_add [symmetric] using False by (simp only: not_le le_add_diff_inverse less_imp_le)
    have buf: "splice ?buf (unat br + 512 * ?n) (take (?m - 512 * ?n) (drop (512 * ?n) rest)) =
        splice buf (unat br) (take ?m rest)"
      using splice_splice [of "unat br" "take (512 * ?n) rest" "take (?m - 512 * ?n) (drop (512 * ?n) rest)" buf]
        False fit Cons.prems(8,9) unfolding k tk [symmetric] by simp
    have "read_clusters io fb fs bs c br buf st =
      ret (int (unat br + ?m), splice buf (unat br) (take ?m rest), st\<lparr>dev := d'\<rparr>)"
      unfolding unf by (simp only: False nx if_False IH(3) sum buf dev_dev)
    then show ?thesis using IH(1,2) by blast
  qed
qed

end

section \<open>Writing\<close>

lemma sectors_hold_cong:
  assumes "sectors_hold D a n rest" "unat a + n \<le> 2 ^ 32 - 1"
    and "\<And>b. unat a \<le> unat b \<Longrightarrow> unat b < unat a + n \<Longrightarrow> D' b = D b"
  shows "sectors_hold D' a n rest"
  using assms
proof (induction n arbitrary: a rest)
  case (Suc n)
  have "unat (a + 1) = unat a + 1" using Suc.prems(2) by (simp add: unat_word_ariths)
  then show ?case using Suc by auto
qed simp

text \<open>The clusters the search may hand out.\<close>

definition free_set :: "u8 list \<Rightarrow> nat \<Rightarrow> u16 set" where
  "free_set fb lim = {x. 2 \<le> unat x \<and> unat x < lim \<and> fat_entry fb x = 0}"

lemma find_free_set:
  assumes "length fb = 18 * 512" "unat tc \<le> 6142" "lim \<le> unat tc + 2" "free_set fb lim \<noteq> {}"
  obtains c where "fat_find_free_cluster fb tc = ret c" "c \<in> free_set fb lim" "c \<noteq> 0"
proof -
  from find_free_result [OF assms(1,2)] obtain c where c: "fat_find_free_cluster fb tc = ret c"
    "if c = 0 then \<forall>x. 2 \<le> unat x \<and> unat x < unat tc + 2 \<longrightarrow> fat_entry fb x \<noteq> 0
     else 2 \<le> unat c \<and> unat c < unat tc + 2 \<and> fat_entry fb c = 0 \<and>
       (\<forall>x. 2 \<le> unat x \<and> unat x < unat c \<longrightarrow> fat_entry fb x \<noteq> 0)" by blast
  obtain x where x: "2 \<le> unat x" "unat x < lim" "fat_entry fb x = 0"
    using assms(4) by (auto simp: free_set_def)
  have "c \<noteq> 0" using c(2) x assms(3) by (auto split: if_splits)
  moreover from this have "unat c \<le> unat x" using c(2) x by (auto simp: not_less [symmetric])
  ultimately show thesis using c x(2) by (intro that) (auto simp: free_set_def)
qed

text \<open>
  \<open>fb'\<close> is \<open>fb\<close> with the free clusters \<open>cs\<close> chained up, behind \<open>prev\<close> if that is not 0;
  all other entries are the same.
\<close>

definition allocated :: "nat \<Rightarrow> u16 \<Rightarrow> u16 list \<Rightarrow> u8 list \<Rightarrow> u8 list \<Rightarrow> bool" where
  "allocated lim prev cs fb fb' \<longleftrightarrow>
     length fb' = length fb \<and> set cs \<subseteq> free_set fb lim \<and> distinct cs \<and> (cs = [] \<longrightarrow> fb' = fb) \<and>
     (cs \<noteq> [] \<longrightarrow> chain fb' (hd cs) cs \<and> (prev \<noteq> 0 \<longrightarrow> fat_entry fb' prev = hd cs)) \<and>
     (\<forall>x \<in> set cs. fat_entry fb' x \<noteq> 0) \<and>
     (\<forall>x. in_fat fb x \<and> x \<notin> set cs \<and> (prev = 0 \<or> x \<noteq> prev) \<longrightarrow> fat_entry fb' x = fat_entry fb x)"

lemma in_fat_9216: "length fb = 18 * 512 \<Longrightarrow> unat x < 4080 \<Longrightarrow> in_fat fb x"
  by (simp add: in_fat_def fat_offset_def)

lemma in_fat_length: "length fb' = length fb \<Longrightarrow> in_fat fb' x = in_fat fb x"
  by (simp add: in_fat_def)

lemma and_0FFF_cluster: "unat (c :: u16) < 4096 \<Longrightarrow> c AND 0x0FFF = c"
proof -
  assume "unat c < 4096"
  then have "unat (take_bit 12 c) = unat c"
    by (simp add: take_bit_eq_mod unat_mod_distrib)
  then have "take_bit 12 c = c" by (simp add: word_unat_eq_iff)
  moreover have "(0x0FFF :: u16) = mask 12" by (simp add: mask_eq_exp_minus_1)
  ultimately show ?thesis by (simp only: take_bit_eq_mask)
qed

lemma data_clusterI: "2 \<le> unat c \<Longrightarrow> unat c < 4080 \<Longrightarrow> data_cluster c"
  by (simp add: data_cluster_def word_le_nat_alt)

definition link :: "u8 list \<Rightarrow> u16 \<Rightarrow> u16 \<Rightarrow> u8 list" where
  "link fb prev c = fat_store (if prev \<noteq> 0 then fat_store fb prev c else fb) c 0xFFF"

lemma fat_entry_link:
  assumes "in_fat fb c" "prev \<noteq> 0 \<longrightarrow> in_fat fb prev" "in_fat fb x" "unat c < 4096"
  shows "fat_entry (link fb prev c) x =
    (if x = c then 0xFFF else if prev \<noteq> 0 \<and> x = prev then c else fat_entry fb x)"
  using assms by (auto simp: link_def fat_entry_store and_0FFF_cluster)

lemma length_link [simp]: "length (link fb prev c) = length fb"
  by (simp add: link_def)

lemma free_set_link:
  assumes "length fb = 18 * 512" "lim \<le> 4080" "c \<in> free_set fb lim"
    and "prev \<noteq> 0 \<longrightarrow> data_cluster prev \<and> fat_entry fb prev \<noteq> 0"
  shows "free_set (link fb prev c) lim = free_set fb lim - {c}"
proof -
  have c: "in_fat fb c" "unat c < 4096" "c \<noteq> 0"
    using assms(1-3) by (auto simp: free_set_def intro!: in_fat_9216)
  have p: "prev \<noteq> 0 \<longrightarrow> in_fat fb prev"
    using assms(1,4) holds_fat_9216 by (auto simp: holds_fat_def)
  have "fat_entry (link fb prev c) x = (if x = c then 0xFFF else if prev \<noteq> 0 \<and> x = prev then c else fat_entry fb x)"
    if "unat x < lim" for x
    using that assms(1,2) by (intro fat_entry_link [OF c(1) p _ c(2)] in_fat_9216) auto
  then show ?thesis using assms(4) c(3) by (auto simp: free_set_def split: if_splits)
qed

lemma allocated_step:
  assumes "length fb = 18 * 512" "lim \<le> 4080" "c \<in> free_set fb lim"
    and prev: "prev \<noteq> 0 \<longrightarrow> data_cluster prev \<and> fat_entry fb prev \<noteq> 0"
    and step: "allocated lim c cs (link fb prev c) fb'"
  shows "allocated lim prev (c # cs) fb fb'"
proof -
  have c: "in_fat fb c" "unat c < 4096" "c \<noteq> 0" "data_cluster c" and c0: "fat_entry fb c = 0"
    using assms(1-3) by (auto simp: free_set_def intro!: in_fat_9216 data_clusterI)
  have p: "prev \<noteq> 0 \<longrightarrow> in_fat fb prev"
    using assms(1,4) holds_fat_9216 by (auto simp: holds_fat_def)
  note entry = fat_entry_link [OF c(1) p _ c(2)]
  have sub: "set cs \<subseteq> free_set fb lim - {c}"
    using step free_set_link [OF assms(1-4)] by (simp add: allocated_def)
  have other: "fat_entry fb' x = fat_entry (link fb prev c) x" if "in_fat fb x" "x \<notin> set cs" "x \<noteq> c" for x
    using step that by (simp add: allocated_def in_fat_length [of "link fb prev c" fb])
  have "chain fb' c (c # cs) \<and> fat_entry fb' c \<noteq> 0"
  proof (cases "cs = []")
    case True
    then have "fat_entry fb' c = 0xFFF" using step entry [OF c(1)] by (simp add: allocated_def)
    then show ?thesis using True c by (simp add: data_cluster_def)
  next
    case False
    then have "data_cluster (hd cs)" "fat_entry fb' c = hd cs" "chain fb' (hd cs) cs"
      using step c by (cases cs; simp add: allocated_def)+
    then show ?thesis using c by (auto simp: data_cluster_def)
  qed
  moreover have "fat_entry fb' prev = c" if "prev \<noteq> 0"
  proof -
    have "prev \<noteq> c" using prev that c0 by auto
    moreover have "prev \<notin> set cs" using sub prev that by (auto simp: free_set_def)
    ultimately show ?thesis using other [of prev] p that entry [of prev] by simp
  qed
  moreover have "fat_entry fb' x = fat_entry fb x"
    if "in_fat fb x" "x \<notin> set (c # cs)" "prev = 0 \<or> x \<noteq> prev" for x
    using other [of x] entry [OF that(1)] that by auto
  ultimately show ?thesis
    using step sub assms(3) by (auto simp: allocated_def)
qed

text \<open>The clusters of a volume lie one behind the other; \<open>outside\<close>: a sector of none of \<open>cs\<close>.\<close>

definition outside :: "'d fat_state \<Rightarrow> u16 list \<Rightarrow> u32 \<Rightarrow> bool" where
  "outside st cs b \<longleftrightarrow> (\<forall>x \<in> set cs. \<not> (unat (cluster_lba st x) \<le> unat b \<and>
     unat b < unat (cluster_lba st x) + spc_of st))"

lemma outside_dev [simp]: "outside (st\<lparr>dev := d\<rparr>) = outside st"
  by (simp add: outside_def fun_eq_iff)

lemma unat_cluster_lba:
  assumes "2 \<le> unat x" "unat x < n + 2" "unat (data_start st) + n * spc_of st < 2 ^ 32"
  shows "unat (cluster_lba st x) = unat (data_start st) + (unat x - 2) * spc_of st"
proof -
  have x: "unat (ucast x - 2 :: u32) = unat x - 2"
  proof -
    have "unat (ucast x :: u32) = unat x"
      using unsigned_less [where ?'a = nat, of x] by (simp add: unsigned_ucast_eq take_bit_eq_mod)
    then show ?thesis using assms(1) by (subst unat_sub) (simp_all add: word_le_nat_alt)
  qed
  have "(unat x - 2) * spc_of st \<le> n * spc_of st"
    using assms(2) by (intro mult_le_mono1) simp
  then have "unat (data_start st) + (unat x - 2) * spc_of st < 2 ^ 32" using assms(3) by linarith
  then show ?thesis
    by (simp add: cluster_lba_def unat_word_ariths x spc_of_def unat_u8_u32)
qed

lemma cluster_fits:
  assumes "2 \<le> unat x" "unat x < n + 2" "unat (data_start st) + n * spc_of st \<le> m" "m < 2 ^ 32"
  shows "unat (cluster_lba st x) + spc_of st \<le> m"
proof -
  have "unat x - 2 + 1 \<le> n" using assms(1,2) by simp
  then have "(unat x - 2 + 1) * spc_of st \<le> n * spc_of st" by (rule mult_le_mono1)
  then show ?thesis using assms by (simp add: unat_cluster_lba [of x n st])
qed

lemma clusters_disjoint:
  assumes "2 \<le> unat x" "unat x < n + 2" "2 \<le> unat y" "unat y < n + 2" "x \<noteq> y"
    and "unat (data_start st) + n * spc_of st < 2 ^ 32"
    and "unat (cluster_lba st x) \<le> b" "b < unat (cluster_lba st x) + spc_of st"
  shows "\<not> (unat (cluster_lba st y) \<le> b \<and> b < unat (cluster_lba st y) + spc_of st)"
proof
  let ?s = "spc_of st"
  assume y: "unat (cluster_lba st y) \<le> b \<and> b < unat (cluster_lba st y) + ?s"
  define r where "r = b - unat (data_start st)"
  have bounds: "(unat x - 2) * ?s \<le> r" "r < (unat x - 2) * ?s + ?s"
    "(unat y - 2) * ?s \<le> r" "r < (unat y - 2) * ?s + ?s"
    using y assms(7,8) unat_cluster_lba [OF assms(1,2,6)] unat_cluster_lba [OF assms(3,4,6)]
    by (auto simp: r_def)
  have "r div ?s = unat x - 2"
    using bounds(1,2) by (intro div_nat_eqI) (simp_all add: algebra_simps)
  moreover have "r div ?s = unat y - 2"
    using bounds(3,4) by (intro div_nat_eqI) (simp_all add: algebra_simps)
  ultimately show False
    using assms(1,3,5) by (metis le_add_diff_inverse2 word_unat_eq_iff)
qed

lemma file_data_cong:
  assumes "file_data D st cs data" "\<And>b. \<not> outside st cs b \<Longrightarrow> D' b = D b"
    and "\<And>x. x \<in> set cs \<Longrightarrow> unat (cluster_lba st x) + spc_of st \<le> 2 ^ 32 - 1"
  shows "file_data D' st cs data"
  using assms
proof (induction cs arbitrary: data)
  case (Cons c cs)
  have "sectors_hold D' (cluster_lba st c) (spc_of st) data"
    using Cons.prems by (intro sectors_hold_cong [where D = D and D' = D']) (auto simp: outside_def)
  moreover have "D' b = D b" if "\<not> outside st cs b" for b
    using Cons.prems(2) that by (auto simp: outside_def)
  ultimately show ?case using Cons by auto
qed simp

context reliable_device
begin

lemma write_sectors_ok:
  assumes "good (dev st)" "disk (dev st) = D" "unat offset + unat left = length data" "length data < 2 ^ 32"
    and "0 < unat left" "unat lba + n \<le> unat capacity" "0 < n"
  shows "\<exists>d left'. good d \<and> unat left' = unat left - 512 * n \<and>
    write_sectors io data lba n offset left st = ret (0, left', st\<lparr>dev := d\<rparr>) \<and>
    sectors_hold (disk d) lba n (drop (unat offset) data) \<and>
    (\<forall>b. \<not> (unat lba \<le> unat b \<and> unat b < unat lba + n) \<longrightarrow> disk d b = D b)"
  using assms
proof (induction n arbitrary: lba offset left st D)
  case 0
  from 0(7) show ?case by simp
next
  case (Suc n)
  let ?off = "unat offset" and ?k = "min 512 (unat left)"
  define tc where "tc = (if left < 512 then left else 512)"
  have tc: "unat tc = ?k" by (auto simp: tc_def word_less_nat_alt)
  let ?chunk = "take ?k (drop ?off data)"
  let ?sec = "?chunk @ replicate (512 - length ?chunk) 0"
  have lc: "length ?chunk = ?k" using Suc.prems(3) by simp
  have cap: "lba < capacity" using Suc.prems(6) by (simp add: word_less_nat_alt)
  have len: "length ?sec = 512" using lc by simp
  obtain d where d: "wr_sector io lba ?sec st = (0, st\<lparr>dev := d\<rparr>)" "good d" "disk d = D(lba := ?sec)"
    using wr_sector_good [OF Suc.prems(1) cap len] unfolding Suc.prems(2) .
  have fit: "?off + ?k \<le> length data" using Suc.prems(3) by simp
  have left: "unat (left - tc) = unat left - ?k"
    by (subst unat_sub) (simp_all add: tc word_le_nat_alt)
  have unf: "write_sectors io data lba (Suc n) offset left st =
    (if left - tc = 0 then ret (0, left - tc, st\<lparr>dev := d\<rparr>)
     else write_sectors io data (lba + 1) n (offset + tc) (left - tc) (st\<lparr>dev := d\<rparr>))"
    unfolding write_sectors.simps tc_def [symmetric] Let_def tc using fit d(1) by simp
  have hold: "take (length (take 512 (drop ?off data))) ?sec = take 512 (drop ?off data)"
    using Suc.prems(3) by (simp add: min_def)
  show ?case
  proof (cases "unat left \<le> 512")
    case True
    then have "left - tc = 0" using left by (simp add: word_unat_eq_iff)
    moreover have "drop 512 (drop ?off data) = []" using True Suc.prems(3) by simp
    ultimately show ?thesis
      using d hold unf True
      by (intro exI [of _ d] exI [of _ "left - tc"]) (cases n; auto)
  next
    case False
    then have k: "?k = 512" by simp
    then have ne: "left - tc \<noteq> 0" using left False by (auto simp: word_unat_eq_iff)
    have off: "unat (offset + tc) = ?off + 512"
      using Suc.prems(3,4) False tc k by (simp add: unat_word_ariths)
    have lba: "unat (lba + 1) = unat lba + 1"
      using Suc.prems(6) unsigned_less [where ?'a = nat, of capacity] by (simp add: unat_word_ariths)
    show ?thesis
    proof (cases n)
      case 0
      then show ?thesis
        using unf ne d hold left k by (intro exI [of _ d] exI [of _ "left - tc"]) auto
    next
      case n': (Suc n')
      have prems: "good (dev (st\<lparr>dev := d\<rparr>))" "disk (dev (st\<lparr>dev := d\<rparr>)) = D(lba := ?sec)"
        "unat (offset + tc) + unat (left - tc) = length data" "0 < unat (left - tc)"
        "unat (lba + 1) + n \<le> unat capacity" "0 < n"
        using Suc.prems d(2,3) False off lba left n' k by auto
      obtain d' left' where IH: "good d'" "unat left' = unat (left - tc) - 512 * n"
        "write_sectors io data (lba + 1) n (offset + tc) (left - tc) (st\<lparr>dev := d\<rparr>) =
           ret (0, left', st\<lparr>dev := d\<rparr>\<lparr>dev := d'\<rparr>)"
        "sectors_hold (disk d') (lba + 1) n (drop (unat (offset + tc)) data)"
        "\<forall>b. \<not> (unat (lba + 1) \<le> unat b \<and> unat b < unat (lba + 1) + n) \<longrightarrow>
           disk d' b = (D(lba := ?sec)) b"
        using Suc.IH [OF prems(1-3) Suc.prems(4) prems(4-6)] by (elim exE conjE) (rule that)
      have same: "disk d' lba = ?sec" using IH(5) lba by simp
      have other: "\<forall>b. \<not> (unat lba \<le> unat b \<and> unat b < unat lba + Suc n) \<longrightarrow> disk d' b = D b"
        using IH(5) lba by auto
      have "sectors_hold (disk d') lba (Suc n) (drop ?off data)"
        using IH(4) hold same unfolding off by (simp add: add.commute)
      moreover have "unat left' = unat left - 512 * Suc n" using IH(2) left k by simp
      moreover have "write_sectors io data lba (Suc n) offset left st = ret (0, left', st\<lparr>dev := d'\<rparr>)"
        unfolding unf using ne IH(3) by simp
      ultimately show ?thesis using IH(1) other by blast
    qed
  qed
qed

lemma write_clusters_ok:
  assumes "good (dev st)" "disk (dev st) = D" "length fb = 18 * 512" "lim \<le> 4080"
    and "0 < spc_of st" "unat (data_start st) + (lim - 2) * spc_of st \<le> unat capacity"
    and "unat sz = length data" "length rest \<le> length data" "rest = drop (length data - length rest) data"
    and "unat left = length rest" "length rest \<le> card (free_set fb lim) * (512 * spc_of st)"
    and "prev \<noteq> 0 \<longrightarrow> data_cluster prev \<and> fat_entry fb prev \<noteq> 0" "first = 0 \<longleftrightarrow> prev = 0"
    and "unat tc \<le> 6142" "lim \<le> unat tc + 2"
  shows "\<exists>d fb' cs. good d \<and>
    write_clusters io tc data sz fb left first prev st =
      ret (0, fb', if cs = [] \<or> first \<noteq> 0 then first else hd cs, st\<lparr>dev := d\<rparr>) \<and>
    allocated lim prev cs fb fb' \<and> file_data (disk d) st cs rest \<and>
    (\<forall>b. outside st cs b \<longrightarrow> disk d b = D b)"
  using assms
proof (induction "length rest" arbitrary: rest fb left first prev st D rule: less_induct)
  case less
  let ?n = "spc_of st"
  have ldata: "length data < 2 ^ 32"
    using unsigned_less [where ?'a = nat, of sz] less.prems(7) by simp
  have capb: "unat capacity < 2 ^ 32" using unsigned_less [where ?'a = nat, of capacity] by simp
  show ?case
  proof (cases "rest = []")
    case True
    then have "left = 0" using less.prems(10) by (simp add: word_unat_eq_iff)
    then have "write_clusters io tc data sz fb left first prev st = ret (0, fb, first, st)"
      by (simp add: write_clusters.simps)
    then show ?thesis
      using True less.prems(1,2)
      by (intro exI [of _ "dev st"] exI [of _ fb] exI [of _ "[]"]) (simp add: allocated_def)
  next
    case False
    then have left: "0 < left" "0 < unat left"
      using less.prems(10) by (simp_all add: word_less_nat_alt)
    have ne: "free_set fb lim \<noteq> {}"
      using False less.prems(11) by (cases "free_set fb lim = {}") simp_all
    obtain c where find: "fat_find_free_cluster fb tc = ret c" and c: "c \<in> free_set fb lim" "c \<noteq> 0"
      by (rule find_free_set [OF less.prems(3,14,15) ne])
    have cb: "2 \<le> unat c" "unat c < lim" using c(1) by (simp_all add: free_set_def)
    have inc: "in_fat fb c" using less.prems(3,4) cb by (intro in_fat_9216) simp_all
    have inp: "prev \<noteq> 0 \<longrightarrow> in_fat fb prev"
      using less.prems(3,12) holds_fat_9216 by (auto simp: holds_fat_def)
    have cb': "unat c < lim - 2 + 2" using cb by simp
    have cap: "unat (cluster_lba st c) + ?n \<le> unat capacity"
      using cluster_fits [OF cb(1) cb' less.prems(6) capb] .
    have off: "unat (sz - left) = length data - length rest"
      using less.prems(7,8,10) by (subst unat_sub) (simp_all add: word_le_nat_alt)
    have tot: "unat (sz - left) + unat left = length data"
      using off less.prems(8,10) by simp
    obtain d left' where ws: "good d" "unat left' = unat left - 512 * ?n"
      "write_sectors io data (cluster_lba st c) ?n (sz - left) left st = ret (0, left', st\<lparr>dev := d\<rparr>)"
      "sectors_hold (disk d) (cluster_lba st c) ?n rest"
      "\<forall>b. \<not> (unat (cluster_lba st c) \<le> unat b \<and> unat b < unat (cluster_lba st c) + ?n) \<longrightarrow> disk d b = D b"
      using write_sectors_ok [OF less.prems(1,2) tot ldata left(2) cap less.prems(5)]
      unfolding off less.prems(9) [symmetric] by (elim exE conjE) (rule that)
    let ?fb = "link fb prev c" and ?rest = "drop (512 * ?n) rest" and ?st = "st\<lparr>dev := d\<rparr>"
    let ?first = "if first = 0 then c else first"
    have unf: "write_clusters io tc data sz fb left first prev st =
      write_clusters io tc data sz ?fb left' ?first c ?st"
      using left(1) find c(2) inc inp ws(3) unfolding spc_of_def
      by (simp add: write_clusters.simps [of io tc data sz fb] set_cluster_store link_def)
    have lr: "length ?rest < length rest" using False less.prems(5) by simp
    have fs: "free_set ?fb lim = free_set fb lim - {c}"
      by (rule free_set_link [OF less.prems(3,4) c(1) less.prems(12)])
    have fin: "finite (free_set fb lim)" by simp
    have "card (free_set fb lim) = Suc (card (free_set ?fb lim))"
      unfolding fs using card.remove [OF fin c(1)] .
    then have room: "length ?rest \<le> card (free_set ?fb lim) * (512 * ?n)"
      using less.prems(11) by simp
    have ec: "fat_entry ?fb c = 0xFFF"
      using fat_entry_link [OF inc inp inc] less.prems(4) cb by simp
    have dc: "data_cluster c" using cb less.prems(4) by (intro data_clusterI) simp_all
    have rest: "?rest = drop (length data - length ?rest) data"
      using less.prems(8) arg_cong [OF less.prems(9), of "drop (512 * ?n)"]
      by (cases "512 * ?n \<le> length rest") (simp_all add: algebra_simps)
    obtain d' fb' cs where IH: "good d'"
      "write_clusters io tc data sz ?fb left' ?first c ?st =
        ret (0, fb', if cs = [] \<or> ?first \<noteq> 0 then ?first else hd cs, ?st\<lparr>dev := d'\<rparr>)"
      "allocated lim c cs ?fb fb'" "file_data (disk d') ?st cs ?rest"
      "\<forall>b. outside ?st cs b \<longrightarrow> disk d' b = disk d b"
    proof -
      have "\<exists>d' fb' cs. good d' \<and> write_clusters io tc data sz ?fb left' ?first c ?st =
        ret (0, fb', if cs = [] \<or> ?first \<noteq> 0 then ?first else hd cs, ?st\<lparr>dev := d'\<rparr>) \<and>
        allocated lim c cs ?fb fb' \<and> file_data (disk d') ?st cs ?rest \<and>
        (\<forall>b. outside ?st cs b \<longrightarrow> disk d' b = disk d b)"
        using less.prems(3-8,10,14,15) ws(1,2) rest room ec dc c(2) lr
        by (intro less.hyps) simp_all
      then show thesis by (elim exE conjE) (rule that)
    qed
    have all: "allocated lim prev (c # cs) fb fb'"
      by (rule allocated_step [OF less.prems(3,4) c(1) less.prems(12) IH(3)])
    have out: "disk d' b = disk d b" if "unat (cluster_lba st c) \<le> unat b" "unat b < unat (cluster_lba st c) + ?n" for b
    proof -
      have cap2: "unat (data_start st) + (lim - 2) * spc_of st < 2 ^ 32"
        using less.prems(6) capb by linarith
      have "outside st cs b"
        unfolding outside_def
      proof
        fix y assume "y \<in> set cs"
        then have y: "2 \<le> unat y" "unat y < lim" "c \<noteq> y"
          using all by (auto simp: allocated_def free_set_def)
        then have "unat y < lim - 2 + 2" by simp
        then show "\<not> (unat (cluster_lba st y) \<le> unat b \<and> unat b < unat (cluster_lba st y) + spc_of st)"
          using clusters_disjoint [OF cb(1) cb' y(1) _ y(3) cap2 that] by blast
      qed
      then show ?thesis using IH(5) by simp
    qed
    have "sectors_hold (disk d') (cluster_lba st c) ?n rest"
      using cap capb out by (intro sectors_hold_cong [OF ws(4)]) simp_all
    then have "file_data (disk d') st (c # cs) rest"
      using False IH(4) by simp
    moreover have "\<forall>b. outside st (c # cs) b \<longrightarrow> disk d' b = D b"
      using IH(5) ws(5) by (auto simp: outside_def)
    moreover have "write_clusters io tc data sz fb left first prev st =
      ret (0, fb', if c # cs = [] \<or> first \<noteq> 0 then first else hd (c # cs), st\<lparr>dev := d'\<rparr>)"
      unfolding unf IH(2) using c(2) by simp
    ultimately show ?thesis using IH(1) all by blast
  qed
qed

end

end
