(* ===== verification/Fat_Ops.thy ===== *)
theory Fat_Ops
  imports Fat_File
begin

unbundle bit_operations_syntax

text \<open>
  The file operations on a mounted volume with the root directory current, over a device that
  does not fail: what each does to the volume's allocation table, root directory and file
  contents.
\<close>

section \<open>Volumes\<close>

definition spf_of :: "'d fat_state \<Rightarrow> nat" where
  "spf_of st = unat (sectors_per_fat (params st))"

definition copies_of :: "'d fat_state \<Rightarrow> nat" where
  "copies_of st = unat (fat_count (params st))"

text \<open>
  A mounted volume whose regions follow each other on the disk and whose clusters \<open>2 ..< lim\<close>
  have both a table entry on disk and sectors below \<open>capacity\<close>.
\<close>

definition volume :: "u32 \<Rightarrow> nat \<Rightarrow> 'd fat_state \<Rightarrow> bool" where
  "volume capacity lim st \<longleftrightarrow> initialized st \<and>
     1 \<le> spf_of st \<and> spf_of st \<le> 17 \<and> 1 \<le> copies_of st \<and> 0 < spc_of st \<and>
     2 \<le> lim \<and> lim \<le> 4080 \<and> 3 * lim \<le> 1024 * spf_of st \<and>
     unat (fat_start st) + copies_of st * spf_of st \<le> unat (root_start st) \<and>
     unat (root_start st) + unat (root_sectors st) \<le> unat (data_start st) \<and>
     unat (data_start st) + (lim - 2) * spc_of st \<le> unat capacity"

definition bufs_ok :: "(fat_fn \<Rightarrow> u8 list) \<Rightarrow> bool" where
  "bufs_ok b \<longleftrightarrow> (\<forall>fn. length (b fn) = 18 * 512)"

lemma bufs_ok_upd [simp]: "bufs_ok b \<Longrightarrow> length fb = 18 * 512 \<Longrightarrow> bufs_ok (b(fn := fb))"
  by (simp add: bufs_ok_def)

text \<open>Operations change the device and the static buffers only.\<close>

definition moved :: "'d fat_state \<Rightarrow> 'd \<Rightarrow> (fat_fn \<Rightarrow> u8 list) \<Rightarrow> 'd fat_state" where
  "moved st d b = st\<lparr>fat_bufs := b, dev := d\<rparr>"

lemma moved_id: "moved st (dev st) (fat_bufs st) = st"
  by (simp add: moved_def)

lemma moved_fields [simp]:
  "params (moved st d b) = params st" "initialized (moved st d b) = initialized st"
  "fat_start (moved st d b) = fat_start st" "root_start (moved st d b) = root_start st"
  "data_start (moved st d b) = data_start st" "root_sectors (moved st d b) = root_sectors st"
  "current_dir_cluster (moved st d b) = current_dir_cluster st"
  "current_path (moved st d b) = current_path st"
  "fat_bufs (moved st d b) = b" "dev (moved st d b) = d"
  by (simp_all add: moved_def)

lemma moved_upd [simp]:
  "(moved st d b)\<lparr>dev := d'\<rparr> = moved st d' b"
  "save_fat fn fb (moved st d b) = moved st d (b(fn := fb))"
  "moved (moved st d b) d' b' = moved st d' b'"
  by (simp_all add: moved_def save_fat_def)

lemma moved_derived [simp]:
  "spf_of (moved st d b) = spf_of st" "copies_of (moved st d b) = copies_of st"
  "spc_of (moved st d b) = spc_of st" "cluster_lba (moved st d b) = cluster_lba st"
  "root_lbas (moved st d b) = root_lbas st" "volume cap lim (moved st d b) = volume cap lim st"
  "outside (moved st d b) = outside st"
  by (simp_all add: spf_of_def copies_of_def spc_of_def cluster_lba_def root_lbas_def volume_def
      outside_def fun_eq_iff)

lemma file_data_moved [simp]: "file_data D (moved st d b) cs data = file_data D st cs data"
  by (induction cs arbitrary: data) simp_all

section \<open>What a volume holds\<close>

definition fat_table :: "(u32 \<Rightarrow> u8 list) \<Rightarrow> 'd fat_state \<Rightarrow> u8 list" where
  "fat_table D st = image D (fat_start st) (spf_of st)"

definition root_entries :: "(u32 \<Rightarrow> u8 list) \<Rightarrow> 'd fat_state \<Rightarrow> raw_dir_entry list" where
  "root_entries D st = dir_entries D (root_lbas st)"

text \<open>What \<^verbatim>\<open>load_fat\<close> leaves in a buffer: the table, and behind it what was there before.\<close>

definition loaded :: "(u32 \<Rightarrow> u8 list) \<Rightarrow> 'd fat_state \<Rightarrow> u8 list \<Rightarrow> u8 list" where
  "loaded D st fb = fat_table D st @ drop (512 * spf_of st) fb"

lemma moved_holds [simp]:
  "fat_table D (moved st d b) = fat_table D st" "root_entries D (moved st d b) = root_entries D st"
  "loaded D (moved st d b) = loaded D st"
  by (simp_all add: fat_table_def root_entries_def loaded_def fun_eq_iff)

lemma length_image:
  assumes "\<And>i. i < n \<Longrightarrow> length (D (a + of_nat i)) = 512"
  shows "length (image D a n) = 512 * n"
  using assms by (induction n) (simp_all add: image_def)

lemma image_eqI:
  assumes "length fb \<ge> 512 * n" "\<And>i. i < n \<Longrightarrow> D (a + of_nat i) = slice fb i"
  shows "image D a n = take (512 * n) fb"
  using assms
proof (induction n)
  case (Suc n)
  have "image D a (Suc n) = image D a n @ slice fb n"
    using Suc.prems(2) [of n] by (simp add: image_def)
  also have "\<dots> = take (512 * n + 512) fb"
    using Suc by (simp add: slice_def take_add)
  finally show ?case by (simp add: add.commute)
qed (simp add: image_def)

lemma image_cong:
  "(\<And>i. i < n \<Longrightarrow> D' (a + of_nat i) = D (a + of_nat i)) \<Longrightarrow> image D' a n = image D a n"
  unfolding image_def by (intro arg_cong [where f = concat] map_cong) auto

lemma fat_entry_append: "in_fat xs x \<Longrightarrow> fat_entry (xs @ ys) x = fat_entry xs x"
  by (simp add: fat_entry_def in_fat_def nth_append)

lemma fat_entry_take: "in_fat (take n fb) x \<Longrightarrow> fat_entry (take n fb) x = fat_entry fb x"
  using fat_entry_append [of "take n fb" x "drop n fb"] by simp

lemma in_fat_bound: "unat x < lim \<Longrightarrow> 3 * lim \<le> 1024 * n \<Longrightarrow> length fb = 512 * n \<Longrightarrow> in_fat fb x"
  by (simp add: in_fat_def fat_offset_def)

lemma chain_cong:
  assumes "chain fb c cs" "\<forall>x \<in> set cs. fat_entry fb' x = fat_entry fb x"
  shows "chain fb' c cs"
  using assms by (induction cs arbitrary: c) auto

lemma unat_root_lba:
  assumes "volume capacity lim st" "i < unat (root_sectors st)"
  shows "unat (root_start st + of_nat i) = unat (root_start st) + i"
  using assms unsigned_less [where ?'a = nat, of capacity]
  by (intro unat_plus_of_nat) (simp add: volume_def)

lemma root_lbas_mem:
  assumes "volume capacity lim st" "a \<in> set (root_lbas st)"
  shows "unat (root_start st) \<le> unat a" "unat a < unat (root_start st) + unat (root_sectors st)"
    "a < capacity"
proof -
  obtain i where i: "i < unat (root_sectors st)" "a = root_start st + of_nat i"
    using assms(2) by (auto simp: root_lbas_def)
  then show "unat (root_start st) \<le> unat a" "unat a < unat (root_start st) + unat (root_sectors st)"
    using unat_root_lba [OF assms(1) i(1)] by simp_all
  then show "a < capacity" using assms(1) by (simp add: volume_def word_less_nat_alt)
qed

lemma distinct_root_lbas:
  assumes "volume capacity lim st" shows "distinct (root_lbas st)"
proof -
  have "inj_on (\<lambda>s. root_start st + of_nat s) {0..<unat (root_sectors st)}"
    using unat_root_lba [OF assms] by (intro inj_onI) (metis add_left_cancel atLeastLessThan_iff)
  then show ?thesis by (simp add: root_lbas_def distinct_map)
qed

lemma length_root_lbas [simp]: "length (root_lbas st) = unat (root_sectors st)"
  by (simp add: root_lbas_def)

lemma below_all_copies:
  assumes "volume capacity lim st" "i < spf_of st" shows "i < copies_of st * spf_of st"
proof -
  have "1 * spf_of st \<le> copies_of st * spf_of st"
    using assms(1) by (intro mult_le_mono1) (simp add: volume_def)
  then show ?thesis using assms(2) by linarith
qed

lemma unat_fat_lba:
  assumes "volume capacity lim st" "i < spf_of st"
  shows "unat (fat_start st + of_nat i) = unat (fat_start st) + i"
    and "unat (fat_start st) + i < unat (root_start st)" "unat (fat_start st) + i < unat capacity"
proof -
  show *: "unat (fat_start st) + i < unat (root_start st)" "unat (fat_start st) + i < unat capacity"
    using assms(1) below_all_copies [OF assms] by (auto simp: volume_def)
  then show "unat (fat_start st + of_nat i) = unat (fat_start st) + i"
    using unsigned_less [where ?'a = nat, of capacity] by (intro unat_plus_of_nat) simp
qed

lemma fat_table_cong:
  assumes "volume capacity lim st" "\<And>b. unat b < unat (root_start st) \<Longrightarrow> D' b = D b"
  shows "fat_table D' st = fat_table D st"
  unfolding fat_table_def using assms unat_fat_lba [OF assms(1)] by (intro image_cong) simp

lemma root_entries_cong:
  assumes "volume capacity lim st"
    and "\<And>b. unat (root_start st) \<le> unat b \<Longrightarrow> unat b < unat (data_start st) \<Longrightarrow> D' b = D b"
  shows "root_entries D' st = root_entries D st"
proof -
  have "D' a = D a" if "a \<in> set (root_lbas st)" for a
    using root_lbas_mem [OF assms(1) that] assms by (auto simp: volume_def)
  then show ?thesis by (simp add: root_entries_def dir_entries_def cong: map_cong)
qed

lemma fat_table_flushed:
  assumes "volume capacity lim st" "length fb = 18 * 512"
  shows "fat_table (flushed D (unat (fat_start st)) (copies_of st) (spf_of st) fb) st =
    take (512 * spf_of st) fb"
  unfolding fat_table_def
proof (rule image_eqI)
  show "512 * spf_of st \<le> length fb" using assms by (simp add: volume_def)
next
  fix i assume i: "i < spf_of st"
  show "flushed D (unat (fat_start st)) (copies_of st) (spf_of st) fb (fat_start st + of_nat i) = slice fb i"
    using i unat_fat_lba(1) [OF assms(1) i] below_all_copies [OF assms(1) i] by (simp add: flushed_def)
qed

lemma flushed_other:
  assumes "volume capacity lim st" "unat (root_start st) \<le> unat b"
  shows "flushed D (unat (fat_start st)) (copies_of st) (spf_of st) fb b = D b"
  using assms by (auto simp: flushed_def volume_def)

lemma data_region:
  assumes "volume capacity lim st" "set cs \<subseteq> {x. 2 \<le> unat x \<and> unat x < lim}" "\<not> outside st cs b"
  shows "unat (data_start st) \<le> unat b"
proof -
  obtain x where x: "x \<in> set cs" "unat (cluster_lba st x) \<le> unat b"
    using assms(3) by (auto simp: outside_def)
  then have "2 \<le> unat x" "unat x < lim - 2 + 2" using assms(2) by auto
  moreover have "unat (data_start st) + (lim - 2) * spc_of st < 2 ^ 32"
    using assms(1) unsigned_less [where ?'a = nat, of capacity] by (simp add: volume_def)
  ultimately show ?thesis using unat_cluster_lba [of x "lim - 2" st] x(2) by simp
qed

section \<open>The steps of the operations\<close>

context reliable_device
begin

lemma length_fat_table:
  assumes "volume capacity lim st" "good d"
  shows "length (fat_table (disk d) st) = 512 * spf_of st"
  unfolding fat_table_def
proof (rule length_image)
  fix i assume i: "i < spf_of st"
  show "length (disk d (fat_start st + of_nat i)) = 512"
    using unat_fat_lba [OF assms(1) i] by (intro sector_size [OF assms(2)]) (simp add: word_less_nat_alt)
qed

lemma length_loaded:
  assumes "volume capacity lim st" "good d" "length fb = 18 * 512"
  shows "length (loaded (disk d) st fb) = 18 * 512"
  using assms length_fat_table [OF assms(1,2)] by (simp add: loaded_def volume_def)

lemma loaded_entry:
  assumes "volume capacity lim st" "good d" "unat x < lim"
  shows "fat_entry (loaded (disk d) st fb) x = fat_entry (fat_table (disk d) st) x"
    and "in_fat (fat_table (disk d) st) x"
proof -
  show *: "in_fat (fat_table (disk d) st) x"
    using assms length_fat_table [OF assms(1,2)] by (intro in_fat_bound) (auto simp: volume_def)
  show "fat_entry (loaded (disk d) st fb) x = fat_entry (fat_table (disk d) st) x"
    unfolding loaded_def by (rule fat_entry_append [OF *])
qed

lemma fat_secs_of_nat:
  assumes "volume capacity lim st" "sectors_per_fat (params st') = sectors_per_fat (params st)"
  shows "fat_secs st' = of_nat (spf_of st)" and "unat (of_nat (spf_of st) :: u32) = spf_of st"
proof -
  show *: "unat (of_nat (spf_of st) :: u32) = spf_of st"
    using assms(1) by (simp add: volume_def unat_of_nat)
  have u: "unat (ucast (sectors_per_fat (params st')) :: u32) = spf_of st"
    using assms unsigned_less [where ?'a = nat, of "sectors_per_fat (params st)"]
    by (simp add: spf_of_def unsigned_ucast_eq take_bit_eq_mod)
  then have "\<not> (18 :: u32) < ucast (sectors_per_fat (params st'))"
    using assms(1) by (simp add: word_less_nat_alt volume_def)
  then show "fat_secs st' = of_nat (spf_of st)"
    using u * by (simp add: fat_secs_def word_unat_eq_iff)
qed

lemma with_fat_ok:
  assumes "volume capacity lim st" "good d" "bufs_ok b"
  shows "\<exists>d'. good d' \<and> disk d' = disk d \<and> (\<forall>err k. with_fat fn io (moved st d b) err k =
    k (of_nat (spf_of st)) (loaded (disk d) st (b fn)) (moved st d' (b(fn := loaded (disk d) st (b fn)))))"
proof -
  let ?st = "moved st d b"
  have secs: "fat_secs ?st = of_nat (spf_of st)" "unat (of_nat (spf_of st) :: u32) = spf_of st"
    using fat_secs_of_nat [OF assms(1), of ?st] by simp_all
  have fit: "unat (fat_start st) + spf_of st \<le> unat capacity"
    using assms(1) unat_fat_lba(3) [OF assms(1), of "spf_of st - 1"] by (simp add: volume_def)
  have prems: "good (dev ?st)" "length (b fn) = 18 * 512"
    "unat (of_nat (spf_of st) :: u32) \<le> 18" "unat (fat_start ?st) + unat (of_nat (spf_of st) :: u32) \<le> unat capacity"
    using assms fit unfolding secs(2) by (simp_all add: bufs_ok_def volume_def)
  obtain d' where "good d'" "disk d' = disk d"
    "load_fat io (b fn) (of_nat (spf_of st)) ?st = ret (0, loaded (disk d) st (b fn), moved st d' b)"
    using load_fat_ok [OF prems] unfolding secs(2)
    by (auto simp: loaded_def fat_table_def)
  then show ?thesis
    by (intro exI [of _ d']) (simp add: with_fat_def secs(1))
qed

lemma search_ok:
  assumes "volume capacity lim st" "current_dir_cluster st = 0" "good d" "scan_spec scan f"
  shows "\<exists>d'. good d' \<and> disk d' = disk d \<and> dir_search io scan fb 0 (moved st d b) =
    ret (case f (root_entries (disk d) st) of
           None \<Rightarrow> None
         | Some k \<Rightarrow> Some (of_nat (k div 16), k mod 16, disk d (root_lbas st ! (k div 16))),
         moved st d' b)"
proof -
  have "dir_layout fb (moved st d b) (root_lbas st)"
    using root_layout [of "moved st d b" fb] assms(2) by simp
  moreover have "\<forall>a \<in> set (root_lbas st). a < capacity"
    using root_lbas_mem(3) [OF assms(1)] by blast
  ultimately show ?thesis
    using dir_search_list [OF assms(4), of fb "moved st d b" "root_lbas st" 0] assms(3)
    by (simp add: root_entries_def cong: option.case_cong)
qed

lemma put_back_ok:
  assumes "volume capacity lim st" "current_dir_cluster st = 0" "good d" "wf_entry e"
    and "k < length (root_entries (disk d) st)"
  shows "\<exists>d'. good d' \<and>
    write_dir_sector io (of_nat (k div 16)) (put_entry (disk d (root_lbas st ! (k div 16))) (k mod 16) e)
      fb (moved st d b) = ret (0, moved st d' b) \<and>
    root_entries (disk d') st = (root_entries (disk d) st)[k := e] \<and>
    (\<forall>a. a \<notin> set (root_lbas st) \<longrightarrow> disk d' a = disk d a)"
proof -
  let ?a = "root_lbas st ! (k div 16)"
  let ?sec = "put_entry (disk d ?a) (k mod 16) e"
  have k: "k < 16 * length (root_lbas st)" "k div 16 < length (root_lbas st)"
    using assms(5) by (simp_all add: root_entries_def)
  have cap: "a < capacity" if "a \<in> set (root_lbas st)" for a
    using root_lbas_mem(3) [OF assms(1) that] .
  have sz: "\<forall>a \<in> set (root_lbas st). length (disk d a) = 512"
    using sector_size [OF assms(3)] cap by blast
  have mem: "?a \<in> set (root_lbas st)" using k(2) by (rule nth_mem)
  have len: "length ?sec = 512" using sz mem assms(4) by simp
  have gd: "good (dev (moved st d b))" using assms(3) by simp
  obtain d' where d': "wr_sector io ?a ?sec (moved st d b) = (0, moved st d' b)" "good d'"
    "disk d' = (disk d)(?a := ?sec)"
    using wr_sector_good [OF gd cap [OF mem] len] by auto
  have "dir_pos fb (of_nat (k div 16)) (moved st d b) = ret (Some ?a)"
    using root_layout [of "moved st d b" fb] assms(2) k(2) by (simp add: dir_layout_def)
  from write_dir_sector_pos [OF this]
  have "write_dir_sector io (of_nat (k div 16)) ?sec fb (moved st d b) = ret (0, moved st d' b)"
    using d'(1) by simp
  moreover have "root_entries (disk d') st = (root_entries (disk d) st)[k := e]"
    unfolding root_entries_def d'(3)
    by (rule dir_entries_update [OF distinct_root_lbas [OF assms(1)] sz k(1) assms(4)])
  ultimately show ?thesis using d' mem by (intro exI [of _ d']) auto
qed

lemma flush_ok:
  assumes "volume capacity lim st" "good d" "length fb = 18 * 512"
  shows "\<exists>d'. good d' \<and> write_fat io fb (of_nat (spf_of st)) (moved st d b) = ret (0, moved st d' b) \<and>
    fat_table (disk d') st = take (512 * spf_of st) fb \<and>
    (\<forall>a. unat (root_start st) \<le> unat a \<longrightarrow> disk d' a = disk d a)"
proof -
  let ?st = "moved st d b"
  have "unat (fat_start st) + copies_of st * spf_of st \<le> unat capacity"
    using assms(1) by (simp add: volume_def)
  then have prems: "good (dev ?st)" "length fb = 18 * 512"
    "unat (sectors_per_fat (params ?st)) = spf_of st" "0 < spf_of st" "spf_of st \<le> 18"
    "unat (fat_count (params ?st)) = copies_of st"
    "unat (fat_start ?st) + copies_of st * spf_of st \<le> unat capacity"
    using assms by (simp_all add: volume_def spf_of_def copies_of_def)
  obtain d' where d': "good d'" "disk d' = flushed (disk d) (unat (fat_start st)) (copies_of st) (spf_of st) fb"
    "write_fat io fb (of_nat (spf_of st)) ?st = ret (0, moved st d' b)"
    using write_fat_ok [OF prems] by auto
  then show ?thesis
    using fat_table_flushed [OF assms(1,3)] flushed_other [OF assms(1)]
    by (intro exI [of _ d']) simp
qed

end

end
