(* ===== verification/Fat_Files.thy ===== *)
theory Fat_Files
  imports Fat_Ops
begin

unbundle bit_operations_syntax

text \<open>
  The operations of \<^verbatim>\<open>fat.c\<close> on a mounted volume: each is shown to return, and what it
  leaves of the directory, the allocation table and the data sectors. Theory \<open>Fat_Volume\<close>
  composes these facts into the properties of the file system.
\<close>

section \<open>Operations\<close>

text \<open>A file: its directory entry \<open>k\<close>, its clusters \<open>cs\<close> and its bytes.\<close>

definition file_at ::
    "(u32 \<Rightarrow> u8 list) \<Rightarrow> 'd fat_state \<Rightarrow> nat \<Rightarrow> nat \<Rightarrow> u16 list \<Rightarrow> u8 list \<Rightarrow> bool" where
  "file_at D st lim k cs content \<longleftrightarrow> k < length (root_entries D st) \<and>
     unat (d_size (root_entries D st ! k)) = length content \<and> length content < 2 ^ 31 \<and>
     chain (fat_table D st) (d_first (root_entries D st ! k)) cs \<and>
     set cs \<subseteq> {x. 2 \<le> unat x \<and> unat x < lim} \<and> (\<forall>x \<in> set cs. fat_entry (fat_table D st) x \<noteq> 0) \<and>
     file_data D st cs content"

lemma file_at_moved [simp]: "file_at D (moved st d b) lim k cs content = file_at D st lim k cs content"
  by (simp add: file_at_def)

definition storable :: "u8 list \<Rightarrow> bool" where
  "storable name \<longleftrightarrow> valid_83 name \<and> char_at name \<noteq> 0xE5"

text \<open>The entry of a deleted file.\<close>

definition deleted_entry :: "raw_dir_entry \<Rightarrow> raw_dir_entry" where
  "deleted_entry e = e\<lparr>d_name := (d_name e)[0 := 0xE5]\<rparr>"

lemma deleted_entry_simps:
  assumes "wf_entry e"
  shows "wf_entry (deleted_entry e)" "first_byte (deleted_entry e) = 0xE5"
    "\<not> match_file name (deleted_entry e)" "\<not> match_dir name (deleted_entry e)"
  using assms by (auto simp: wf_entry_def deleted_entry_def first_byte_def match_file_def is_file_def
      match_dir_def is_subdir_def)

lemma match_new_entry:
  assumes "storable name" "split_83 name = (n, e)"
  shows "match_file name (new_entry n e 0 c sz)" and "first_byte (new_entry n e 0 c sz) \<noteq> 0"
proof -
  have nz: "0 \<notin> set name"
    using assms(1) by (auto simp: storable_def valid_83_def Let_def list_all_iff)
  have "n = pad 8 (map k_toupper (take 8 (takeWhile (\<lambda>c. c \<noteq> 0x2E) name)))"
    using assms(2) by (auto simp: split_83_def Let_def)
  then have hd: "n ! 0 = (if char_at name = 0x2E \<or> name = [] then 0x20 else k_toupper (char_at name))"
    by (cases name) (auto simp: pad_def)
  have "k_toupper (char_at name) \<noteq> 0xE5" if "char_at name \<noteq> 0xE5"
    using that by (auto simp: word_unat_eq_iff unat_toupper split: if_splits)
  moreover have "char_at name \<noteq> 0" if "name \<noteq> []"
    using nz that by (cases name) auto
  ultimately have fb: "n ! 0 \<noteq> 0xE5" "n ! 0 \<noteq> 0"
    using assms(1) hd by (auto simp: storable_def)
  then show "first_byte (new_entry n e 0 c sz) \<noteq> 0"
    by (simp add: first_byte_def new_entry_def)
  have "k_strcmp_nocase (cstr (make_name n e)) name = 0"
    using stored_name_matches [OF nz] assms by (simp add: stored_name_def storable_def)
  then show "match_file name (new_entry n e 0 c sz)"
    using fb by (simp add: match_file_def is_file_def first_byte_def new_entry_def entry_name_def)
qed

lemma wf_new_entry: "split_83 name = (n, e) \<Longrightarrow> wf_entry (new_entry n e a c sz)"
  using length_split_83 [of name n e] by (simp add: wf_entry_def new_entry_def)

lemma lookup_bound: "lookup p es = Some k \<Longrightarrow> k < length es"
  by (simp add: lookup_Some)

lemma slot_bound: "slot es = Some k \<Longrightarrow> k < length es"
  by (simp add: slot_Some)

lemma unat_total_clusters:
  assumes "s \<le> 17" shows "unat (total_clusters_of (of_nat s)) = (s * 1024) div 3"
proof -
  have s: "unat (of_nat s :: u32) = s" using assms by (simp add: unat_of_nat)
  have "unat (of_nat s * 512 * 2 :: u32) = s * 1024"
    using assms by (simp add: unat_word_ariths s)
  then show ?thesis by (simp add: total_clusters_of_def unat_div_distrib)
qed

lemma total_clusters_volume:
  assumes "volume capacity lim st"
  shows "unat (total_clusters_of (of_nat (spf_of st))) \<le> 6142"
    and "lim \<le> unat (total_clusters_of (of_nat (spf_of st))) + 2"
proof -
  have s: "spf_of st \<le> 17" "3 * lim \<le> spf_of st * 1024"
    using assms by (simp_all add: volume_def mult.commute)
  have "spf_of st * 1024 div 3 \<le> 17 * 1024 div 3"
    using s(1) by (intro div_le_mono) simp
  then show "unat (total_clusters_of (of_nat (spf_of st))) \<le> 6142"
    unfolding unat_total_clusters [OF s(1)] by simp
  have "3 * lim div 3 \<le> spf_of st * 1024 div 3" using s(2) by (rule div_le_mono)
  then show "lim \<le> unat (total_clusters_of (of_nat (spf_of st))) + 2"
    unfolding unat_total_clusters [OF s(1)] by simp
qed

lemma cluster_cap:
  assumes "volume capacity lim st" "2 \<le> unat x" "unat x < lim"
  shows "unat (cluster_lba st x) + spc_of st \<le> unat capacity"
    and "unat (cluster_lba st x) + spc_of st \<le> 2 ^ 32 - 1"
proof -
  have "unat x < lim - 2 + 2" using assms by simp
  then show *: "unat (cluster_lba st x) + spc_of st \<le> unat capacity"
    using assms(1,2) unsigned_less [where ?'a = nat, of capacity]
    by (intro cluster_fits [of x "lim - 2"]) (simp_all add: volume_def)
  then show "unat (cluster_lba st x) + spc_of st \<le> 2 ^ 32 - 1"
    using unsigned_less [where ?'a = nat, of capacity] by simp
qed

context reliable_device
begin

lemma root_entry_raw:
  assumes "k < length (root_entries D st)"
  shows "dir_entry (D (root_lbas st ! (k div 16))) (k mod 16) = root_entries D st ! k"
  using assms by (simp add: root_entries_def nth_dir_entries)

text \<open>Loading the table and searching the directory, the start of every operation.\<close>

lemma prologue_ok:
  assumes "volume capacity lim st" "current_dir_cluster st = 0" "good d" "bufs_ok b" "scan_spec scan f"
    and l_def: "l = loaded (disk d) st (b fn)"
  shows "\<exists>d'. good d' \<and> disk d' = disk d \<and> bufs_ok (b(fn := l)) \<and>
    (\<forall>err (h :: _ \<Rightarrow> _ \<Rightarrow> _ \<Rightarrow> _ \<Rightarrow> 'r run). with_fat fn io (moved st d b) err
       (\<lambda>secs fb st'. bind_run (dir_search io scan fb 0 st') (\<lambda>(hit, st''). h secs fb hit st'')) =
     h (of_nat (spf_of st)) l
       (case f (root_entries (disk d) st) of
          None \<Rightarrow> None
        | Some k \<Rightarrow> Some (of_nat (k div 16), k mod 16, disk d (root_lbas st ! (k div 16))))
       (moved st d' (b(fn := l))))"
proof -
  have l: "length l = 18 * 512"
    unfolding l_def using length_loaded [OF assms(1,3)] assms(4) by (simp add: bufs_ok_def)
  obtain d1 where d1: "good d1" "disk d1 = disk d"
    "\<And>err (kk :: _ \<Rightarrow> _ \<Rightarrow> 'a fat_state \<Rightarrow> 'r run). with_fat fn io (moved st d b) err kk =
       kk (of_nat (spf_of st)) l (moved st d1 (b(fn := l)))"
    using with_fat_ok [OF assms(1,3,4), of fn] unfolding l_def by blast
  obtain d2 where "good d2" "disk d2 = disk d" "dir_search io scan l 0 (moved st d1 (b(fn := l))) =
    ret (case f (root_entries (disk d) st) of
          None \<Rightarrow> None
        | Some k \<Rightarrow> Some (of_nat (k div 16), k mod 16, disk d (root_lbas st ! (k div 16))),
       moved st d2 (b(fn := l)))"
    using search_ok [OF assms(1,2) d1(1) assms(5), of l "b(fn := l)"] unfolding d1(2) by blast
  then show ?thesis
    using d1(3) l assms(4) by (intro exI [of _ d2]) simp
qed

lemma chain_loaded:
  assumes "volume capacity lim st" "good d" "chain (fat_table (disk d) st) c cs"
    and "set cs \<subseteq> {x. 2 \<le> unat x \<and> unat x < lim}"
  shows "chain (loaded (disk d) st fb) c cs"
proof (rule chain_cong [OF assms(3)], rule ballI)
  fix x assume "x \<in> set cs"
  then have "unat x < lim" using assms(4) by auto
  then show "fat_entry (loaded (disk d) st fb) x = fat_entry (fat_table (disk d) st) x"
    by (rule loaded_entry(1) [OF assms(1,2)])
qed

lemma fat_read_ok:
  assumes vol: "volume capacity lim st" "current_dir_cluster st = 0" "good d" "bufs_ok b"
    and fl: "lookup (match_file name) (root_entries (disk d) st) = Some k" "file_at (disk d) st lim k cs content"
    and buf: "unat bs \<le> length buf"
  shows "\<exists>d' b'. good d' \<and> disk d' = disk d \<and> bufs_ok b' \<and>
    fat_read io name buf bs (moved st d b) =
      ret (int (min (length content) (unat bs)),
           splice buf 0 (take (min (length content) (unat bs)) content), moved st d' b')"
proof -
  let ?D = "disk d" and ?e = "root_entries (disk d) st ! k" and ?l = "loaded (disk d) st (b FRead)"
  let ?b = "b(FRead := ?l)"
  have l: "length ?l = 18 * 512" using length_loaded [OF vol(1,3)] vol(4) by (simp add: bufs_ok_def)
  have init: "initialized st" using vol(1) by (simp add: volume_def)
  have k: "k < length (root_entries ?D st)" using lookup_bound [OF fl(1)] .
  obtain d2 where d2: "good d2" "disk d2 = ?D"
    "\<And>err (h :: _ \<Rightarrow> _ \<Rightarrow> _ \<Rightarrow> _ \<Rightarrow> (int \<times> u8 list \<times> 'a fat_state) run). with_fat FRead io (moved st d b) err
       (\<lambda>secs fb st'. bind_run (dir_search io (find_entry (match_file name)) fb 0 st') (\<lambda>(hit, st''). h secs fb hit st'')) =
     h (of_nat (spf_of st)) ?l (Some (of_nat (k div 16), k mod 16, ?D (root_lbas st ! (k div 16)))) (moved st d2 ?b)"
    using prologue_ok [OF vol scan_find_entry [of "match_file name"] refl, where fn = FRead] unfolding fl(1) option.case by blast
  have unf: "fat_read io name buf bs (moved st d b) =
    (if d_first ?e < 2 \<or> d_size ?e = 0 then ret (0, buf, moved st d2 ?b)
     else read_clusters io ?l (d_size ?e) bs (d_first ?e) 0 buf (moved st d2 ?b))"
    unfolding fat_read_def d2(3) option.case prod.case root_entry_raw [OF k] Let_def using init by simp
  have sz: "unat (d_size ?e) = length content" "length content < 2 ^ 31" "file_data ?D st cs content"
    and sub: "set cs \<subseteq> {x. 2 \<le> unat x \<and> unat x < lim}"
    using fl(2) by (simp_all add: file_at_def)
  have "chain (fat_table ?D st) (d_first ?e) cs" using fl(2) by (simp add: file_at_def)
  then have ch: "chain ?l (d_first ?e) cs"
    using sub by (rule chain_loaded [OF vol(1,3)])
  show ?thesis
  proof (cases "content = []")
    case True
    then have "d_size ?e = 0" using sz(1) by (simp add: word_unat_eq_iff)
    then show ?thesis
      using unf d2 l vol(4) True by (intro exI [of _ d2] exI [of _ ?b]) simp
  next
    case False
    then have "data_cluster (d_first ?e)" using ch sz(3) by (cases cs) auto
    then have ns: "\<not> (d_first ?e < 2 \<or> d_size ?e = 0)"
      using sz(1) False by (auto simp: data_cluster_def not_less)
    have cap: "\<forall>x \<in> set cs. unat (cluster_lba st x) + spc_of st \<le> unat capacity"
      using cluster_cap(1) [OF vol(1)] sub by blast
    obtain d' where d': "good d'" "disk d' = ?D" "read_clusters io ?l (d_size ?e) bs (d_first ?e) 0 buf (moved st d2 ?b) =
      ret (int (min (length content) (unat bs)), splice buf 0 (take (min (length content) (unat bs)) content), moved st d' ?b)"
      using read_clusters_ok [of "moved st d2 ?b" ?D ?l "d_first ?e" cs content 0 "d_size ?e" bs buf]
        d2 ch sz False buf cap l vol(1) holds_fat_9216 by (auto simp: volume_def)
    show ?thesis
      using unf ns d'(3) d'(1,2) l vol(4) by (intro exI [of _ d'] exI [of _ ?b]) simp
  qed
qed

lemma fat_read_missing:
  assumes vol: "volume capacity lim st" "current_dir_cluster st = 0" "good d" "bufs_ok b"
    and none: "lookup (match_file name) (root_entries (disk d) st) = None"
  shows "\<exists>d' b'. good d' \<and> disk d' = disk d \<and> bufs_ok b' \<and>
    fat_read io name buf bs (moved st d b) = ret (-1, buf, moved st d' b')"
proof -
  let ?l = "loaded (disk d) st (b FRead)"
  have init: "initialized st" using vol(1) by (simp add: volume_def)
  obtain d2 where d2: "good d2" "disk d2 = disk d" "bufs_ok (b(FRead := ?l))"
    "\<And>err (h :: _ \<Rightarrow> _ \<Rightarrow> _ \<Rightarrow> _ \<Rightarrow> (int \<times> u8 list \<times> 'a fat_state) run). with_fat FRead io (moved st d b) err
       (\<lambda>secs fb st'. bind_run (dir_search io (find_entry (match_file name)) fb 0 st') (\<lambda>(hit, st''). h secs fb hit st'')) =
     h (of_nat (spf_of st)) ?l None (moved st d2 (b(FRead := ?l)))"
    using prologue_ok [OF vol scan_find_entry [of "match_file name"] refl, where fn = FRead] unfolding none option.case by blast
  have "fat_read io name buf bs (moved st d b) = ret (-1, buf, moved st d2 (b(FRead := ?l)))"
    unfolding fat_read_def d2(4) option.case using init by simp
  then show ?thesis using d2(1-3) by blast
qed

lemma write_table_ok:
  assumes "volume capacity lim st" "good d" "length fb = 18 * 512"
  shows "\<exists>d'. good d' \<and> write_fat io fb (of_nat (spf_of st)) (moved st d b) = ret (0, moved st d' b) \<and>
    (\<forall>x. unat x < lim \<longrightarrow> fat_entry (fat_table (disk d') st) x = fat_entry fb x) \<and>
    (\<forall>a. unat (root_start st) \<le> unat a \<longrightarrow> disk d' a = disk d a)"
proof -
  obtain d' where d': "good d'" "write_fat io fb (of_nat (spf_of st)) (moved st d b) = ret (0, moved st d' b)"
    "fat_table (disk d') st = take (512 * spf_of st) fb"
    "\<forall>a. unat (root_start st) \<le> unat a \<longrightarrow> disk d' a = disk d a"
    using flush_ok [OF assms] by blast
  have "fat_entry (fat_table (disk d') st) x = fat_entry fb x" if "unat x < lim" for x
    using loaded_entry(2) [OF assms(1) d'(1) that] unfolding d'(3) by (rule fat_entry_take)
  then show ?thesis using d' by blast
qed

lemma root_entry_wf:
  assumes "volume capacity lim st" "good d" "k < length (root_entries (disk d) st)"
  shows "wf_entry (root_entries (disk d) st ! k)"
proof -
  have k: "k div 16 < length (root_lbas st)"
    using assms(3) by (simp add: root_entries_def less_mult_imp_div_less mult.commute)
  have "length (disk d (root_lbas st ! (k div 16))) = 512"
    using sector_size [OF assms(2) root_lbas_mem(3) [OF assms(1) nth_mem [OF k]]] .
  then show ?thesis
    unfolding root_entry_raw [OF assms(3), symmetric] by (intro wf_dir_entry) simp_all
qed

lemma table_kept:
  assumes "volume capacity lim st" "\<forall>a. a \<notin> set (root_lbas st) \<longrightarrow> D' a = D a"
  shows "fat_table D' st = fat_table D st"
    and "\<And>a. unat (data_start st) \<le> unat a \<Longrightarrow> D' a = D a"
proof -
  show "fat_table D' st = fat_table D st"
    using root_lbas_mem(1) [OF assms(1)] assms(2)
    by (intro fat_table_cong [OF assms(1)]) (meson not_le)
  show "D' a = D a" if "unat (data_start st) \<le> unat a" for a
    using root_lbas_mem(2) [OF assms(1), of a] assms that by (auto simp: volume_def)
qed

lemma fat_delete_missing:
  assumes vol: "volume capacity lim st" "current_dir_cluster st = 0" "good d" "bufs_ok b"
    and none: "lookup (match_file name) (root_entries (disk d) st) = None"
  shows "\<exists>d' b'. good d' \<and> disk d' = disk d \<and> bufs_ok b' \<and>
    fat_delete io name (moved st d b) = ret (-1, moved st d' b')"
proof -
  let ?l = "loaded (disk d) st (b FDelete)"
  have init: "initialized st" using vol(1) by (simp add: volume_def)
  obtain d2 where d2: "good d2" "disk d2 = disk d" "bufs_ok (b(FDelete := ?l))"
    "\<And>err (h :: _ \<Rightarrow> _ \<Rightarrow> _ \<Rightarrow> _ \<Rightarrow> (int \<times> 'a fat_state) run). with_fat FDelete io (moved st d b) err
       (\<lambda>secs fb st'. bind_run (dir_search io (find_entry (match_file name)) fb 0 st') (\<lambda>(hit, st''). h secs fb hit st'')) =
     h (of_nat (spf_of st)) ?l None (moved st d2 (b(FDelete := ?l)))"
    using prologue_ok [OF vol scan_find_entry [of "match_file name"] refl, where fn = FDelete] unfolding none option.case by blast
  have "fat_delete io name (moved st d b) = ret (-1, moved st d2 (b(FDelete := ?l)))"
    unfolding fat_delete_def d2(4) option.case using init by simp
  then show ?thesis using d2(1-3) by blast
qed

lemma chain_reach:
  assumes "chain fb c cs" shows "reach fb c x \<longleftrightarrow> x \<in> set cs"
  using assms
proof (induction cs arbitrary: c)
  case Nil
  then show ?case using reach_data [of fb c x] by auto
next
  case (Cons y cs)
  then have "reach fb (fat_entry fb c) x \<longleftrightarrow> x \<in> set cs" by simp
  then show ?case using Cons.prems by (subst reach_iff) auto
qed

lemma fat_delete_ok:
  assumes vol: "volume capacity lim st" "current_dir_cluster st = 0" "good d" "bufs_ok b"
    and fl: "lookup (match_file name) (root_entries (disk d) st) = Some k" "file_at (disk d) st lim k cs content"
  shows "\<exists>d' b'. good d' \<and> bufs_ok b' \<and> fat_delete io name (moved st d b) = ret (0, moved st d' b') \<and>
    root_entries (disk d') st = (root_entries (disk d) st)[k := deleted_entry (root_entries (disk d) st ! k)] \<and>
    (\<forall>x. 2 \<le> unat x \<and> unat x < lim \<longrightarrow> fat_entry (fat_table (disk d') st) x =
       (if x \<in> set cs then 0 else fat_entry (fat_table (disk d) st) x)) \<and>
    (\<forall>a. unat (data_start st) \<le> unat a \<longrightarrow> disk d' a = disk d a)"
proof -
  let ?D = "disk d" and ?e = "root_entries (disk d) st ! k" and ?l = "loaded (disk d) st (b FDelete)"
  let ?b = "b(FDelete := ?l)"
  have l: "length ?l = 18 * 512" using length_loaded [OF vol(1,3)] vol(4) by (simp add: bufs_ok_def)
  have init: "initialized st" using vol(1) by (simp add: volume_def)
  have k: "k < length (root_entries ?D st)" using lookup_bound [OF fl(1)] .
  have sub: "set cs \<subseteq> {x. 2 \<le> unat x \<and> unat x < lim}"
    and ch0: "chain (fat_table ?D st) (d_first ?e) cs" using fl(2) by (simp_all add: file_at_def)
  have ch: "chain ?l (d_first ?e) cs" by (rule chain_loaded [OF vol(1,3) ch0 sub])
  obtain d2 where d2: "good d2" "disk d2 = ?D"
    "\<And>err (h :: _ \<Rightarrow> _ \<Rightarrow> _ \<Rightarrow> _ \<Rightarrow> (int \<times> 'a fat_state) run). with_fat FDelete io (moved st d b) err
       (\<lambda>secs fb st'. bind_run (dir_search io (find_entry (match_file name)) fb 0 st') (\<lambda>(hit, st''). h secs fb hit st'')) =
     h (of_nat (spf_of st)) ?l (Some (of_nat (k div 16), k mod 16, ?D (root_lbas st ! (k div 16)))) (moved st d2 ?b)"
    using prologue_ok [OF vol scan_find_entry [of "match_file name"] refl, where fn = FDelete] unfolding fl(1) option.case by blast
  obtain fb' where fb': "free_chain ?l (d_first ?e) = ret fb'" "length fb' = 18 * 512"
    "\<forall>x. data_cluster x \<longrightarrow> fat_entry fb' x = (if x \<in> set cs then 0 else fat_entry ?l x)"
    using free_chain_result [OF holds_fat_9216 [OF l], of "d_first ?e"] l unfolding chain_reach [OF ch] by auto
  obtain d3 where d3: "good d3"
    "write_fat io fb' (of_nat (spf_of st)) (moved st d2 (?b(FDelete := fb'))) = ret (0, moved st d3 (?b(FDelete := fb')))"
    "\<forall>x. unat x < lim \<longrightarrow> fat_entry (fat_table (disk d3) st) x = fat_entry fb' x"
    "\<forall>a. unat (root_start st) \<le> unat a \<longrightarrow> disk d3 a = ?D a"
    using write_table_ok [OF vol(1) d2(1) fb'(2), of "?b(FDelete := fb')"] unfolding d2(2) by blast
  have root3: "root_entries (disk d3) st = root_entries ?D st"
    using d3(4) by (intro root_entries_cong [OF vol(1)]) simp
  have sec: "disk d3 (root_lbas st ! (k div 16)) = ?D (root_lbas st ! (k div 16))"
    using d3(4) root_lbas_mem(1) [OF vol(1)] k
    by (simp add: root_entries_def less_mult_imp_div_less mult.commute)
  have wf: "wf_entry (deleted_entry ?e)"
    using deleted_entry_simps(1) [OF root_entry_wf [OF vol(1,3) k]] .
  obtain d4 where d4: "good d4"
    "write_dir_sector io (of_nat (k div 16)) (put_entry (?D (root_lbas st ! (k div 16))) (k mod 16) (deleted_entry ?e))
       fb' (moved st d3 (?b(FDelete := fb'))) = ret (0, moved st d4 (?b(FDelete := fb')))"
    "root_entries (disk d4) st = (root_entries ?D st)[k := deleted_entry ?e]"
    "\<forall>a. a \<notin> set (root_lbas st) \<longrightarrow> disk d4 a = disk d3 a"
    using put_back_ok [OF vol(1,2) d3(1) wf, of k fb' "?b(FDelete := fb')"] k unfolding root3 sec by blast
  have run: "fat_delete io name (moved st d b) = ret (0, moved st d4 (?b(FDelete := fb')))"
    unfolding fat_delete_def d2(3) option.case prod.case remove_entry_def Let_def root_entry_raw [OF k] fb'(1)
    using init d3(2) d4(2) by (simp add: deleted_entry_def)
  have "fat_entry (fat_table (disk d4) st) x = (if x \<in> set cs then 0 else fat_entry (fat_table ?D st) x)"
    if x: "2 \<le> unat x" "unat x < lim" for x
  proof -
    have "data_cluster x" using x vol(1) by (intro data_clusterI) (simp_all add: volume_def)
    then show ?thesis
      using d3(3) x fb'(3) loaded_entry(1) [OF vol(1,3) x(2)] table_kept(1) [OF vol(1) d4(4)] by simp
  qed
  moreover have "disk d4 a = ?D a" if "unat (data_start st) \<le> unat a" for a
    using table_kept(2) [OF vol(1) d4(4) that] d3(4) that vol(1) by (simp add: volume_def)
  ultimately show ?thesis
    using run d4(1,3) fb'(2) vol(4) l by (intro exI [of _ d4] exI [of _ "?b(FDelete := fb')"]) simp
qed

lemma store_entry_ok:
  assumes vol: "volume capacity lim st" "current_dir_cluster st = 0" "good d"
    and "slot (root_entries (disk d) st) = Some k" "wf_entry e"
  shows "\<exists>d'. good d' \<and> store_entry io e fb (moved st d b) = ret (0, moved st d' b) \<and>
    root_entries (disk d') st = (root_entries (disk d) st)[k := e] \<and>
    (\<forall>a. a \<notin> set (root_lbas st) \<longrightarrow> disk d' a = disk d a)"
proof -
  have k: "k < length (root_entries (disk d) st)" using slot_bound [OF assms(4)] .
  obtain d1 where d1: "good d1" "disk d1 = disk d" "dir_search io find_slot fb 0 (moved st d b) =
      ret (Some (of_nat (k div 16), k mod 16, disk d (root_lbas st ! (k div 16))), moved st d1 b)"
    using search_ok [OF vol scan_find_slot, of fb b] unfolding assms(4) option.case by blast
  obtain d2 where "good d2"
    "write_dir_sector io (of_nat (k div 16)) (put_entry (disk d (root_lbas st ! (k div 16))) (k mod 16) e)
       fb (moved st d1 b) = ret (0, moved st d2 b)"
    "root_entries (disk d2) st = (root_entries (disk d) st)[k := e]"
    "\<forall>a. a \<notin> set (root_lbas st) \<longrightarrow> disk d2 a = disk d a"
    using put_back_ok [OF vol(1,2) d1(1) assms(5), of k fb b] k unfolding d1(2) by blast
  then show ?thesis by (intro exI [of _ d2]) (simp add: store_entry_def d1(3))
qed

text \<open>What \<^verbatim>\<open>fat_write\<close> does after its call of \<^verbatim>\<open>fat_delete\<close>, whatever that returned.\<close>

lemma fat_write_ok:
  assumes vol: "volume capacity lim st" "current_dir_cluster st = 0"
    and del: "fat_delete io name (moved st d b) = ret (r, moved st d1 b1)" "good d1" "bufs_ok b1"
    and slot: "slot (root_entries (disk d1) st) = Some k"
    and name: "split_83 name = (n, x)"
    and sz: "unat sz = length data"
    and room: "length data \<le> card (free_set (fat_table (disk d1) st) lim) * (512 * spc_of st)"
  shows "\<exists>d' b' cs. good d' \<and> bufs_ok b' \<and> fat_write io name data sz (moved st d b) = ret (0, moved st d' b') \<and>
    root_entries (disk d') st =
      (root_entries (disk d1) st)[k := new_entry n x 0 (if cs = [] then 0 else hd cs) sz] \<and>
    set cs \<subseteq> free_set (fat_table (disk d1) st) lim \<and> distinct cs \<and>
    chain (fat_table (disk d') st) (if cs = [] then 0 else hd cs) cs \<and>
    (\<forall>c \<in> set cs. fat_entry (fat_table (disk d') st) c \<noteq> 0) \<and>
    (\<forall>c. unat c < lim \<and> c \<notin> set cs \<longrightarrow>
      fat_entry (fat_table (disk d') st) c = fat_entry (fat_table (disk d1) st) c) \<and>
    file_data (disk d') st cs data \<and>
    (\<forall>a. unat (data_start st) \<le> unat a \<and> outside st cs a \<longrightarrow> disk d' a = disk d1 a)"
proof -
  let ?D = "disk d1"
  have init: "initialized st" using vol(1) by (simp add: volume_def)
  let ?l = "loaded ?D st (b1 FWrite)" and ?tc = "total_clusters_of (of_nat (spf_of st))"
  let ?b = "b1(FWrite := ?l)"
  have l: "length ?l = 18 * 512" using length_loaded [OF vol(1) del(2)] del(3) by (simp add: bufs_ok_def)
  obtain d2 where d2: "good d2" "disk d2 = ?D"
    "\<And>err (kk :: _ \<Rightarrow> _ \<Rightarrow> 'a fat_state \<Rightarrow> (int \<times> 'a fat_state) run). with_fat FWrite io (moved st d1 b1) err kk =
       kk (of_nat (spf_of st)) ?l (moved st d2 ?b)"
    using with_fat_ok [OF vol(1) del(2,3), of FWrite] by blast
  have entry: "fat_entry ?l c = fat_entry (fat_table ?D st) c" if "unat c < lim" for c
    by (rule loaded_entry(1) [OF vol(1) del(2) that])
  then have free: "free_set ?l lim = free_set (fat_table ?D st) lim" by (auto simp: free_set_def)
  have tc: "unat ?tc \<le> 6142" "lim \<le> unat ?tc + 2"
    by (rule total_clusters_volume [OF vol(1)])+
  obtain d3 fb' cs where d3: "good d3"
    "write_clusters io ?tc data sz ?l sz 0 0 (moved st d2 ?b) =
      ret (0, fb', if cs = [] then 0 else hd cs, moved st d3 ?b)"
    "allocated lim 0 cs ?l fb'" "file_data (disk d3) st cs data"
    "\<forall>a. outside st cs a \<longrightarrow> disk d3 a = ?D a"
    using write_clusters_ok [of "moved st d2 ?b" ?D ?l lim sz data data sz 0 0 ?tc] d2(1,2) l vol(1) sz room tc
    by (auto simp: volume_def free)
  have cs: "set cs \<subseteq> free_set (fat_table ?D st) lim" "distinct cs" "length fb' = 18 * 512"
    using d3(3) l by (auto simp: allocated_def free)
  have sub: "set cs \<subseteq> {c. 2 \<le> unat c \<and> unat c < lim}" using cs(1) by (auto simp: free_set_def)
  have out: "outside st cs a" if "unat a < unat (data_start st)" for a
    using data_region [OF vol(1) sub, of a] that by linarith
  let ?first = "if cs = [] then 0 else hd cs"
  obtain d4 where d4: "good d4"
    "write_fat io fb' (of_nat (spf_of st)) (moved st d3 (?b(FWrite := fb'))) = ret (0, moved st d4 (?b(FWrite := fb')))"
    "\<forall>c. unat c < lim \<longrightarrow> fat_entry (fat_table (disk d4) st) c = fat_entry fb' c"
    "\<forall>a. unat (root_start st) \<le> unat a \<longrightarrow> disk d4 a = disk d3 a"
    using write_table_ok [OF vol(1) d3(1) cs(3), of "?b(FWrite := fb')"] by blast
  have rd: "unat (root_start st) \<le> unat (data_start st)" using vol(1) by (simp add: volume_def)
  have "root_entries (disk d4) st = root_entries ?D st"
    using d4(4) d3(5) out by (intro root_entries_cong [OF vol(1)]) simp
  moreover have "wf_entry (new_entry n x 0 ?first sz)" by (rule wf_new_entry [OF name])
  ultimately obtain d5 where d5: "good d5"
    "store_entry io (new_entry n x 0 ?first sz) fb' (moved st d4 (?b(FWrite := fb'))) =
       ret (0, moved st d5 (?b(FWrite := fb')))"
    "root_entries (disk d5) st = (root_entries ?D st)[k := new_entry n x 0 ?first sz]"
    "\<forall>a. a \<notin> set (root_lbas st) \<longrightarrow> disk d5 a = disk d4 a"
    using store_entry_ok [OF vol(1,2) d4(1), of k] slot by metis
  have run: "fat_write io name data sz (moved st d b) = ret (0, moved st d5 (?b(FWrite := fb')))"
    unfolding fat_write_def del(1) bind_ret prod.case name d2(3) d3(2)
    using init d4(2) d5(2) by simp
  have tab: "fat_entry (fat_table (disk d5) st) c = fat_entry fb' c" if "unat c < lim" for c
    using d4(3) that table_kept(1) [OF vol(1) d5(4)] by simp
  have data: "disk d5 a = disk d3 a" if "unat (data_start st) \<le> unat a" for a
    using table_kept(2) [OF vol(1) d5(4) that] d4(4) rd that by simp
  have "chain (fat_table (disk d5) st) ?first cs"
  proof (cases "cs = []")
    case False
    then have "chain fb' (hd cs) cs" using d3(3) by (simp add: allocated_def)
    moreover have "fat_entry (fat_table (disk d5) st) c = fat_entry fb' c" if "c \<in> set cs" for c
      using tab sub that by auto
    ultimately show ?thesis using False chain_cong [of fb' "hd cs" cs] by simp
  qed simp
  moreover have "fat_entry (fat_table (disk d5) st) c \<noteq> 0" if "c \<in> set cs" for c
    using d3(3) tab [of c] sub that by (auto simp: allocated_def)
  moreover have "fat_entry (fat_table (disk d5) st) c = fat_entry (fat_table ?D st) c"
    if "unat c < lim" "c \<notin> set cs" for c
  proof -
    have "in_fat ?l c" using l that vol(1) by (intro in_fat_9216) (simp_all add: volume_def)
    then show ?thesis using d3(3) that tab [of c] entry [of c] by (simp add: allocated_def)
  qed
  moreover have "file_data (disk d5) st cs data"
    using cluster_cap [OF vol(1)] sub data data_region [OF vol(1) sub]
    by (intro file_data_cong [OF d3(4)]) auto
  moreover have "disk d5 a = ?D a" if "unat (data_start st) \<le> unat a" "outside st cs a" for a
    using data [OF that(1)] d3(5) that(2) by simp
  ultimately show ?thesis
    using run d5(1,3) cs l del(3)
    by (intro exI [of _ d5] exI [of _ "?b(FWrite := fb')"] exI [of _ cs]) simp
qed

lemma fat_rename_ok:
  assumes vol: "volume capacity lim st" "current_dir_cluster st = 0" "good d" "bufs_ok b"
    and hit: "lookup (match_file old) (root_entries (disk d) st) = Some k"
    and name: "split_83 new = (n, x)"
  shows "\<exists>d' b'. good d' \<and> bufs_ok b' \<and> fat_rename io old new (moved st d b) = ret (0, moved st d' b') \<and>
    root_entries (disk d') st =
      (root_entries (disk d) st)[k := (root_entries (disk d) st ! k)\<lparr>d_name := n, d_ext := x\<rparr>] \<and>
    (\<forall>a. a \<notin> set (root_lbas st) \<longrightarrow> disk d' a = disk d a)"
proof -
  let ?D = "disk d" and ?e = "root_entries (disk d) st ! k" and ?l = "loaded (disk d) st (b FRename)"
  let ?b = "b(FRename := ?l)" and ?e' = "(root_entries (disk d) st ! k)\<lparr>d_name := n, d_ext := x\<rparr>"
  have init: "initialized st" using vol(1) by (simp add: volume_def)
  have k: "k < length (root_entries ?D st)" using lookup_bound [OF hit] .
  obtain d2 where d2: "good d2" "disk d2 = ?D" "bufs_ok ?b"
    "\<And>err (h :: _ \<Rightarrow> _ \<Rightarrow> _ \<Rightarrow> _ \<Rightarrow> (int \<times> 'a fat_state) run). with_fat FRename io (moved st d b) err
       (\<lambda>secs fb st'. bind_run (dir_search io (find_entry (match_file old)) fb 0 st') (\<lambda>(hit, st''). h secs fb hit st'')) =
     h (of_nat (spf_of st)) ?l (Some (of_nat (k div 16), k mod 16, ?D (root_lbas st ! (k div 16)))) (moved st d2 ?b)"
    using prologue_ok [OF vol scan_find_entry [of "match_file old"] refl, where fn = FRename] unfolding hit option.case by blast
  have wf: "wf_entry ?e'"
    using root_entry_wf [OF vol(1,3) k] length_split_83 [OF name] by (simp add: wf_entry_def)
  obtain d3 where d3: "good d3"
    "write_dir_sector io (of_nat (k div 16)) (put_entry (?D (root_lbas st ! (k div 16))) (k mod 16) ?e')
       ?l (moved st d2 ?b) = ret (0, moved st d3 ?b)"
    "root_entries (disk d3) st = (root_entries ?D st)[k := ?e']"
    "\<forall>a. a \<notin> set (root_lbas st) \<longrightarrow> disk d3 a = ?D a"
    using put_back_ok [OF vol(1,2) d2(1) wf, of k ?l ?b] k unfolding d2(2) by blast
  have "fat_rename io old new (moved st d b) = ret (0, moved st d3 ?b)"
    unfolding fat_rename_def name prod.case d2(4) option.case root_entry_raw [OF k]
    using init d3(2) by simp
  then show ?thesis using d3 d2(3) by blast
qed

end

section \<open>Listing\<close>

text \<open>What a listing shows of a directory.\<close>

definition listed :: "raw_dir_entry \<Rightarrow> bool" where
  "listed e \<longleftrightarrow> first_byte e \<noteq> 0xE5 \<and> d_attr e AND 0x08 = 0 \<and> first_byte e \<noteq> 0x2E"

fun listing :: "raw_dir_entry list \<Rightarrow> fat12_entry list" where
  "listing [] = []"
| "listing (e # es) =
     (if first_byte e = 0 then [] else if listed e then list_entry e # listing es else listing es)"

lemma listing_filter:
  "listing es = map list_entry (filter listed (takeWhile (\<lambda>e. first_byte e \<noteq> 0) es))"
  by (induction es) auto

lemma list_sector_listing:
  assumes "list_sector max_n buf i n acc = (acc', fin)" "length acc \<le> nat max_n"
  shows "length acc' \<le> nat max_n \<and>
    take (nat max_n) (acc' @ (if fin then [] else listing es)) =
      take (nat max_n) (acc @ listing (map (dir_entry buf) [i..<i + n] @ es))"
  using assms
proof (induction n arbitrary: i acc)
  case 0
  then show ?case by simp
next
  case (Suc n)
  have upt: "[i..<i + Suc n] = i # [Suc i..<Suc i + n]" by (simp add: upt_rec)
  let ?e = "dir_entry buf i"
  show ?case
  proof (cases "int (length acc) < max_n")
    case False
    then show ?thesis using Suc.prems by simp
  next
    case room: True
    show ?thesis
    proof (cases "first_byte ?e = 0")
      case True
      then show ?thesis using Suc.prems room unfolding upt by simp
    next
      case False
      let ?acc = "if listed ?e then acc @ [list_entry ?e] else acc"
      have ls: "list_sector max_n buf (Suc i) n ?acc = (acc', fin)"
        using Suc.prems(1) room False by (auto simp: Let_def listed_def split: if_splits)
      have len: "length ?acc \<le> nat max_n" using room by auto
      have app: "?acc @ listing ys = acc @ listing (?e # ys)" for ys
        using False by simp
      show ?thesis using Suc.IH [OF ls len] unfolding upt list.map append_Cons app .
    qed
  qed
qed

context reliable_device
begin

lemma list_from_listing:
  assumes "dir_layout fb st lbas" "\<forall>a \<in> set lbas. a < capacity" "good (dev st)" "n \<le> length lbas"
    and "disk (dev st) = D" "length acc \<le> nat max_n"
  shows "\<exists>d. good d \<and> disk d = D \<and> list_from io max_n fb (of_nat n) acc st =
    ret (take (nat max_n) (acc @ listing (dir_entries D (drop n lbas))), st\<lparr>dev := d\<rparr>)"
  using assms
proof (induction "length lbas - n" arbitrary: n acc st)
  case 0
  then have n: "n = length lbas" by simp
  with 0 have "dir_pos fb (of_nat n) st = ret None" by (simp add: dir_layout_def)
  then have "list_from io max_n fb (of_nat n) acc st = ret (acc, st\<lparr>dev := dev st\<rparr>)"
    by (simp add: list_from.simps [of _ _ _ "of_nat n"] read_dir_sector_pos)
  then show ?case using 0(4,6,7) n by (intro exI [of _ "dev st"]) simp
next
  case (Suc m)
  then have n: "n < length lbas" by simp
  show ?case
  proof (cases "int (length acc) < max_n")
    case False
    then have "take (nat max_n) (acc @ ys) = acc" for ys using Suc.prems(6) by simp
    moreover have "list_from io max_n fb (of_nat n) acc st = ret (acc, st\<lparr>dev := dev st\<rparr>)"
      using False by (simp add: list_from.simps [of _ _ _ "of_nat n"])
    ultimately show ?thesis using Suc.prems(3,5) by (intro exI [of _ "dev st"]) simp
  next
    case True
    have pos: "dir_pos fb (of_nat n) st = ret (Some (lbas ! n))"
      using Suc.prems(1) n by (simp add: dir_layout_def)
    have cap: "lbas ! n < capacity" using Suc.prems(2) n by simp
    obtain d where d: "rd_sector io (lbas ! n) st = (Some (D (lbas ! n)), st\<lparr>dev := d\<rparr>)"
      "good d" "disk d = D"
      using rd_sector_good [OF Suc.prems(3) cap] unfolding Suc.prems(5) .
    obtain acc' fin where ls: "list_sector max_n (D (lbas ! n)) 0 16 acc = (acc', fin)" by fastforce
    have suc: "of_nat (Suc n) = of_nat n + (1 :: u32)" by simp
    have unf: "list_from io max_n fb (of_nat n) acc st =
      (if fin then ret (acc', st\<lparr>dev := d\<rparr>) else list_from io max_n fb (of_nat (Suc n)) acc' (st\<lparr>dev := d\<rparr>))"
      unfolding suc using True ls
      by (simp add: list_from.simps [of _ _ _ "of_nat n"] read_dir_sector_pos pos d)
    have len: "length acc' \<le> nat max_n" using list_sector_listing [OF ls Suc.prems(6)] by blast
    have drop: "drop n lbas = lbas ! n # drop (Suc n) lbas" using n by (simp add: Cons_nth_drop_Suc)
    have step: "take (nat max_n) (acc' @ (if fin then [] else listing (dir_entries D (drop (Suc n) lbas)))) =
      take (nat max_n) (acc @ listing (dir_entries D (drop n lbas)))"
      using list_sector_listing [OF ls Suc.prems(6), of "dir_entries D (drop (Suc n) lbas)"]
      unfolding drop dir_entries_Cons sector_entries_def add_0 by (rule conjunct2)
    show ?thesis
    proof (cases fin)
      case True
      then show ?thesis using unf step d len by (intro exI [of _ d]) simp
    next
      case False
      have m: "m = length lbas - Suc n" "Suc n \<le> length lbas"
        using Suc.hyps(2) n by simp_all
      let ?st = "st\<lparr>dev := d\<rparr>"
      have prems: "dir_layout fb ?st lbas" "good (dev ?st)" "disk (dev ?st) = D"
        using Suc.prems d by simp_all
      obtain d' where "good d'" "disk d' = D" "list_from io max_n fb (of_nat (Suc n)) acc' ?st =
        ret (take (nat max_n) (acc' @ listing (dir_entries D (drop (Suc n) lbas))), ?st\<lparr>dev := d'\<rparr>)"
        using Suc.hyps(1) [OF m(1) prems(1) Suc.prems(2) prems(2) m(2) prems(3) len]
        by (elim exE conjE) (rule that)
      then show ?thesis
        using unf step False by (intro exI [of _ d']) (simp del: of_nat_Suc)
    qed
  qed
qed

lemma fat_list_ok:
  assumes vol: "volume capacity lim st" "current_dir_cluster st = 0" "good d" "bufs_ok b"
    and L_def: "L = take (nat max_n) (listing (root_entries (disk d) st))"
  shows "\<exists>d' b'. good d' \<and> disk d' = disk d \<and> bufs_ok b' \<and>
    fat_list io max_n (moved st d b) = ret (int (length L), L, moved st d' b')"
proof -
  let ?l = "loaded (disk d) st (b FList)"
  let ?b = "b(FList := ?l)"
  have l: "length ?l = 18 * 512" using length_loaded [OF vol(1,3)] vol(4) by (simp add: bufs_ok_def)
  have init: "initialized st" using vol(1) by (simp add: volume_def)
  obtain d1 where d1: "good d1" "disk d1 = disk d"
    "\<And>err (kk :: _ \<Rightarrow> _ \<Rightarrow> 'a fat_state \<Rightarrow> (int \<times> fat12_entry list \<times> 'a fat_state) run).
       with_fat FList io (moved st d b) err kk = kk (of_nat (spf_of st)) ?l (moved st d1 ?b)"
    using with_fat_ok [OF vol(1,3,4), of FList] by blast
  have lay: "dir_layout ?l (moved st d1 ?b) (root_lbas st)"
    using root_layout [of "moved st d1 ?b" ?l] vol(2) by simp
  have cap: "\<forall>a \<in> set (root_lbas st). a < capacity" using root_lbas_mem(3) [OF vol(1)] by blast
  obtain d2 where d2: "good d2" "disk d2 = disk d"
    "list_from io max_n ?l 0 [] (moved st d1 ?b) = ret (L, moved st d2 ?b)"
    using list_from_listing [OF lay cap, of 0 "disk d" "[]" max_n] d1(1,2)
    by (auto simp: L_def root_entries_def)
  have "fat_list io max_n (moved st d b) = ret (int (length L), L, moved st d2 ?b)"
    unfolding fat_list_def d1(3) d2(3) using init by simp
  then show ?thesis using d2(1,2) l vol(4) by (intro exI [of _ d2] exI [of _ ?b]) simp
qed

end

end
