(* ===== verification/Fat_Volume.thy ===== *)
theory Fat_Volume
  imports Fat_Files
begin

unbundle bit_operations_syntax

text \<open>
  The file system as its callers see it: \<^verbatim>\<open>shell.c\<close> and \<^verbatim>\<open>exec.c\<close> only use the return values
  and buffers of the functions of \<^verbatim>\<open>fat.h\<close>. The properties compose the operations (a file
  written is read back, other files keep their content, deleted and renamed files), for a
  mounted volume with its root directory current over any device that meets the contract of
  \<^verbatim>\<open>ata_read\<close> and \<^verbatim>\<open>ata_write\<close>.
\<close>

definition mounted ::
    "'d block_io \<Rightarrow> ('d \<Rightarrow> bool) \<Rightarrow> ('d \<Rightarrow> u32 \<Rightarrow> u8 list) \<Rightarrow> u32 \<Rightarrow> nat \<Rightarrow> 'd fat_state \<Rightarrow> bool" where
  "mounted io good disk capacity lim st \<longleftrightarrow> reliable_device io good disk capacity \<and>
     volume capacity lim st \<and> current_dir_cluster st = 0 \<and> good (dev st) \<and> bufs_ok (fat_bufs st)"

definition entries_of :: "('d \<Rightarrow> u32 \<Rightarrow> u8 list) \<Rightarrow> 'd fat_state \<Rightarrow> raw_dir_entry list" where
  "entries_of disk st = root_entries (disk (dev st)) st"

definition table_of :: "('d \<Rightarrow> u32 \<Rightarrow> u8 list) \<Rightarrow> 'd fat_state \<Rightarrow> u8 list" where
  "table_of disk st = fat_table (disk (dev st)) st"

text \<open>\<open>name\<close> is found at entry \<open>k\<close>, a file of clusters \<open>cs\<close> with the given content.\<close>

definition file_of ::
    "('d \<Rightarrow> u32 \<Rightarrow> u8 list) \<Rightarrow> nat \<Rightarrow> 'd fat_state \<Rightarrow> u8 list \<Rightarrow> nat \<Rightarrow> u16 list \<Rightarrow> u8 list \<Rightarrow> bool" where
  "file_of disk lim st name k cs content \<longleftrightarrow>
     lookup (match_file name) (entries_of disk st) = Some k \<and>
     file_at (disk (dev st)) st lim k cs content"

definition no_file :: "('d \<Rightarrow> u32 \<Rightarrow> u8 list) \<Rightarrow> 'd fat_state \<Rightarrow> u8 list \<Rightarrow> bool" where
  "no_file disk st name \<longleftrightarrow> lookup (match_file name) (entries_of disk st) = None"

definition free_clusters :: "('d \<Rightarrow> u32 \<Rightarrow> u8 list) \<Rightarrow> nat \<Rightarrow> 'd fat_state \<Rightarrow> u16 set" where
  "free_clusters disk lim st = free_set (table_of disk st) lim"

lemma mounted_moved:
  "mounted io good disk capacity lim st \<Longrightarrow> good d \<Longrightarrow> bufs_ok b \<Longrightarrow>
     mounted io good disk capacity lim (moved st d b)"
  by (simp add: mounted_def)

lemma mountedD:
  assumes "mounted io good disk capacity lim st"
  shows "reliable_device io good disk capacity" "volume capacity lim st" "current_dir_cluster st = 0"
    "good (dev st)" "bufs_ok (fat_bufs st)"
  using assms by (simp_all add: mounted_def)

lemma views_moved [simp]:
  "entries_of disk (moved st d b) = root_entries (disk d) st"
  "table_of disk (moved st d b) = fat_table (disk d) st"
  "file_of disk lim (moved st d b) name k cs content \<longleftrightarrow>
     lookup (match_file name) (root_entries (disk d) st) = Some k \<and> file_at (disk d) st lim k cs content"
  "no_file disk (moved st d b) name \<longleftrightarrow> lookup (match_file name) (root_entries (disk d) st) = None"
  "free_clusters disk lim (moved st d b) = free_set (fat_table (disk d) st) lim"
  by (simp_all add: entries_of_def table_of_def file_of_def no_file_def free_clusters_def)

section \<open>Reading\<close>

lemma read_file:
  assumes "mounted io good disk capacity lim st" "file_of disk lim st name k cs content"
    and "unat bs \<le> length buf"
  shows "\<exists>st'. mounted io good disk capacity lim st' \<and> disk (dev st') = disk (dev st) \<and>
    fat_read io name buf bs st =
      ret (int (min (length content) (unat bs)),
           splice buf 0 (take (min (length content) (unat bs)) content), st')"
proof -
  note m = mountedD [OF assms(1)]
  obtain d b where "good d" "disk d = disk (dev st)" "bufs_ok b"
    "fat_read io name buf bs (moved st (dev st) (fat_bufs st)) =
      ret (int (min (length content) (unat bs)),
           splice buf 0 (take (min (length content) (unat bs)) content), moved st d b)"
    using reliable_device.fat_read_ok [OF m, of name k cs content bs buf] assms(2,3)
    by (auto simp: file_of_def entries_of_def)
  then show ?thesis
    unfolding moved_id using mounted_moved [OF assms(1), of d b]
    by (intro exI [of _ "moved st d b"]) simp
qed

lemma read_missing:
  assumes "mounted io good disk capacity lim st" "no_file disk st name"
  shows "\<exists>st'. mounted io good disk capacity lim st' \<and> disk (dev st') = disk (dev st) \<and>
    fat_read io name buf bs st = ret (-1, buf, st')"
proof -
  note m = mountedD [OF assms(1)]
  obtain d b where "good d" "disk d = disk (dev st)" "bufs_ok b"
    "fat_read io name buf bs (moved st (dev st) (fat_bufs st)) = ret (-1, buf, moved st d b)"
    using reliable_device.fat_read_missing [OF m, of name buf bs] assms(2)
    by (auto simp: no_file_def entries_of_def)
  then show ?thesis
    unfolding moved_id using mounted_moved [OF assms(1), of d b]
    by (intro exI [of _ "moved st d b"]) simp
qed

section \<open>Files across a change\<close>

lemma lookup_update_other:
  assumes "lookup p es = Some j" "j \<noteq> k" "first_byte e \<noteq> 0" "\<not> p e"
  shows "lookup p (es[k := e]) = Some j"
proof -
  have j: "j < length es" using assms(1) by (simp add: lookup_Some)
  have "first_byte (es[k := e] ! i) \<noteq> 0 \<and> \<not> p (es[k := e] ! i)" if "i < j" for i
    using assms that j by (cases "i = k") (auto simp: lookup_Some)
  then show ?thesis using assms(1,2) j unfolding lookup_Some by simp
qed

lemma match_file_visible: "match_file name e \<Longrightarrow> first_byte e \<noteq> 0xE5"
  by (simp add: match_file_def is_file_def)

lemma lookup_not_slot: "lookup (match_file name) es = Some j \<Longrightarrow> slot es = Some k \<Longrightarrow> j \<noteq> k"
  by (auto simp: lookup_Some slot_Some dest: match_file_visible)

lemma file_at_kept:
  assumes "volume capacity lim st" "file_at D st lim j cs content"
    and "root_entries D' st ! j = root_entries D st ! j"
    and "length (root_entries D' st) = length (root_entries D st)"
    and "\<And>c. unat c < lim \<Longrightarrow> c \<in> set cs \<Longrightarrow> fat_entry (fat_table D' st) c = fat_entry (fat_table D st) c"
    and "\<And>a. unat (data_start st) \<le> unat a \<Longrightarrow> \<not> outside st cs a \<Longrightarrow> D' a = D a"
  shows "file_at D' st lim j cs content"
proof -
  have sub: "set cs \<subseteq> {c. 2 \<le> unat c \<and> unat c < lim}" using assms(2) by (simp add: file_at_def)
  have same: "fat_entry (fat_table D' st) c = fat_entry (fat_table D st) c" if "c \<in> set cs" for c
    using assms(5) [of c] sub that by auto
  have "file_data D' st cs content"
  proof (rule file_data_cong)
    show "file_data D st cs content" using assms(2) by (simp add: file_at_def)
    show "D' b = D b" if "\<not> outside st cs b" for b
      using assms(6) data_region [OF assms(1) sub that] that by blast
    show "unat (cluster_lba st x) + spc_of st \<le> 2 ^ 32 - 1" if "x \<in> set cs" for x
      using cluster_cap(2) [OF assms(1)] sub that by blast
  qed
  moreover have "chain (fat_table D' st) (d_first (root_entries D st ! j)) cs"
    using assms(2) same by (auto simp: file_at_def intro: chain_cong [of "fat_table D st"])
  ultimately show ?thesis using assms(2-4) same by (simp add: file_at_def)
qed

lemma clusters_apart:
  assumes "volume capacity lim st" "set cs \<subseteq> {c. 2 \<le> unat c \<and> unat c < lim}"
    and "set cs' \<subseteq> {c. 2 \<le> unat c \<and> unat c < lim}" "set cs \<inter> set cs' = {}" "\<not> outside st cs' a"
  shows "outside st cs a"
proof -
  obtain y where y: "y \<in> set cs'" "unat (cluster_lba st y) \<le> unat a" "unat a < unat (cluster_lba st y) + spc_of st"
    using assms(5) by (auto simp: outside_def)
  have yb: "2 \<le> unat y" "unat y < lim - 2 + 2" using y(1) assms(3) by auto
  have cap: "unat (data_start st) + (lim - 2) * spc_of st < 2 ^ 32"
    using assms(1) unsigned_less [where ?'a = nat, of capacity] by (simp add: volume_def)
  show ?thesis
    unfolding outside_def
  proof
    fix x assume "x \<in> set cs"
    then have "2 \<le> unat x" "unat x < lim - 2 + 2" "y \<noteq> x"
      using assms(2,4) y(1) by auto
    then show "\<not> (unat (cluster_lba st x) \<le> unat a \<and> unat a < unat (cluster_lba st x) + spc_of st)"
      using clusters_disjoint [OF yb _ _ _ cap y(2,3)] by blast
  qed
qed

lemma file_after_write:
  assumes "length (root_entries D st) = length (root_entries D' st)" "storable name" "split_83 name = (n, x)"
    and "lookup (match_file name) (root_entries D' st) = Some k"
    and "root_entries D' st ! k = new_entry n x 0 (if cs = [] then 0 else hd cs) sz"
    and "unat sz = length data" "length data < 2 ^ 31" "set cs \<subseteq> free_set tab lim"
    and "chain (fat_table D' st) (if cs = [] then 0 else hd cs) cs"
    and "\<forall>c \<in> set cs. fat_entry (fat_table D' st) c \<noteq> 0" "file_data D' st cs data"
  shows "file_at D' st lim k cs data"
  using assms lookup_bound [OF assms(4)] by (auto simp: file_at_def new_entry_def free_set_def)

text \<open>Everything a successful \<^verbatim>\<open>fat_write\<close> does, for a name that is new or is replaced.\<close>

lemma write_file:
  assumes m: "mounted io good disk capacity lim st"
    and del: "fat_delete io name st = ret (r, moved st d1 b1)" "good d1" "bufs_ok b1"
    and name: "storable name"
    and none: "lookup (match_file name) (root_entries (disk d1) st) = None"
    and slot: "slot (root_entries (disk d1) st) = Some k"
    and sz: "unat sz = length data" "length data < 2 ^ 31"
    and room: "length data \<le> card (free_set (fat_table (disk d1) st) lim) * (512 * spc_of st)"
  shows "\<exists>d' b' cs e. mounted io good disk capacity lim (moved st d' b') \<and>
    fat_write io name data sz st = ret (0, moved st d' b') \<and>
    lookup (match_file name) (root_entries (disk d') st) = Some k \<and> file_at (disk d') st lim k cs data \<and>
    root_entries (disk d') st = (root_entries (disk d1) st)[k := e] \<and> first_byte e \<noteq> 0 \<and>
    entry_name e = stored_name name \<and>
    set cs \<subseteq> free_set (fat_table (disk d1) st) lim \<and>
    (\<forall>c. unat c < lim \<and> c \<notin> set cs \<longrightarrow>
      fat_entry (fat_table (disk d') st) c = fat_entry (fat_table (disk d1) st) c) \<and>
    (\<forall>a. unat (data_start st) \<le> unat a \<and> outside st cs a \<longrightarrow> disk d' a = disk d1 a)"
proof -
  note md = mountedD [OF m]
  obtain n x where nx: "split_83 name = (n, x)" by (cases "split_83 name")
  have del': "fat_delete io name (moved st (dev st) (fat_bufs st)) = ret (r, moved st d1 b1)"
    using del(1) by (simp add: moved_id)
  obtain d' b' cs where w: "good d'" "bufs_ok b'" "fat_write io name data sz st = ret (0, moved st d' b')"
    "root_entries (disk d') st = (root_entries (disk d1) st)[k := new_entry n x 0 (if cs = [] then 0 else hd cs) sz]"
    "set cs \<subseteq> free_set (fat_table (disk d1) st) lim"
    "chain (fat_table (disk d') st) (if cs = [] then 0 else hd cs) cs"
    "\<forall>c \<in> set cs. fat_entry (fat_table (disk d') st) c \<noteq> 0"
    "\<forall>c. unat c < lim \<and> c \<notin> set cs \<longrightarrow> fat_entry (fat_table (disk d') st) c = fat_entry (fat_table (disk d1) st) c"
    "file_data (disk d') st cs data"
    "\<forall>a. unat (data_start st) \<le> unat a \<and> outside st cs a \<longrightarrow> disk d' a = disk d1 a"
    using reliable_device.fat_write_ok [OF md(1-3) del' del(2,3) slot nx sz(1) room] unfolding moved_id by blast
  let ?e = "new_entry n x 0 (if cs = [] then 0 else hd cs) sz"
  have k: "k < length (root_entries (disk d1) st)" using slot_bound [OF slot] .
  from lookup_new_entry [OF none slot match_new_entry [OF name nx]]
  have look: "lookup (match_file name) (root_entries (disk d') st) = Some k" unfolding w(4) .
  have "file_at (disk d') st lim k cs data"
    using w(4) k by (intro file_after_write [OF _ name nx look _ sz w(5-7,9)]) simp_all
  moreover have "entry_name ?e = stored_name name"
    by (simp add: entry_name_def new_entry_def stored_name_def nx)
  ultimately show ?thesis
    using w look match_new_entry(2) [OF name nx] mounted_moved [OF m w(1,2)] by blast
qed

lemma lookup_no_match: "(\<And>j. j < length es \<Longrightarrow> \<not> p (es ! j)) \<Longrightarrow> lookup p es = None"
  by (cases "lookup p es") (auto simp: lookup_Some)

lemma slot_exists:
  assumes "k < length es" "first_byte (es ! k) = 0xE5" shows "\<exists>j. slot es = Some j"
  using assms
proof (induction es arbitrary: k)
  case (Cons e es)
  then show ?case by (cases k) auto
qed simp

lemma write_new:
  assumes m: "mounted io good disk capacity lim st" and "storable name" "no_file disk st name"
    and "slot (entries_of disk st) \<noteq> None"
    and "unat sz = length data" "length data < 2 ^ 31"
    and "length data \<le> card (free_clusters disk lim st) * (512 * spc_of st)"
  shows "\<exists>st' k cs. mounted io good disk capacity lim st' \<and> fat_write io name data sz st = ret (0, st') \<and>
    file_of disk lim st' name k cs data \<and>
    (\<forall>other j cs' content. file_of disk lim st other j cs' content \<and>
       k_strcmp_nocase (stored_name name) other \<noteq> 0 \<longrightarrow> file_of disk lim st' other j cs' content)"
proof -
  note md = mountedD [OF m]
  have none: "lookup (match_file name) (root_entries (disk (dev st)) st) = None"
    using assms(3) by (simp add: no_file_def entries_of_def)
  obtain k where slot: "slot (root_entries (disk (dev st)) st) = Some k"
    using assms(4) by (auto simp: entries_of_def)
  obtain d1 b1 where d1: "good d1" "disk d1 = disk (dev st)" "bufs_ok b1"
    "fat_delete io name st = ret (-1, moved st d1 b1)"
    using reliable_device.fat_delete_missing [OF md none] unfolding moved_id by blast
  have room: "length data \<le> card (free_set (fat_table (disk d1) st) lim) * (512 * spc_of st)"
    using assms(7) unfolding d1(2) free_clusters_def table_of_def .
  obtain d' b' cs e where w: "mounted io good disk capacity lim (moved st d' b')"
    "fat_write io name data sz st = ret (0, moved st d' b')"
    "lookup (match_file name) (root_entries (disk d') st) = Some k" "file_at (disk d') st lim k cs data"
    "root_entries (disk d') st = (root_entries (disk (dev st)) st)[k := e]" "first_byte e \<noteq> 0"
    "entry_name e = stored_name name" "set cs \<subseteq> free_set (fat_table (disk (dev st)) st) lim"
    "\<forall>c. unat c < lim \<and> c \<notin> set cs \<longrightarrow> fat_entry (fat_table (disk d') st) c = fat_entry (fat_table (disk (dev st)) st) c"
    "\<forall>a. unat (data_start st) \<le> unat a \<and> outside st cs a \<longrightarrow> disk d' a = disk (dev st) a"
    using write_file [OF m d1(4,1,3) assms(2) none [folded d1(2)] slot [folded d1(2)] assms(5,6) room]
    unfolding d1(2) by blast
  have "file_of disk lim (moved st d' b') other j cs' content"
    if f: "file_of disk lim st other j cs' content" and ne: "k_strcmp_nocase (stored_name name) other \<noteq> 0"
    for other j cs' content
  proof -
    have look: "lookup (match_file other) (root_entries (disk (dev st)) st) = Some j"
      and at: "file_at (disk (dev st)) st lim j cs' content"
      using f by (simp_all add: file_of_def entries_of_def)
    have jk: "j \<noteq> k" by (rule lookup_not_slot [OF look slot])
    have nm: "\<not> match_file other e" using ne w(7) by (simp add: match_file_def)
    have "lookup (match_file other) (root_entries (disk d') st) = Some j"
      unfolding w(5) by (rule lookup_update_other [OF look jk w(6) nm])
    moreover have "file_at (disk d') st lim j cs' content"
    proof (rule file_at_kept [OF md(2) at])
      have disj: "set cs \<inter> set cs' = {}" using w(8) at by (auto simp: file_at_def free_set_def)
      show "fat_entry (fat_table (disk d') st) c = fat_entry (fat_table (disk (dev st)) st) c"
        if "unat c < lim" "c \<in> set cs'" for c using w(9) disj that by blast
      have sub: "set cs \<subseteq> {c. 2 \<le> unat c \<and> unat c < lim}" using w(8) by (auto simp: free_set_def)
      have sub': "set cs' \<subseteq> {c. 2 \<le> unat c \<and> unat c < lim}" using at by (simp add: file_at_def)
      show "disk d' a = disk (dev st) a" if "unat (data_start st) \<le> unat a" "\<not> outside st cs' a" for a
        using w(10) that clusters_apart [OF md(2) sub sub' disj that(2)] by blast
    qed (use w(5) jk in simp_all)
    ultimately show ?thesis by simp
  qed
  then show ?thesis
    using w(1-4) by (intro exI [of _ "moved st d' b'"] exI [of _ k] exI [of _ cs]) auto
qed

lemma delete_file:
  assumes m: "mounted io good disk capacity lim st" and f: "file_of disk lim st name k cs content"
  shows "\<exists>d' b'. mounted io good disk capacity lim (moved st d' b') \<and>
    fat_delete io name st = ret (0, moved st d' b') \<and> good d' \<and> bufs_ok b' \<and>
    root_entries (disk d') st = (entries_of disk st)[k := deleted_entry (entries_of disk st ! k)] \<and>
    k < length (entries_of disk st) \<and> wf_entry (entries_of disk st ! k) \<and>
    free_set (fat_table (disk d') st) lim = free_clusters disk lim st \<union> set cs \<and>
    (\<forall>other j cs' content. file_of disk lim st other j cs' content \<and> j \<noteq> k \<and> set cs \<inter> set cs' = {} \<longrightarrow>
       file_of disk lim (moved st d' b') other j cs' content)"
proof -
  note md = mountedD [OF m]
  have look: "lookup (match_file name) (root_entries (disk (dev st)) st) = Some k"
    and at: "file_at (disk (dev st)) st lim k cs content"
    using f by (simp_all add: file_of_def entries_of_def)
  obtain d' b' where w: "good d'" "bufs_ok b'" "fat_delete io name st = ret (0, moved st d' b')"
    "root_entries (disk d') st = (root_entries (disk (dev st)) st)[k := deleted_entry (root_entries (disk (dev st)) st ! k)]"
    "\<forall>x. 2 \<le> unat x \<and> unat x < lim \<longrightarrow> fat_entry (fat_table (disk d') st) x =
       (if x \<in> set cs then 0 else fat_entry (fat_table (disk (dev st)) st) x)"
    "\<forall>a. unat (data_start st) \<le> unat a \<longrightarrow> disk d' a = disk (dev st) a"
    using reliable_device.fat_delete_ok [OF md look at] unfolding moved_id by blast
  have k: "k < length (root_entries (disk (dev st)) st)" using lookup_bound [OF look] .
  have wf: "wf_entry (root_entries (disk (dev st)) st ! k)"
    by (rule reliable_device.root_entry_wf [OF md(1,2,4) k])
  have sub: "set cs \<subseteq> {c. 2 \<le> unat c \<and> unat c < lim}" using at by (simp add: file_at_def)
  have "free_set (fat_table (disk d') st) lim = free_clusters disk lim st \<union> set cs"
    using w(5) sub by (auto simp: free_set_def free_clusters_def table_of_def split: if_splits)
  moreover have "file_of disk lim (moved st d' b') other j cs' content'"
    if f': "file_of disk lim st other j cs' content'" and jk: "j \<noteq> k" and disj: "set cs \<inter> set cs' = {}"
    for other j cs' content'
  proof -
    have look': "lookup (match_file other) (root_entries (disk (dev st)) st) = Some j"
      and at': "file_at (disk (dev st)) st lim j cs' content'"
      using f' by (simp_all add: file_of_def entries_of_def)
    have "lookup (match_file other) (root_entries (disk d') st) = Some j"
      unfolding w(4) using deleted_entry_simps [OF wf]
      by (intro lookup_update_other [OF look' jk]) simp_all
    moreover have "file_at (disk d') st lim j cs' content'"
    proof (rule file_at_kept [OF md(2) at'])
      have "set cs' \<subseteq> {c. 2 \<le> unat c \<and> unat c < lim}" using at' by (simp add: file_at_def)
      then show "fat_entry (fat_table (disk d') st) c = fat_entry (fat_table (disk (dev st)) st) c"
        if "unat c < lim" "c \<in> set cs'" for c
      proof -
        have "2 \<le> unat c" "c \<notin> set cs" using that disj \<open>set cs' \<subseteq> _\<close> by auto
        then show ?thesis using w(5) that(1) by simp
      qed
      show "disk d' a = disk (dev st) a" if "unat (data_start st) \<le> unat a" for a
        using w(6) that by blast
    qed (use w(4) jk in simp_all)
    ultimately show ?thesis by simp
  qed
  ultimately show ?thesis
    using w(1-4) k wf mounted_moved [OF m w(1,2)]
    by (intro exI [of _ d'] exI [of _ b']) (auto simp: entries_of_def)
qed

section \<open>A small volume\<close>

text \<open>
  Disks held in memory meet the contract of the driver. One of them, a volume of 20 cluster
  numbers with a two-byte file and an empty one in it, is the instance at which the properties are evaluated.
\<close>

definition mem_io :: "(u32 \<Rightarrow> u8 list) block_io" where
  "mem_io = \<lparr>bread = (\<lambda>d a. (Some (d a), d)), bwrite = (\<lambda>d a bs. (True, d(a := bs)))\<rparr>"

definition mem_good :: "(u32 \<Rightarrow> u8 list) \<Rightarrow> bool" where
  "mem_good d \<longleftrightarrow> (\<forall>a. length (d a) = 512)"

interpretation mem: reliable_device mem_io mem_good "\<lambda>d. d" capacity for capacity
  by unfold_locales (auto simp: mem_io_def mem_good_def)

definition zero_sector :: "u8 list" where
  "zero_sector = replicate 512 0"

lemma length_zero_sector [simp]: "length zero_sector = 512"
  by (simp add: zero_sector_def)

definition sample_entry :: raw_dir_entry where
  "sample_entry = new_entry (bytes ''A       '') (bytes ''   '') 0 2 2"

definition empty_entry :: raw_dir_entry where
  "empty_entry = new_entry (bytes ''C       '') (bytes ''   '') 0 0 0"

definition sample_disk :: "u32 \<Rightarrow> u8 list" where
  "sample_disk = (\<lambda>_. zero_sector)
     (1 := fat_store zero_sector 2 0xFFF, 2 := fat_store zero_sector 2 0xFFF,
      3 := put_entry (put_entry zero_sector 0 sample_entry) 1 empty_entry, 4 := bytes ''hi'' @ replicate 510 0)"

definition sample_volume :: "(u32 \<Rightarrow> u8 list) fat_state" where
  "sample_volume = \<lparr>
     params = \<lparr>bytes_per_sector = 512, sectors_per_cluster = 1, reserved_sectors = 1, fat_count = 2,
               root_entry_count = 16, total_sectors_16 = 100, sectors_per_fat = 1, total_sectors_32 = 0\<rparr>,
     initialized = True, fat_start = 1, root_start = 3, data_start = 4, root_sectors = 1,
     current_dir_cluster = 0, current_path = bytes ''/'' @ replicate 255 0,
     fat_bufs = (\<lambda>_. replicate (18 * 512) 0), dev = sample_disk\<rparr>"

lemma wf_sample_entry [simp]: "wf_entry sample_entry" "wf_entry empty_entry"
  by (simp_all add: sample_entry_def empty_entry_def wf_entry_def new_entry_def bytes_def)

lemma sample_mounted: "mounted mem_io mem_good (\<lambda>d. d) 100 20 sample_volume"
proof -
  have "mem_good sample_disk"
    by (simp add: mem_good_def sample_disk_def bytes_def)
  moreover have "volume 100 20 sample_volume"
    by (simp add: volume_def sample_volume_def spf_of_def copies_of_def spc_of_def)
  ultimately show ?thesis
    using mem.reliable_device_axioms
    by (simp add: mounted_def sample_volume_def bufs_ok_def)
qed

lemma sample_root: "root_lbas sample_volume = [3]"
  by (simp add: root_lbas_def sample_volume_def)

lemma entry_zero: "i < 16 \<Longrightarrow> first_byte (dir_entry zero_sector i) = 0"
  by (simp add: first_byte_def dir_entry_def decode_entry_def zero_sector_def)

lemma sample_entries:
  "entries_of (\<lambda>d. d) sample_volume = sample_entry # empty_entry # map (dir_entry zero_sector) [2..<16]"
proof -
  have "[0..<16] = 0 # 1 # [2..<16]" by (simp add: upt_rec)
  then show ?thesis
    using dir_entry_put [of sample_entry zero_sector 0]
      dir_entry_put [of empty_entry "put_entry zero_sector 0 sample_entry" 1]
    by (simp add: entries_of_def root_entries_def sample_root sector_entries_def)
      (simp add: sample_volume_def sample_disk_def sector_entries_def)
qed

lemma sample_table: "table_of (\<lambda>d. d) sample_volume = fat_store zero_sector 2 0xFFF"
  by (simp add: table_of_def fat_table_def image_def sample_volume_def spf_of_def sample_disk_def)

lemma in_fat_sector: "unat c < 340 \<Longrightarrow> in_fat zero_sector c"
  by (simp add: in_fat_def fat_offset_def)

lemma sample_table_entry:
  assumes "unat c < 340"
  shows "fat_entry (fat_store zero_sector 2 0xFFF) c = (if c = 2 then 0xFFF else 0)"
proof -
  have "fat_offset c + 1 < 512" using in_fat_sector [OF assms] by (simp add: in_fat_def)
  then have "fat_entry zero_sector c = 0"
    by (simp add: fat_entry_def zero_sector_def Let_def)
  then show ?thesis
    using fat_entry_store [OF in_fat_sector in_fat_sector [OF assms], of 2 "0xFFF"] by simp
qed

lemma sample_free: "free_clusters (\<lambda>d. d) 20 sample_volume = {c. 3 \<le> unat c \<and> unat c < 20}"
proof -
  have "(2 \<le> unat c \<and> unat c < 20 \<and> fat_entry (fat_store zero_sector 2 0xFFF) c = 0) \<longleftrightarrow>
    3 \<le> unat c \<and> unat c < 20" for c :: u16
  proof -
    have "c = 2 \<longleftrightarrow> unat c = 2" by (simp add: word_unat_eq_iff)
    then show ?thesis using sample_table_entry [of c] by auto
  qed
  then show ?thesis by (simp add: free_clusters_def free_set_def sample_table)
qed

lemma sample_room: "1 \<le> card (free_clusters (\<lambda>d. d) 20 sample_volume)"
proof -
  have "(3 :: u16) \<in> free_clusters (\<lambda>d. d) 20 sample_volume" by (simp add: sample_free)
  moreover have "finite (free_clusters (\<lambda>d. d) 20 sample_volume)" by simp
  ultimately show ?thesis by (metis One_nat_def Suc_leI card_gt_0_iff empty_iff)
qed

lemma sample_first:
  "first_byte sample_entry = 0x41" "entry_name sample_entry = bytes ''A''"
  "first_byte empty_entry = 0x43" "entry_name empty_entry = bytes ''C''"
  by (simp_all add: first_byte_def sample_entry_def empty_entry_def new_entry_def bytes_def entry_name_def
      make_name_def cstr_def Let_def)

lemma sample_match:
  "match_file name sample_entry \<longleftrightarrow> k_strcmp_nocase (bytes ''A'') name = 0"
  "match_file name empty_entry \<longleftrightarrow> k_strcmp_nocase (bytes ''C'') name = 0"
  using sample_first
  by (simp_all add: match_file_def is_file_def) (simp_all add: sample_entry_def empty_entry_def new_entry_def)

lemma zero_tail: "map (dir_entry zero_sector) [2..<16] = dir_entry zero_sector 2 # map (dir_entry zero_sector) [3..<16]"
  by (simp add: upt_rec)

lemma sample_lookup:
  "lookup (match_file name) (entries_of (\<lambda>d. d) sample_volume) =
     (if k_strcmp_nocase (bytes ''A'') name = 0 then Some 0
      else if k_strcmp_nocase (bytes ''C'') name = 0 then Some 1 else None)"
  using sample_first
  by (simp add: sample_entries sample_match zero_tail entry_zero)

lemma sample_slot: "slot (entries_of (\<lambda>d. d) sample_volume) = Some 2"
  using sample_first by (simp add: sample_entries zero_tail entry_zero)

lemma sample_fields: "dev sample_volume = sample_disk" "spc_of sample_volume = 1"
  "d_first sample_entry = 2" "d_size sample_entry = 2"
  by (simp_all add: sample_volume_def spc_of_def sample_entry_def new_entry_def)

lemma sample_views:
  "fat_table sample_disk sample_volume = fat_store zero_sector 2 0xFFF"
  "root_entries sample_disk sample_volume =
     sample_entry # empty_entry # map (dir_entry zero_sector) [2..<16]"
  using sample_table sample_entries by (simp_all add: table_of_def entries_of_def sample_fields)

lemma sample_file: "file_of (\<lambda>d. d) 20 sample_volume (bytes ''a'') 0 [2] (bytes ''hi'')"
proof -
  have "sectors_hold sample_disk (cluster_lba sample_volume 2) 1 (bytes ''hi'')"
    by (simp add: cluster_lba_def sample_volume_def sample_disk_def bytes_def)
  then have "file_at sample_disk sample_volume 20 0 [2] (bytes ''hi'')"
    by (simp add: file_at_def sample_views sample_fields sample_table_entry data_cluster_def)
      (simp add: bytes_def)
  moreover have "k_strcmp_nocase (bytes ''A'') (bytes ''a'') = 0"
    by (simp add: bytes_def k_toupper_def)
  ultimately show ?thesis by (simp add: file_of_def sample_lookup sample_fields)
qed

lemma sample_empty: "file_of (\<lambda>d. d) 20 sample_volume (bytes ''c'') 1 [] []"
proof -
  have "d_first empty_entry = 0" "d_size empty_entry = 0"
    by (simp_all add: empty_entry_def new_entry_def)
  then have "file_at sample_disk sample_volume 20 1 [] []"
    by (simp add: file_at_def sample_views)
  moreover have "k_strcmp_nocase (bytes ''A'') (bytes ''c'') \<noteq> 0" "k_strcmp_nocase (bytes ''C'') (bytes ''c'') = 0"
    by (simp_all add: bytes_def k_toupper_def)
  ultimately show ?thesis by (simp add: file_of_def sample_lookup sample_fields)
qed

lemma sample_none: "no_file (\<lambda>d. d) sample_volume (bytes ''B'')"
  by (simp add: no_file_def sample_lookup bytes_def k_toupper_def)

lemma storable_B: "storable (bytes ''B'')" and storable_A: "storable (bytes ''a'')"
  by (simp_all add: storable_def valid_83_def bytes_def)

lemma sample_unique:
  "\<forall>j < length (entries_of (\<lambda>d. d) sample_volume). j \<noteq> 0 \<longrightarrow>
     \<not> match_file (bytes ''a'') (entries_of (\<lambda>d. d) sample_volume ! j)"
proof (intro allI impI)
  fix j assume j: "j < length (entries_of (\<lambda>d. d) sample_volume)" "j \<noteq> 0"
  then have j16: "j < 16" by (simp add: sample_entries)
  show "\<not> match_file (bytes ''a'') (entries_of (\<lambda>d. d) sample_volume ! j)"
  proof (cases "j = 1")
    case True
    then show ?thesis by (simp add: sample_entries sample_match bytes_def k_toupper_def)
  next
    case False
    then obtain i where i: "j = Suc (Suc i)" using j(2) by (cases j; cases "j - 1") auto
    then have "entries_of (\<lambda>d. d) sample_volume ! j = dir_entry zero_sector j"
      using j16 by (simp add: sample_entries del: upt_rec_numeral)
    moreover have "entry_name (dir_entry zero_sector j) = []"
      using j16 by (simp add: entry_name_def dir_entry_def decode_entry_def zero_sector_def make_name_def
          cstr_def Let_def)
    ultimately show ?thesis by (simp add: match_file_def bytes_def k_toupper_def)
  qed
qed

lemma rename_file:
  assumes "mounted io good disk capacity lim st" and "file_of disk lim st old k cs content"
    and "storable new" and "no_file disk st new"
  obtains d b e where "mounted io good disk capacity lim (moved st d b)"
    "fat_rename io old new st = ret (0, moved st d b)" "file_of disk lim (moved st d b) new k cs content"
    "root_entries (disk d) st = (entries_of disk st)[k := e]" "entry_name e = stored_name new"
    "k < length (entries_of disk st)"
proof -
  note md = mountedD [OF assms(1)]
  let ?es = "root_entries (disk (dev st)) st"
  have look: "lookup (match_file old) ?es = Some k" and at: "file_at (disk (dev st)) st lim k cs content"
    using assms(2) by (simp_all add: file_of_def entries_of_def)
  obtain n x where nx: "split_83 new = (n, x)" by (cases "split_83 new")
  let ?e = "(?es ! k)\<lparr>d_name := n, d_ext := x\<rparr>"
  obtain d b where w: "good d" "bufs_ok b" "fat_rename io old new st = ret (0, moved st d b)"
    "root_entries (disk d) st = ?es[k := ?e]"
    "\<forall>a. a \<notin> set (root_lbas st) \<longrightarrow> disk d a = disk (dev st) a"
    using reliable_device.fat_rename_ok [OF md look nx] unfolding moved_id by blast
  have k: "k < length ?es" using lookup_bound [OF look] .
  have e: "match_file new ?e" "first_byte ?e \<noteq> 0"
    using match_new_entry [OF assms(3) nx] look
    by (auto simp: lookup_Some match_file_def is_file_def first_byte_def entry_name_def new_entry_def)
  have before: "\<forall>j < k. first_byte (?es ! j) \<noteq> 0" using look by (simp add: lookup_Some)
  have "\<not> match_file new (?es ! j)" if "j < k" for j
    using assms(4) k before that
    by (intro lookup_None_before [of _ ?es k]) (simp_all add: no_file_def entries_of_def)
  then have look': "lookup (match_file new) (root_entries (disk d) st) = Some k"
    unfolding w(4) using k before e by (simp add: lookup_Some)
  have "file_at (disk d) st lim k cs content"
  proof -
    have "file_at (disk d) st lim k cs content \<longleftrightarrow> file_data (disk d) st cs content"
      using at w(4) k reliable_device.table_kept(1) [OF md(1,2) w(5)] by (simp add: file_at_def)
    moreover have "file_data (disk d) st cs content"
    proof (rule file_data_cong)
      have sub: "set cs \<subseteq> {c. 2 \<le> unat c \<and> unat c < lim}" using at by (simp add: file_at_def)
      show "file_data (disk (dev st)) st cs content" using at by (simp add: file_at_def)
      show "disk d a = disk (dev st) a" if "\<not> outside st cs a" for a
        using reliable_device.table_kept(2) [OF md(1,2) w(5)] data_region [OF md(2) sub that] by blast
      show "unat (cluster_lba st c) + spc_of st \<le> 2 ^ 32 - 1" if "c \<in> set cs" for c
        using cluster_cap(2) [OF md(2)] sub that by blast
    qed
    ultimately show ?thesis by simp
  qed
  then have "file_of disk lim (moved st d b) new k cs content" using look' by simp
  moreover have "entry_name ?e = stored_name new" by (simp add: entry_name_def stored_name_def nx)
  ultimately show thesis using w(3,4) k mounted_moved [OF assms(1) w(1,2)] by (intro that [of d b ?e]) (simp_all add: entries_of_def)
qed

section \<open>Properties\<close>

text \<open>
  Property C1: writing and reading back. On a mounted volume, \<^verbatim>\<open>fat_write\<close> of a new file with
  a valid 8.3 name, a free directory slot and enough free clusters returns 0, and a following
  \<^verbatim>\<open>fat_read\<close> of that name returns the number of bytes that fit the caller's buffer and fills
  exactly those bytes of it with the data written.
\<close>

theorem write_then_read:
  assumes "mounted io good disk capacity lim st" and "storable name" and "no_file disk st name"
    and "slot (entries_of disk st) \<noteq> None"
    and "unat sz = length data" and "length data < 2 ^ 31"
    and "length data \<le> card (free_clusters disk lim st) * (512 * spc_of st)"
    and "unat buf_size \<le> length buf"
  shows "\<exists>st1 st2. fat_write io name data sz st = ret (0, st1) \<and>
    fat_read io name buf buf_size st1 =
      ret (int (min (length data) (unat buf_size)),
           splice buf 0 (take (min (length data) (unat buf_size)) data), st2)"
proof -
  obtain st1 k cs where w: "mounted io good disk capacity lim st1"
    "fat_write io name data sz st = ret (0, st1)" "file_of disk lim st1 name k cs data"
    using write_new [OF assms(1-7)] by blast
  show ?thesis using w(2) read_file [OF w(1,3) assms(8)] by blast
qed

text \<open>
  Property C2: a write does not disturb other files. After the write of a new file, every file
  that could be read before, under a name that does not match the new one, is read with the
  same content.
\<close>

theorem write_keeps_other_files:
  assumes "mounted io good disk capacity lim st" and "storable name" and "no_file disk st name"
    and "slot (entries_of disk st) \<noteq> None"
    and "unat sz = length data" and "length data < 2 ^ 31"
    and "length data \<le> card (free_clusters disk lim st) * (512 * spc_of st)"
    and "file_of disk lim st other k cs content" and "k_strcmp_nocase (stored_name name) other \<noteq> 0"
    and "unat buf_size \<le> length buf"
  shows "\<exists>st1 st2. fat_write io name data sz st = ret (0, st1) \<and>
    fat_read io other buf buf_size st1 =
      ret (int (min (length content) (unat buf_size)),
           splice buf 0 (take (min (length content) (unat buf_size)) content), st2)"
proof -
  obtain st1 where w: "mounted io good disk capacity lim st1"
    "fat_write io name data sz st = ret (0, st1)" "file_of disk lim st1 other k cs content"
    using write_new [OF assms(1-7)] assms(8,9) by blast
  show ?thesis using w(2) read_file [OF w(1,3) assms(10)] by blast
qed

text \<open>
  Property C4: deleting a file. If the name is unique in the directory, \<^verbatim>\<open>fat_delete\<close> returns
  0, a following \<^verbatim>\<open>fat_read\<close> does not find the file, and exactly the file's clusters have
  become free.
\<close>

theorem delete_then_read:
  assumes "mounted io good disk capacity lim st" and "file_of disk lim st name k cs content"
    and "\<forall>j < length (entries_of disk st). j \<noteq> k \<longrightarrow> \<not> match_file name (entries_of disk st ! j)"
  shows "\<exists>st1 st2. fat_delete io name st = ret (0, st1) \<and>
    fat_read io name buf buf_size st1 = ret (-1, buf, st2) \<and>
    free_clusters disk lim st1 = free_clusters disk lim st \<union> set cs"
proof -
  obtain d b where w: "mounted io good disk capacity lim (moved st d b)"
    "fat_delete io name st = ret (0, moved st d b)"
    "root_entries (disk d) st = (entries_of disk st)[k := deleted_entry (entries_of disk st ! k)]"
    "k < length (entries_of disk st)" "wf_entry (entries_of disk st ! k)"
    "free_set (fat_table (disk d) st) lim = free_clusters disk lim st \<union> set cs"
    using delete_file [OF assms(1,2)] by blast
  have "no_file disk (moved st d b) name"
    unfolding views_moved w(3) using assms(3) w(4,5)
    by (intro lookup_no_match) (auto simp: nth_list_update deleted_entry_simps)
  then show ?thesis using w(2,6) read_missing [OF w(1)] by fastforce
qed

text \<open>
  Property C5: deleting a file keeps the others. A file at another directory entry that shares
  no cluster with the deleted one is read with the same content afterwards.
\<close>

theorem delete_keeps_other_files:
  assumes "mounted io good disk capacity lim st" and "file_of disk lim st name k cs content"
    and "file_of disk lim st other j cs' content'" and "j \<noteq> k" and "set cs \<inter> set cs' = {}"
    and "unat buf_size \<le> length buf"
  shows "\<exists>st1 st2. fat_delete io name st = ret (0, st1) \<and>
    fat_read io other buf buf_size st1 =
      ret (int (min (length content') (unat buf_size)),
           splice buf 0 (take (min (length content') (unat buf_size)) content'), st2)"
proof -
  obtain d b where w: "mounted io good disk capacity lim (moved st d b)"
    "fat_delete io name st = ret (0, moved st d b)" "file_of disk lim (moved st d b) other j cs' content'"
    using delete_file [OF assms(1,2)] assms(3-5) by blast
  show ?thesis using w(2) read_file [OF w(1,3) assms(6)] by blast
qed

text \<open>
  Property C3: overwriting. \<^verbatim>\<open>fat_write\<close> to the unique existing file of that name replaces its
  content; the old file's clusters count as room for the new one.
\<close>

theorem overwrite_then_read:
  assumes "mounted io good disk capacity lim st" and "storable name"
    and "file_of disk lim st name k cs content"
    and "\<forall>j < length (entries_of disk st). j \<noteq> k \<longrightarrow> \<not> match_file name (entries_of disk st ! j)"
    and "unat sz = length data" and "length data < 2 ^ 31"
    and "length data \<le> card (free_clusters disk lim st \<union> set cs) * (512 * spc_of st)"
    and "unat buf_size \<le> length buf"
  shows "\<exists>st1 st2. fat_write io name data sz st = ret (0, st1) \<and>
    fat_read io name buf buf_size st1 =
      ret (int (min (length data) (unat buf_size)),
           splice buf 0 (take (min (length data) (unat buf_size)) data), st2)"
proof -
  obtain d b where w: "good d" "bufs_ok b" "fat_delete io name st = ret (0, moved st d b)"
    "root_entries (disk d) st = (entries_of disk st)[k := deleted_entry (entries_of disk st ! k)]"
    "k < length (entries_of disk st)" "wf_entry (entries_of disk st ! k)"
    "free_set (fat_table (disk d) st) lim = free_clusters disk lim st \<union> set cs"
    using delete_file [OF assms(1,3)] by blast
  have none: "lookup (match_file name) (root_entries (disk d) st) = None"
    unfolding w(4) using assms(4) w(5,6)
    by (intro lookup_no_match) (auto simp: nth_list_update deleted_entry_simps)
  obtain k' where slot: "slot (root_entries (disk d) st) = Some k'"
    unfolding w(4) using w(5) deleted_entry_simps(2) [OF w(6)]
    by (metis slot_exists length_list_update nth_list_update_eq)
  obtain d' b' cs' where m': "mounted io good disk capacity lim (moved st d' b')"
    "fat_write io name data sz st = ret (0, moved st d' b')"
    "lookup (match_file name) (root_entries (disk d') st) = Some k'" "file_at (disk d') st lim k' cs' data"
    using write_file [OF assms(1) w(3,1,2) assms(2) none slot assms(5,6)] assms(7) unfolding w(7) by blast
  then have "file_of disk lim (moved st d' b') name k' cs' data" by simp
  then show ?thesis using m'(2) read_file [OF m'(1) _ assms(8)] by blast
qed

text \<open>
  Property C6: renaming. Renaming a file to a valid 8.3 name that is not in use returns 0, the
  content is then read under the new name, and, if no other entry had the old name and the new name
  is another one (the letter case does not count), the old name is not found any more.
\<close>

theorem rename_then_read:
  assumes "mounted io good disk capacity lim st" and "file_of disk lim st old k cs content"
    and "storable new" and "no_file disk st new" and "unat buf_size \<le> length buf"
  shows "\<exists>st1 st2. fat_rename io old new st = ret (0, st1) \<and>
    fat_read io new buf buf_size st1 =
      ret (int (min (length content) (unat buf_size)),
           splice buf 0 (take (min (length content) (unat buf_size)) content), st2) \<and>
    ((\<forall>j < length (entries_of disk st). j \<noteq> k \<longrightarrow> \<not> match_file old (entries_of disk st ! j)) \<and>
       k_strcmp_nocase (stored_name new) old \<noteq> 0 \<longrightarrow>
     (\<exists>st3. fat_read io old buf buf_size st1 = ret (-1, buf, st3)))"
proof -
  obtain d b e where w: "mounted io good disk capacity lim (moved st d b)"
    "fat_rename io old new st = ret (0, moved st d b)" "file_of disk lim (moved st d b) new k cs content"
    "root_entries (disk d) st = (entries_of disk st)[k := e]" "entry_name e = stored_name new"
    "k < length (entries_of disk st)" by (rule rename_file [OF assms(1-4)])
  have "no_file disk (moved st d b) old"
    if "\<forall>j < length (entries_of disk st). j \<noteq> k \<longrightarrow> \<not> match_file old (entries_of disk st ! j)"
      "k_strcmp_nocase (stored_name new) old \<noteq> 0"
    unfolding views_moved w(4) using that w(5,6)
    by (intro lookup_no_match) (auto simp: nth_list_update match_file_def)
  then show ?thesis
    using w(2) read_file [OF w(1,3) assms(5)] read_missing [OF w(1), of old buf buf_size] by blast
qed

text \<open>
  Property C10: the listing. \<^verbatim>\<open>fat_list\<close> returns, up to \<^verbatim>\<open>max\<close>, the entries before the end mark
  that are not deleted, not a volume label and do not start with a dot, in directory order, and
  their number.
\<close>

theorem list_shows_directory:
  assumes "mounted io good disk capacity lim st"
    and "shown = take (nat max_n)
      (map list_entry (filter listed (takeWhile (\<lambda>e. first_byte e \<noteq> 0) (entries_of disk st))))"
  shows "\<exists>st'. fat_list io max_n st = ret (int (length shown), shown, st') \<and>
    disk (dev st') = disk (dev st)"
proof -
  note md = mountedD [OF assms(1)]
  obtain d b where "disk d = disk (dev st)" "fat_list io max_n st = ret (int (length shown), shown, moved st d b)"
    using reliable_device.fat_list_ok [OF md, of shown max_n] assms(2)
    unfolding moved_id listing_filter entries_of_def by blast
  then show ?thesis by (intro exI [of _ "moved st d b"]) simp
qed

text \<open>
  Property C13: mounting. When the boot sector describes a FAT12 volume with 512-byte sectors
  that fits the disk, \<^verbatim>\<open>fat_init\<close> returns 0 and leaves the state every other property
  starts from, with the layout of the FAT specification: the table behind the reserved sectors, the root
  directory behind the copies of the table, as many sectors as its entries fill, and the data
  behind it.
\<close>

theorem init_mounts:
  assumes "reliable_device io good disk capacity" and "good (dev st)" and "bufs_ok (fat_bufs st)"
    and "current_dir_cluster st = 0" and "b = parse_bpb (disk (dev st) 0)"
    and "bytes_per_sector b = 512" and "0 < sectors_per_cluster b" and "0 < fat_count b"
    and "1 \<le> unat (sectors_per_fat b)" and "unat (sectors_per_fat b) \<le> 17"
    and "2 \<le> lim" and "lim \<le> 4080" and "3 * lim \<le> 1024 * unat (sectors_per_fat b)"
    and "unat (reserved_sectors b) + unat (fat_count b) * unat (sectors_per_fat b) +
      (unat (root_entry_count b) * 32 + 511) div 512 + (lim - 2) * unat (sectors_per_cluster b)
      \<le> unat capacity"
  shows "\<exists>st'. fat_init io st = ret (0, st') \<and> mounted io good disk capacity lim st' \<and>
    disk (dev st') = disk (dev st) \<and> params st' = b \<and> initialized st' \<and>
    unat (fat_start st') = unat (reserved_sectors b) \<and>
    unat (root_start st') = unat (reserved_sectors b) + unat (fat_count b) * unat (sectors_per_fat b) \<and>
    unat (root_sectors st') = (unat (root_entry_count b) * 32 + 511) div 512 \<and>
    unat (data_start st') = unat (root_start st') + unat (root_sectors st')"
proof -
  have "1 * 1 \<le> unat (fat_count b) * unat (sectors_per_fat b)"
    using assms(8,9) by (intro mult_le_mono) (simp_all add: word_less_nat_alt)
  then have "0 < unat capacity" using assms(14) by linarith
  then have cap: "0 < capacity" by (simp add: word_less_nat_alt)
  obtain d where d: "rd_sector io 0 st = (Some (disk (dev st) 0), st\<lparr>dev := d\<rparr>)" "good d" "disk d = disk (dev st)"
    by (rule reliable_device.rd_sector_good [OF assms(1,2) cap])
  have u: "unat (ucast (w :: u16) :: u32) = unat w" for w
    using unsigned_less [where ?'a = nat, of w] by (simp add: unsigned_ucast_eq take_bit_eq_mod)
  have cl: "unat capacity < 2 ^ 32" using unsigned_less [where ?'a = nat, of capacity] by simp
  let ?fs = "ucast (reserved_sectors b) :: u32"
  let ?rs = "?fs + ucast (fat_count b) * ucast (sectors_per_fat b)"
  let ?n = "(ucast (root_entry_count b) * 32 + (ucast (bytes_per_sector b) - 1)) div ucast (bytes_per_sector b) :: u32"
  have rs: "unat ?rs = unat (reserved_sectors b) + unat (fat_count b) * unat (sectors_per_fat b)"
    using assms(14) cl by (simp add: unat_word_ariths u unat_u8_u32)
  have n: "unat ?n = (unat (root_entry_count b) * 32 + 511) div 512"
    using unsigned_less [where ?'a = nat, of "root_entry_count b"] assms(6)
    by (simp add: unat_word_ariths unat_div_distrib u)
  have ds: "unat (?rs + ?n) = unat ?rs + unat ?n"
    using assms(14) cl unfolding rs n by (subst unat_word_ariths) (simp add: rs n)
  let ?st = "st\<lparr>dev := d, params := b, fat_start := ?fs, root_start := ?rs, root_sectors := ?n,
    data_start := ?rs + ?n, initialized := True\<rparr>"
  have "fat_init io st = ret (0, ?st)"
    using assms(5,6) d(1) by (simp add: fat_init_def Let_def)
  moreover have "volume capacity lim ?st"
    using assms(7-14) ds rs n
    by (simp add: volume_def spf_of_def copies_of_def spc_of_def u word_less_nat_alt)
  ultimately show ?thesis
    using assms(1,3,4) d(2,3) ds rs n by (intro exI [of _ ?st]) (simp add: mounted_def u)
qed

text \<open>
  Property C14: before a successful \<^verbatim>\<open>fat_init\<close> every operation refuses: it returns -1 (0 for
  the capacity queries) and touches neither the disk nor the state.
\<close>

theorem unmounted_refuses:
  assumes "\<not> initialized st"
  shows "fat_cd io name st = ret (-1, st) \<and> fat_list io max_n st = ret (-1, [], st) \<and>
    fat_read io name buf buf_size st = ret (-1, buf, st) \<and> fat_write io name data sz st = ret (-1, st) \<and>
    fat_delete io name st = ret (-1, st) \<and> fat_rename io name name' st = ret (-1, st) \<and>
    fat_mkdir io name st = ret (-1, st) \<and> fat_rmdir io name st = ret (-1, st) \<and>
    fat_get_total_kb st = 0 \<and> fat_get_used_kb io st = (0, st)"
  using assms
  by (simp add: fat_cd_def fat_list_def fat_read_def fat_write_def fat_delete_def fat_rename_def
      fat_mkdir_def fat_rmdir_def fat_get_total_kb_def fat_get_used_kb_def)

text \<open>
  The search hands out clusters that have no entry on disk. The table of \<open>s\<close>
  sectors has \<open>n = 1024 * s div 3\<close> complete entries, numbers \<open>0 ..< n\<close>, but the search runs to
  \<open>n + 1\<close>. When the clusters up to \<open>n - 1\<close> are taken and the bytes behind the loaded table are
  still 0, it returns cluster \<open>n\<close>, whose entry does not lie in the sectors \<^verbatim>\<open>write_fat\<close>
  flushes: the allocation is lost, and the next operation hands the same cluster out again.
\<close>

theorem find_free_beyond_table:
  assumes "length fat_buf = 18 * 512" and "1 \<le> s" and "s \<le> 17" and "n = s * 1024 div 3"
    and "\<forall>x. 2 \<le> unat x \<and> unat x < n \<longrightarrow> fat_entry fat_buf x \<noteq> 0"
    and "fat_entry fat_buf (of_nat n) = 0"
  shows "fat_find_free_cluster fat_buf (total_clusters_of (of_nat s)) = ret (of_nat n) \<and>
    \<not> in_fat (take (512 * s) fat_buf) (of_nat n)"
proof
  have tc: "unat (total_clusters_of (of_nat s)) = n"
    using unat_total_clusters [OF assms(3)] assms(4) by simp
  have split: "s * 1024 = 3 * n + s * 1024 mod 3" "s * 1024 mod 3 < 3"
    using div_mult_mod_eq [of "s * 1024" 3] assms(4) by (simp_all add: mult.commute)
  have "n = 2 * (n div 2) + n mod 2" "n mod 2 < 2" by simp_all
  then have n: "2 \<le> n" "n \<le> 6142" "\<not> n + n div 2 + 1 < 512 * s"
    using split assms(2,3) by linarith+
  have un: "unat (of_nat n :: u16) = n" using n(2) by (simp add: unat_of_nat)
  have "unat (total_clusters_of (of_nat s)) \<le> 6142" using n(2) tc by simp
  from find_free_result [OF assms(1) this] obtain c where
    c: "fat_find_free_cluster fat_buf (total_clusters_of (of_nat s)) = ret c" and
    cc: "if c = 0 then \<forall>x. 2 \<le> unat x \<and> unat x < n + 2 \<longrightarrow> fat_entry fat_buf x \<noteq> 0
     else 2 \<le> unat c \<and> unat c < n + 2 \<and> fat_entry fat_buf c = 0 \<and>
       (\<forall>x. 2 \<le> unat x \<and> unat x < unat c \<longrightarrow> fat_entry fat_buf x \<noteq> 0)"
    unfolding tc by blast
  have "c \<noteq> 0" using cc assms(6) n(1) un by (auto split: if_splits)
  then have "unat c = n"
    using cc assms(5,6) n(1) un by (metis linorder_neqE_nat)
  then have "c = of_nat n" using un by (simp add: word_unat_eq_iff)
  then show "fat_find_free_cluster fat_buf (total_clusters_of (of_nat s)) = ret (of_nat n)"
    using c by simp
  show "\<not> in_fat (take (512 * s) fat_buf) (of_nat n)"
    using n(3) by (auto simp: in_fat_def fat_offset_def un)
qed

section \<open>The properties on the small volume\<close>

lemmas sample_bytes = bytes_def sample_fields splice_def

theorem write_then_read_witness:
  "\<exists>st1 st2. fat_write mem_io (bytes ''B'') (bytes ''data'') 4 sample_volume = ret (0, st1) \<and>
    fat_read mem_io (bytes ''B'') (replicate 8 0) 8 st1 = ret (4, bytes ''data'' @ replicate 4 0, st2)"
  using write_then_read [OF sample_mounted storable_B sample_none, of 4 "bytes ''data''" 8 "replicate 8 0"]
    sample_slot sample_room
  by (simp add: sample_bytes)

theorem write_keeps_other_files_witness:
  "\<exists>st1 st2. fat_write mem_io (bytes ''B'') (bytes ''data'') 4 sample_volume = ret (0, st1) \<and>
    fat_read mem_io (bytes ''a'') (replicate 2 0) 2 st1 = ret (2, bytes ''hi'', st2)"
proof -
  have "k_strcmp_nocase (stored_name (bytes ''B'')) (bytes ''a'') \<noteq> 0"
    using stored_name_valid [of "bytes ''B''"] storable_B by (simp add: storable_def bytes_def k_toupper_def)
  then show ?thesis
    using write_keeps_other_files [OF sample_mounted storable_B sample_none _ _ _ _ sample_file,
        of 4 "bytes ''data''" 2 "replicate 2 0"] sample_slot sample_room
    by (simp add: sample_bytes)
qed

theorem delete_then_read_witness:
  "\<exists>st1 st2. fat_delete mem_io (bytes ''a'') sample_volume = ret (0, st1) \<and>
    fat_read mem_io (bytes ''a'') [] 0 st1 = ret (-1, [], st2)"
  using delete_then_read [OF sample_mounted sample_file sample_unique, of "[]" 0] by blast

theorem delete_keeps_other_files_witness:
  "\<exists>st1 st2. fat_delete mem_io (bytes ''c'') sample_volume = ret (0, st1) \<and>
    fat_read mem_io (bytes ''a'') (replicate 2 0) 2 st1 = ret (2, bytes ''hi'', st2)"
  using delete_keeps_other_files [OF sample_mounted sample_empty sample_file, of 2 "replicate 2 0"]
  by (simp add: sample_bytes)

theorem overwrite_then_read_witness:
  "\<exists>st1 st2. fat_write mem_io (bytes ''a'') (bytes ''data'') 4 sample_volume = ret (0, st1) \<and>
    fat_read mem_io (bytes ''a'') (replicate 4 0) 4 st1 = ret (4, bytes ''data'', st2)"
proof -
  have "card (free_clusters (\<lambda>d. d) 20 sample_volume) \<le> card (free_clusters (\<lambda>d. d) 20 sample_volume \<union> set [2])"
    by (rule card_mono) auto
  then have "1 \<le> card (free_clusters (\<lambda>d. d) 20 sample_volume \<union> set [2])"
    using sample_room by linarith
  then show ?thesis
    using overwrite_then_read [OF sample_mounted storable_A sample_file sample_unique,
        of 4 "bytes ''data''" 4 "replicate 4 0"]
    by (simp add: sample_bytes)
qed

theorem rename_then_read_witness:
  "\<exists>st1 st2 st3. fat_rename mem_io (bytes ''a'') (bytes ''B'') sample_volume = ret (0, st1) \<and>
    fat_read mem_io (bytes ''B'') (replicate 2 0) 2 st1 = ret (2, bytes ''hi'', st2) \<and>
    fat_read mem_io (bytes ''a'') (replicate 2 0) 2 st1 = ret (-1, replicate 2 0, st3)"
proof -
  have "k_strcmp_nocase (stored_name (bytes ''B'')) (bytes ''a'') \<noteq> 0"
    using stored_name_valid [of "bytes ''B''"] storable_B by (simp add: storable_def bytes_def k_toupper_def)
  then show ?thesis
    using rename_then_read [OF sample_mounted sample_file storable_B sample_none, of 2 "replicate 2 0"] sample_unique
    by (auto simp: sample_bytes)
qed

theorem list_shows_directory_witness:
  "\<exists>st'. fat_list mem_io 8 sample_volume = ret (2, [list_entry sample_entry, list_entry empty_entry], st')"
proof -
  have "d_attr sample_entry = 0" "d_attr empty_entry = 0"
    by (simp_all add: sample_entry_def empty_entry_def new_entry_def)
  then have "take (nat 8) (map list_entry (filter listed (takeWhile (\<lambda>e. first_byte e \<noteq> 0)
      (entries_of (\<lambda>d. d) sample_volume)))) = [list_entry sample_entry, list_entry empty_entry]"
    by (simp add: sample_entries zero_tail entry_zero sample_first listed_def)
  then show ?thesis using list_shows_directory [OF sample_mounted, of _ 8] by fastforce
qed

definition boot_sector :: "u8 list" where
  "boot_sector = [0, 0, 0, 0, 0, 0, 0, 0, 0, 0, 0, 0, 2, 1, 1, 0, 2, 16, 0, 100, 0, 0, 1, 0] @ replicate 488 0"

theorem init_mounts_witness:
  "\<exists>st'. fat_init mem_io (sample_volume\<lparr>initialized := False, dev := (sample_disk(0 := boot_sector))\<rparr>) = ret (0, st') \<and>
    mounted mem_io mem_good (\<lambda>d. d) 100 20 st' \<and> unat (data_start st') = 4"
proof -
  define b where "b = parse_bpb boot_sector"
  have bpb: "b = \<lparr>bytes_per_sector = 512, sectors_per_cluster = 1, reserved_sectors = 1,
    fat_count = 2, root_entry_count = 16, total_sectors_16 = 100, sectors_per_fat = 1, total_sectors_32 = 0\<rparr>"
    by (simp add: b_def parse_bpb_def boot_sector_def le16_def le32_def)
  define st where "st = sample_volume\<lparr>initialized := False, dev := (sample_disk(0 := boot_sector))\<rparr>"
  have "mem_good (sample_disk(0 := boot_sector))"
    using sample_mounted by (simp add: mounted_def mem_good_def sample_fields boot_sector_def)
  then have st: "mem_good (dev st)" "bufs_ok (fat_bufs st)" "current_dir_cluster st = 0" "b = parse_bpb (dev st 0)"
    by (simp_all add: st_def sample_volume_def bufs_ok_def b_def)
  have bpb_ok: "bytes_per_sector b = 512" "0 < sectors_per_cluster b" "0 < fat_count b"
    "1 \<le> unat (sectors_per_fat b)" "unat (sectors_per_fat b) \<le> 17"
    "2 \<le> (20 :: nat)" "20 \<le> (4080 :: nat)" "3 * 20 \<le> 1024 * unat (sectors_per_fat b)"
    "unat (reserved_sectors b) + unat (fat_count b) * unat (sectors_per_fat b) +
      (unat (root_entry_count b) * 32 + 511) div 512 + (20 - 2) * unat (sectors_per_cluster b)
      \<le> unat (100 :: u32)"
    by (simp_all add: bpb)
  obtain st' where "fat_init mem_io st = ret (0, st')" "mounted mem_io mem_good (\<lambda>d. d) 100 20 st'"
    "unat (root_start st') = unat (reserved_sectors b) + unat (fat_count b) * unat (sectors_per_fat b)"
    "unat (root_sectors st') = (unat (root_entry_count b) * 32 + 511) div 512"
    "unat (data_start st') = unat (root_start st') + unat (root_sectors st')"
    using init_mounts [where disk = "\<lambda>d. d" and good = mem_good and io = mem_io and st = st and b = b
      and capacity = 100 and lim = 20, OF mem.reliable_device_axioms st bpb_ok] by blast
  then have "\<exists>st'. fat_init mem_io st = ret (0, st') \<and> mounted mem_io mem_good (\<lambda>d. d) 100 20 st' \<and> unat (data_start st') = 4"
    by (intro exI [of _ st']) (simp add: bpb)
  then show ?thesis unfolding st_def .
qed

theorem unmounted_refuses_witness:
  "fat_write mem_io (bytes ''B'') [] 0 (sample_volume\<lparr>initialized := False\<rparr>) =
     ret (-1, sample_volume\<lparr>initialized := False\<rparr>)"
  using unmounted_refuses [of "sample_volume\<lparr>initialized := False\<rparr>"] by simp

theorem find_free_beyond_table_witness:
  "fat_find_free_cluster (replicate 511 0xFF @ [0x0F] @ replicate 8704 0) (total_clusters_of 1) = ret 341 \<and>
   \<not> in_fat (take 512 (replicate 511 0xFF @ [0x0F] @ replicate 8704 0)) 341"
proof -
  let ?fb = "replicate 511 0xFF @ [0x0F] @ replicate 8704 0 :: u8 list"
  have "fat_entry ?fb x \<noteq> 0" if "2 \<le> unat x" "unat x < 341" for x
  proof (cases "unat x = 340")
    case True
    then show ?thesis by (simp add: fat_entry_def fat_offset_def nth_append)
  next
    case False
    then have "fat_offset x + 1 < 511" using that by (simp add: fat_offset_def)
    then show ?thesis by (auto simp: fat_entry_def nth_append Let_def)
  qed
  moreover have "fat_entry ?fb 341 = 0"
    by (simp add: fat_entry_def fat_offset_def nth_append)
  ultimately show ?thesis
    using find_free_beyond_table [of ?fb 1 341] by simp
qed

end
