(* ===== verification/Ports.thy ===== *)
theory Ports
  imports Prelude
begin

text \<open>
  Port I/O (\<^verbatim>\<open>memory/util.c\<close>, \<^verbatim>\<open>util.h\<close>). The four functions are single instructions whose
  effect is the hardware's, so they are a parameter: a record of operations over the state of
  the machine. Drivers are functions of this record.
\<close>

record 'm ports =
  inPortB :: "u16 \<Rightarrow> 'm \<Rightarrow> u8 \<times> 'm"
  outPortB :: "u16 \<Rightarrow> u8 \<Rightarrow> 'm \<Rightarrow> 'm"
  inPortW :: "u16 \<Rightarrow> 'm \<Rightarrow> u16 \<times> 'm"
  outPortW :: "u16 \<Rightarrow> u16 \<Rightarrow> 'm \<Rightarrow> 'm"

text \<open>A sequence of byte writes.\<close>

fun out_all :: "'m ports \<Rightarrow> (u16 \<times> u8) list \<Rightarrow> 'm \<Rightarrow> 'm" where
  "out_all P [] m = m"
| "out_all P ((port, v) # ws) m = out_all P ws (outPortB P port v m)"

lemma out_all_append: "out_all P (xs @ ys) m = out_all P ys (out_all P xs m)"
  by (induction P xs m rule: out_all.induct) simp_all

text \<open>
  \<^verbatim>\<open>memSet\<close>: \<open>count\<close> bytes from \<open>off\<close> of a buffer become \<open>val\<close>.
\<close>

definition memSet :: "u8 list \<Rightarrow> nat \<Rightarrow> u8 \<Rightarrow> u32 \<Rightarrow> u8 list run" where
  "memSet dest off val count =
     (if off + unat count \<le> length dest then ret (splice dest off (replicate (unat count) val))
      else fail OutOfBounds)"

text \<open>
  A device that records what it is sent: the instance at which the properties of drivers that
  only write ports are evaluated. Reads return 0.
\<close>

definition log_ports :: "(u16 \<times> u8) list ports" where
  "log_ports = \<lparr>inPortB = (\<lambda>p m. (0, m)), outPortB = (\<lambda>p v m. m @ [(p, v)]),
     inPortW = (\<lambda>p m. (0, m)), outPortW = (\<lambda>p v m. m)\<rparr>"

lemma out_all_log: "out_all log_ports ws m = m @ ws"
  by (induction log_ports ws m rule: out_all.induct) (simp_all add: log_ports_def)

end
