(* ===== verification/Ata.thy ===== *)
theory Ata
  imports Ports Block_Device
begin

unbundle bit_operations_syntax

text \<open>
  The disk driver, \<^verbatim>\<open>drivers/fs/ata.c\<close>: programmed I/O on the primary ATA bus. The drive
  behind the ports is the parameter \<open>P\<close>. The second half states the documented behaviour of an
  ATA drive as a locale and shows that over every such drive \<^verbatim>\<open>ata_read\<close> and
  \<^verbatim>\<open>ata_write\<close> meet the contract the file system relies on.
\<close>

section \<open>Code\<close>

record 'm ata_state =
  ata_drive :: u8
  hw :: 'm

abbreviation ATA_DATA :: u16 where "ATA_DATA \<equiv> 0x1F0"
abbreviation ATA_ERROR :: u16 where "ATA_ERROR \<equiv> 0x1F1"
abbreviation ATA_SECTOR_COUNT :: u16 where "ATA_SECTOR_COUNT \<equiv> 0x1F2"
abbreviation ATA_LBA_LOW :: u16 where "ATA_LBA_LOW \<equiv> 0x1F3"
abbreviation ATA_LBA_MID :: u16 where "ATA_LBA_MID \<equiv> 0x1F4"
abbreviation ATA_LBA_HIGH :: u16 where "ATA_LBA_HIGH \<equiv> 0x1F5"
abbreviation ATA_DRIVE_HEAD :: u16 where "ATA_DRIVE_HEAD \<equiv> 0x1F6"
abbreviation ATA_STATUS :: u16 where "ATA_STATUS \<equiv> 0x1F7"
abbreviation ATA_COMMAND :: u16 where "ATA_COMMAND \<equiv> 0x1F7"
abbreviation ATA_MASTER :: u8 where "ATA_MASTER \<equiv> 0xE0"
abbreviation ATA_SLAVE :: u8 where "ATA_SLAVE \<equiv> 0xF0"

text \<open>
  \<^verbatim>\<open>while ((inPortB(ATA_STATUS) & ATA_SR_BSY) && timeout--);\<close> from a given \<open>timeout\<close>. With
  \<open>timeout = 0\<close> the function returns -1 whatever the status is: either the decrement stops the
  loop, or \<^verbatim>\<open>timeout > 0\<close> fails.
\<close>

fun wait_bsy_from :: "'m ports \<Rightarrow> nat \<Rightarrow> 'm \<Rightarrow> int \<times> 'm" where
  "wait_bsy_from P 0 m = (case inPortB P ATA_STATUS m of (status, m') \<Rightarrow> (-1, m'))"
| "wait_bsy_from P (Suc timeout) m =
     (case inPortB P ATA_STATUS m of (status, m') \<Rightarrow>
        if status AND 0x80 \<noteq> 0 then wait_bsy_from P timeout m' else (0, m'))"

definition ata_wait_bsy :: "'m ports \<Rightarrow> 'm \<Rightarrow> int \<times> 'm" where
  "ata_wait_bsy P m = wait_bsy_from P 100000 m"

fun wait_drq_from :: "'m ports \<Rightarrow> nat \<Rightarrow> 'm \<Rightarrow> int \<times> 'm" where
  "wait_drq_from P 0 m = (-1, m)"
| "wait_drq_from P (Suc timeout) m =
     (case inPortB P ATA_STATUS m of (status, m') \<Rightarrow>
        if status AND 0x01 \<noteq> 0 then (-1, m')
        else if status AND 0x08 \<noteq> 0 then (0, m')
        else wait_drq_from P timeout m')"

definition ata_wait_drq :: "'m ports \<Rightarrow> 'm \<Rightarrow> int \<times> 'm" where
  "ata_wait_drq P m = wait_drq_from P 100000 m"

definition ata_probe :: "'m ports \<Rightarrow> u8 \<Rightarrow> 'm \<Rightarrow> int \<times> 'm" where
  "ata_probe P drive m =
     (let m = outPortB P ATA_DRIVE_HEAD drive m;
          m = ((\<lambda>m. snd (inPortB P ATA_STATUS m)) ^^ 4) m
      in case inPortB P ATA_STATUS m of
           (status, m) \<Rightarrow> (if status = 0xFF \<or> status = 0x00 then -1 else 0, m))"

definition ata_init :: "'m ports \<Rightarrow> 'm ata_state \<Rightarrow> int \<times> 'm ata_state" where
  "ata_init P st =
     (case ata_probe P ATA_SLAVE (hw st) of
        (r, m) \<Rightarrow>
          if r = 0 then (0, st\<lparr>ata_drive := ATA_SLAVE, hw := m\<rparr>)
          else case ata_probe P ATA_MASTER m of
            (r, m) \<Rightarrow>
              if r = 0 then (0, st\<lparr>ata_drive := ATA_MASTER, hw := m\<rparr>)
              else (-1, st\<lparr>hw := m\<rparr>))"

text \<open>The seven register writes that start a transfer.\<close>

definition ata_setup :: "'m ports \<Rightarrow> u8 \<Rightarrow> u32 \<Rightarrow> u8 \<Rightarrow> u8 \<Rightarrow> 'm \<Rightarrow> 'm" where
  "ata_setup P drive lba count cmd m =
     out_all P
       [(ATA_DRIVE_HEAD, drive OR ucast (drop_bit 24 lba AND 0x0F)),
        (ATA_ERROR, 0x00),
        (ATA_SECTOR_COUNT, count),
        (ATA_LBA_LOW, ucast lba),
        (ATA_LBA_MID, ucast (drop_bit 8 lba)),
        (ATA_LBA_HIGH, ucast (drop_bit 16 lba)),
        (ATA_COMMAND, cmd)] m"

text \<open>The word loops: \<open>n\<close> words to go. A word is stored low byte first.\<close>

fun read_words :: "'m ports \<Rightarrow> nat \<Rightarrow> 'm \<Rightarrow> u8 list \<times> 'm" where
  "read_words P 0 m = ([], m)"
| "read_words P (Suc n) m =
     (case inPortW P ATA_DATA m of (w, m') \<Rightarrow>
        (case read_words P n m' of (bs, m'') \<Rightarrow> (enc16 w @ bs, m'')))"

fun write_words :: "'m ports \<Rightarrow> u8 list \<Rightarrow> nat \<Rightarrow> nat \<Rightarrow> 'm \<Rightarrow> 'm" where
  "write_words P bs i 0 m = m"
| "write_words P bs i (Suc n) m = write_words P bs (i + 1) n (outPortW P ATA_DATA (le16 bs (2 * i)) m)"

text \<open>The loops over the sectors, from sector \<open>s\<close> with \<open>n\<close> to go.\<close>

fun ata_read_from :: "'m ports \<Rightarrow> nat \<Rightarrow> nat \<Rightarrow> u8 list \<Rightarrow> 'm \<Rightarrow> (int \<times> u8 list \<times> 'm) run" where
  "ata_read_from P s 0 buf m = ret (0, buf, m)"
| "ata_read_from P s (Suc n) buf m =
     (case ata_wait_bsy P m of (r, m) \<Rightarrow>
        if r \<noteq> 0 then ret (-1, buf, m)
        else case ata_wait_drq P m of (r, m) \<Rightarrow>
          if r \<noteq> 0 then ret (-1, buf, m)
          else if s * 512 + 512 \<le> length buf
          then case read_words P 256 m of (bs, m) \<Rightarrow>
            ata_read_from P (s + 1) n (splice buf (s * 512) bs) m
          else fail OutOfBounds)"

definition ata_read ::
    "'m ports \<Rightarrow> u32 \<Rightarrow> u8 \<Rightarrow> u8 list \<Rightarrow> 'm ata_state \<Rightarrow> (int \<times> u8 list \<times> 'm ata_state) run" where
  "ata_read P lba count buf st =
     (case ata_wait_bsy P (hw st) of (r, m) \<Rightarrow>
        if r \<noteq> 0 then ret (-1, buf, st\<lparr>hw := m\<rparr>)
        else bind_run (ata_read_from P 0 (unat count) buf (ata_setup P (ata_drive st) lba count 0x20 m))
          (\<lambda>(r, buf', m'). ret (r, buf', st\<lparr>hw := m'\<rparr>)))"

fun ata_write_from :: "'m ports \<Rightarrow> nat \<Rightarrow> nat \<Rightarrow> u8 list \<Rightarrow> 'm \<Rightarrow> (int \<times> 'm) run" where
  "ata_write_from P s 0 buf m = ret (0, m)"
| "ata_write_from P s (Suc n) buf m =
     (case ata_wait_bsy P m of (r, m) \<Rightarrow>
        if r \<noteq> 0 then ret (-1, m)
        else case ata_wait_drq P m of (r, m) \<Rightarrow>
          if r \<noteq> 0 then ret (-1, m)
          else if s * 512 + 512 \<le> length buf
          then let m = write_words P (take 512 (drop (s * 512) buf)) 0 256 m;
                   m = outPortB P ATA_COMMAND 0xE7 m
               in case ata_wait_bsy P m of (r, m) \<Rightarrow>
                    if r \<noteq> 0 then ret (-1, m) else ata_write_from P (s + 1) n buf m
          else fail OutOfBounds)"

definition ata_write ::
    "'m ports \<Rightarrow> u32 \<Rightarrow> u8 \<Rightarrow> u8 list \<Rightarrow> 'm ata_state \<Rightarrow> (int \<times> 'm ata_state) run" where
  "ata_write P lba count buf st =
     (case ata_wait_bsy P (hw st) of (r, m) \<Rightarrow>
        if r \<noteq> 0 then ret (-1, st\<lparr>hw := m\<rparr>)
        else bind_run (ata_write_from P 0 (unat count) buf (ata_setup P (ata_drive st) lba count 0x30 m))
          (\<lambda>(r, m'). ret (r, st\<lparr>hw := m'\<rparr>)))"

section \<open>Waiting\<close>

text \<open>The status bytes of successive reads.\<close>

fun status_at :: "'m ports \<Rightarrow> nat \<Rightarrow> 'm \<Rightarrow> u8" where
  "status_at P 0 m = fst (inPortB P ATA_STATUS m)"
| "status_at P (Suc n) m = status_at P n (snd (inPortB P ATA_STATUS m))"

lemma wait_bsy_from_iff:
  "fst (wait_bsy_from P n m) = 0 \<longleftrightarrow> (\<exists>i < n. status_at P i m AND 0x80 = 0)"
proof (induction P n m rule: wait_bsy_from.induct)
  case (2 P n m)
  obtain s m' where r: "inPortB P ATA_STATUS m = (s, m')" by (cases "inPortB P ATA_STATUS m")
  have "(\<exists>i < Suc n. status_at P i m AND 0x80 = 0) \<longleftrightarrow>
    s AND 0x80 = 0 \<or> (\<exists>i < n. status_at P i m' AND 0x80 = 0)"
    using r by (simp add: Ex_less_Suc2)
  then show ?case using 2 [OF r [symmetric]] r by auto
qed (auto split: prod.split)

lemma wait_bsy_from_range: "fst (wait_bsy_from P n m) = 0 \<or> fst (wait_bsy_from P n m) = -1"
  by (induction P n m rule: wait_bsy_from.induct) (auto split: prod.split)

text \<open>
  Property C15: the busy wait always ends, and returns 0 exactly when one of the first 100000
  status reads shows BSY clear.
\<close>

theorem ata_wait_bsy_result:
  "fst (ata_wait_bsy P m) = (if \<exists>i < 100000. status_at P i m AND 0x80 = 0 then 0 else -1)"
  using wait_bsy_from_iff [of P 100000 m] wait_bsy_from_range [of P 100000 m]
  by (auto simp: ata_wait_bsy_def)

section \<open>The drive\<close>

definition ata_io :: "'m ports \<Rightarrow> 'm ata_state block_io" where
  "ata_io P = \<lparr>
     bread = (\<lambda>d lba. case ata_read P lba 1 (replicate 512 0) d of
       Some (Inr (r, buf, d')) \<Rightarrow> (if r = 0 then Some buf else None, d') | _ \<Rightarrow> (None, d)),
     bwrite = (\<lambda>d lba bs. case ata_write P lba 1 bs d of
       Some (Inr (r, d')) \<Rightarrow> (r = 0, d') | _ \<Rightarrow> (False, d))\<rparr>"

datatype ata_phase = Idle | Reading "u16 list" | Writing u32 "u16 list"

definition reg_lba :: "(u16 \<Rightarrow> u8) \<Rightarrow> u32" where
  "reg_lba r = ucast (r ATA_LBA_LOW) OR push_bit 8 (ucast (r ATA_LBA_MID)) OR
     push_bit 16 (ucast (r ATA_LBA_HIGH)) OR push_bit 24 (ucast (r ATA_DRIVE_HEAD AND 0x0F))"

fun words_of :: "u8 list \<Rightarrow> u16 list" where
  "words_of (a # b # bs) = le16 [a, b] 0 # words_of bs"
| "words_of bs = []"

definition bytes_of :: "u16 list \<Rightarrow> u8 list" where
  "bytes_of ws = concat (map enc16 ws)"

text \<open>The driver has found the drive, which is idle and holds 512-byte sectors.\<close>

definition drive_ready ::
    "('m \<Rightarrow> ata_phase) \<Rightarrow> ('m \<Rightarrow> u32 \<Rightarrow> u8 list) \<Rightarrow> u32 \<Rightarrow> u8 \<Rightarrow> 'm ata_state \<Rightarrow> bool" where
  "drive_ready phase media capacity drive d \<longleftrightarrow> ata_drive d = drive \<and> phase (hw d) = Idle \<and>
     (\<forall>a < capacity. length (media (hw d) a) = 512)"

text \<open>
  The ATA protocol as the drive sees it. \<open>latency\<close> is the number of status reads that will
  still show BSY; the drive answers within the driver's 100000 polls. A transfer moves 256
  words with BSY clear and DRQ set; a write reaches the media with its last word.
\<close>

locale pio_drive =
  fixes P :: "'m ports" and phase :: "'m \<Rightarrow> ata_phase" and regs :: "'m \<Rightarrow> u16 \<Rightarrow> u8"
    and latency :: "'m \<Rightarrow> nat" and media :: "'m \<Rightarrow> u32 \<Rightarrow> u8 list" and capacity :: u32 and drive :: u8
  assumes drive_select: "drive = ATA_MASTER \<or> drive = ATA_SLAVE"
    and lba28: "unat capacity \<le> 2 ^ 28"
    and latency_bound: "latency m < 100000"
    and status: "inPortB P ATA_STATUS m = (s, m') \<Longrightarrow>
      phase m' = phase m \<and> regs m' = regs m \<and> media m' = media m \<and> latency m' = latency m - 1 \<and>
      (0 < latency m \<longrightarrow> s AND 0x80 \<noteq> 0) \<and>
      (latency m = 0 \<longrightarrow> s AND 0x80 = 0 \<and> s AND 0x01 = 0 \<and> (phase m \<noteq> Idle \<longrightarrow> s AND 0x08 \<noteq> 0))"
    and register: "phase m = Idle \<Longrightarrow>
      port \<in> {ATA_ERROR, ATA_SECTOR_COUNT, ATA_LBA_LOW, ATA_LBA_MID, ATA_LBA_HIGH, ATA_DRIVE_HEAD} \<Longrightarrow>
      phase (outPortB P port b m) = Idle \<and> regs (outPortB P port b m) = (regs m)(port := b) \<and>
      media (outPortB P port b m) = media m"
    and read_command: "phase m = Idle \<Longrightarrow> regs m ATA_SECTOR_COUNT = 1 \<Longrightarrow>
      regs m ATA_DRIVE_HEAD AND 0xF0 = drive \<Longrightarrow> reg_lba (regs m) < capacity \<Longrightarrow>
      phase (outPortB P ATA_COMMAND 0x20 m) = Reading (words_of (media m (reg_lba (regs m)))) \<and>
      media (outPortB P ATA_COMMAND 0x20 m) = media m"
    and write_command: "phase m = Idle \<Longrightarrow> regs m ATA_SECTOR_COUNT = 1 \<Longrightarrow>
      regs m ATA_DRIVE_HEAD AND 0xF0 = drive \<Longrightarrow> reg_lba (regs m) < capacity \<Longrightarrow>
      phase (outPortB P ATA_COMMAND 0x30 m) = Writing (reg_lba (regs m)) [] \<and>
      media (outPortB P ATA_COMMAND 0x30 m) = media m"
    and flush_command: "phase m = Idle \<Longrightarrow>
      phase (outPortB P ATA_COMMAND 0xE7 m) = Idle \<and> media (outPortB P ATA_COMMAND 0xE7 m) = media m"
    and read_word: "phase m = Reading (w # ws) \<Longrightarrow> latency m = 0 \<Longrightarrow> inPortW P ATA_DATA m = (v, m') \<Longrightarrow>
      v = w \<and> media m' = media m \<and> latency m' = 0 \<and> phase m' = (if ws = [] then Idle else Reading ws)"
    and write_word: "phase m = Writing a ws \<Longrightarrow> latency m = 0 \<Longrightarrow> m' = outPortW P ATA_DATA v m \<Longrightarrow>
      (if length ws = 255 then phase m' = Idle \<and> media m' = (media m)(a := bytes_of (ws @ [v]))
       else phase m' = Writing a (ws @ [v]) \<and> media m' = media m \<and> latency m' = 0)"
begin

lemma wait_bsy_ready:
  assumes "latency m < n"
  shows "\<exists>m'. wait_bsy_from P n m = (0, m') \<and> phase m' = phase m \<and> regs m' = regs m \<and>
    media m' = media m \<and> latency m' = 0"
  using assms
proof (induction n arbitrary: m)
  case (Suc n)
  obtain s m' where r: "inPortB P ATA_STATUS m = (s, m')" by (cases "inPortB P ATA_STATUS m")
  show ?case
  proof (cases "latency m = 0")
    case True
    then show ?thesis using status [OF r] r by simp
  next
    case False
    then have "latency m' < n" using status [OF r] Suc.prems by simp
    then show ?thesis using Suc.IH [of m'] status [OF r] r False by simp
  qed
qed simp

lemma ata_wait_bsy_ready:
  "\<exists>m'. ata_wait_bsy P m = (0, m') \<and> phase m' = phase m \<and> regs m' = regs m \<and> media m' = media m \<and> latency m' = 0"
  unfolding ata_wait_bsy_def by (rule wait_bsy_ready [OF latency_bound])

lemma ata_wait_drq_ready:
  assumes "phase m \<noteq> Idle" "latency m = 0"
  shows "\<exists>m'. ata_wait_drq P m = (0, m') \<and> phase m' = phase m \<and> regs m' = regs m \<and> media m' = media m \<and> latency m' = 0"
proof -
  obtain s m' where r: "inPortB P ATA_STATUS m = (s, m')" by (cases "inPortB P ATA_STATUS m")
  have "(100000 :: nat) = Suc 99999" by simp
  then show ?thesis
    unfolding ata_wait_drq_def using status [OF r] r assms by (simp only: wait_drq_from.simps) simp
qed

lemma read_words_ready:
  assumes "phase m = Reading ws" "latency m = 0" "ws \<noteq> []"
  shows "\<exists>m'. read_words P (length ws) m = (bytes_of ws, m') \<and> phase m' = Idle \<and> media m' = media m"
  using assms
proof (induction ws arbitrary: m)
  case (Cons w ws)
  obtain v m' where r: "inPortW P ATA_DATA m = (v, m')" by (cases "inPortW P ATA_DATA m")
  note st = read_word [OF Cons.prems(1,2) r]
  show ?case
  proof (cases "ws = []")
    case True
    then show ?thesis using st r by (simp add: bytes_of_def)
  next
    case False
    then show ?thesis using Cons.IH [of m'] st r by (auto simp: bytes_of_def)
  qed
qed simp

lemma write_words_ready:
  assumes "phase m = Writing a ws" "latency m = 0" "length ws + n = 256" "0 < n"
  shows "phase (write_words P bs i n m) = Idle \<and>
    media (write_words P bs i n m) = (media m)(a := bytes_of (ws @ map (\<lambda>j. le16 bs (2 * j)) [i..<i + n]))"
  using assms
proof (induction n arbitrary: i m ws)
  case (Suc n)
  let ?v = "le16 bs (2 * i)" and ?m = "outPortW P ATA_DATA (le16 bs (2 * i)) m"
  note st = write_word [OF Suc.prems(1,2) refl, of ?v]
  have upt: "[i..<i + Suc n] = i # [Suc i..<Suc i + n]" by (simp add: upt_rec)
  show ?case
  proof (cases n)
    case 0
    then show ?thesis using st Suc.prems(3) unfolding upt by simp
  next
    case (Suc k)
    then show ?thesis
      using Suc.IH [of ?m "ws @ [?v]" "Suc i"] st Suc.prems(3) unfolding upt by simp
  qed
qed simp

end

lemma bit_int_E0 [mask_bits]: "bit (0xE0 :: int) n \<longleftrightarrow> 5 \<le> n \<and> n < 8"
proof -
  have "(0xE0 :: int) = push_bit 5 (mask 3)" by (simp add: mask_eq_exp_minus_1)
  then show ?thesis by (simp only: bit_simps) auto
qed

lemma lba_bytes:
  fixes lba :: u32
  assumes "unat lba < 2 ^ 28" "drive = ATA_MASTER \<or> drive = ATA_SLAVE"
  shows "ucast (ucast lba :: u8) OR push_bit 8 (ucast (ucast (drop_bit 8 lba) :: u8)) OR
    push_bit 16 (ucast (ucast (drop_bit 16 lba) :: u8)) OR
    push_bit 24 (ucast ((drive OR ucast (drop_bit 24 lba AND 0x0F)) AND 0x0F)) = lba"
    and "(drive OR ucast (drop_bit 24 lba AND 0x0F)) AND 0xF0 = drive"
proof -
  have "unat (take_bit 28 lba) = unat lba" using assms(1) by (simp add: take_bit_eq_mod unat_mod_distrib)
  then have "take_bit 28 lba = lba" by (simp add: word_unat_eq_iff)
  then have hi: "bit lba n \<Longrightarrow> n < 28" for n by (metis bit_take_bit_iff)
  show "(drive OR ucast (drop_bit 24 lba AND 0x0F)) AND 0xF0 = drive"
    using assms(2) by (intro bit_word_eqI) (auto simp: bit_simps mask_bits)
  show "ucast (ucast lba :: u8) OR push_bit 8 (ucast (ucast (drop_bit 8 lba) :: u8)) OR
    push_bit 16 (ucast (ucast (drop_bit 16 lba) :: u8)) OR
    push_bit 24 (ucast ((drive OR ucast (drop_bit 24 lba AND 0x0F)) AND 0x0F)) = lba"
    using assms(2) by (intro bit_word_eqI) (auto simp: bit_simps mask_bits dest: hi)
qed

lemma bytes_words:
  assumes "even (length bs)" shows "bytes_of (words_of bs) = bs"
  using assms
proof (induction bs rule: words_of.induct)
  case (1 a b bs)
  have "enc16 (le16 [a, b] 0) = [a, b]"
    by (auto simp: enc16_def le16_def bit_eq_iff bit_simps dest: bit_imp_le_length)
  then show ?case using 1 by (simp add: bytes_of_def)
qed (simp_all add: bytes_of_def)

lemma length_words_of: "length (words_of bs) = length bs div 2"
  by (induction bs rule: words_of.induct) auto

lemma words_of_nth: "even (length bs) \<Longrightarrow> words_of bs = map (\<lambda>j. le16 bs (2 * j)) [0..<length bs div 2]"
proof (induction bs rule: words_of.induct)
  case (1 a b bs)
  have upt: "[0..<length (a # b # bs) div 2] = 0 # map Suc [0..<length bs div 2]"
    by (simp add: upt_conv_Cons map_Suc_upt del: upt_Suc)
  have "le16 (a # b # bs) (2 * Suc j) = le16 bs (2 * j)" for j by (simp add: le16_def)
  then show ?case using 1 unfolding upt by (simp add: le16_def comp_def)
qed simp_all

context pio_drive
begin

lemma setup_regs:
  assumes "phase m = Idle" "lba < capacity"
  shows "\<exists>m'. ata_setup P drive lba 1 cmd m = outPortB P ATA_COMMAND cmd m' \<and> phase m' = Idle \<and>
    media m' = media m \<and> regs m' ATA_SECTOR_COUNT = 1 \<and> regs m' ATA_DRIVE_HEAD AND 0xF0 = drive \<and>
    reg_lba (regs m') = lba"
proof -
  have "unat lba < 2 ^ 28" using assms(2) lba28 by (simp add: word_less_nat_alt)
  note lba = lba_bytes [OF this drive_select]
  let ?ws = "[(ATA_DRIVE_HEAD, drive OR ucast (drop_bit 24 lba AND 0x0F)), (ATA_ERROR, 0x00),
    (ATA_SECTOR_COUNT, 1), (ATA_LBA_LOW, ucast lba), (ATA_LBA_MID, ucast (drop_bit 8 lba)),
    (ATA_LBA_HIGH, ucast (drop_bit 16 lba))]"
  have "ata_setup P drive lba 1 cmd m = outPortB P ATA_COMMAND cmd (out_all P ?ws m)"
    by (simp add: ata_setup_def)
  moreover have "phase (out_all P ?ws m) = Idle \<and> media (out_all P ?ws m) = media m \<and>
    regs (out_all P ?ws m) = (regs m)(ATA_DRIVE_HEAD := drive OR ucast (drop_bit 24 lba AND 0x0F),
      ATA_ERROR := 0, ATA_SECTOR_COUNT := 1, ATA_LBA_LOW := ucast lba, ATA_LBA_MID := ucast (drop_bit 8 lba),
      ATA_LBA_HIGH := ucast (drop_bit 16 lba))"
    using assms(1) by (simp add: register)
  ultimately show ?thesis
    using lba by (intro exI [of _ "out_all P ?ws m"]) (simp add: reg_lba_def)
qed

lemma ata_read_ready:
  assumes "drive_ready phase media capacity drive d" "lba < capacity" "length buf = 512"
  shows "\<exists>m'. ata_read P lba 1 buf d = ret (0, media (hw d) lba, d\<lparr>hw := m'\<rparr>) \<and>
    phase m' = Idle \<and> media m' = media (hw d)"
proof -
  have sz: "length (media (hw d) lba) = 512" using assms by (simp add: drive_ready_def)
  obtain m1 where m1: "ata_wait_bsy P (hw d) = (0, m1)" "phase m1 = Idle" "media m1 = media (hw d)"
    using ata_wait_bsy_ready [of "hw d"] assms(1) by (auto simp: drive_ready_def)
  obtain m2 where m2: "ata_setup P drive lba 1 0x20 m1 = outPortB P ATA_COMMAND 0x20 m2" "phase m2 = Idle"
    "media m2 = media (hw d)" "regs m2 ATA_SECTOR_COUNT = 1" "regs m2 ATA_DRIVE_HEAD AND 0xF0 = drive"
    "reg_lba (regs m2) = lba"
    using setup_regs [OF m1(2) assms(2), of "0x20"] m1(3) by auto
  let ?m3 = "outPortB P ATA_COMMAND 0x20 m2" and ?ws = "words_of (media (hw d) lba)"
  have m3: "phase ?m3 = Reading ?ws" "media ?m3 = media (hw d)"
    using read_command [OF m2(2,4,5)] m2(3,6) assms(2) by simp_all
  obtain m4 where m4: "ata_wait_bsy P ?m3 = (0, m4)" "phase m4 = Reading ?ws" "media m4 = media (hw d)" "latency m4 = 0"
    using ata_wait_bsy_ready [of ?m3] m3 by auto
  obtain m5 where m5: "ata_wait_drq P m4 = (0, m5)" "phase m5 = Reading ?ws" "media m5 = media (hw d)" "latency m5 = 0"
    using ata_wait_drq_ready [of m4] m4 by auto
  have l: "length ?ws = 256" using sz by (simp add: length_words_of)
  then have "?ws \<noteq> []" by auto
  then obtain m6 where m6: "read_words P 256 m5 = (media (hw d) lba, m6)" "phase m6 = Idle" "media m6 = media (hw d)"
    using read_words_ready [OF m5(2,4)] m5(3) l sz by (auto simp: bytes_words)
  have "splice buf 0 (media (hw d) lba) = media (hw d) lba"
    using assms(3) sz by (simp add: splice_def)
  then have "ata_read P lba 1 buf d = ret (0, media (hw d) lba, d\<lparr>hw := m6\<rparr>)"
    using assms(1,3) m1(1) m2(1) m4(1) m5(1) m6(1) by (simp add: ata_read_def drive_ready_def)
  then show ?thesis using m6(2,3) by blast
qed

lemma ata_write_ready:
  assumes "drive_ready phase media capacity drive d" "lba < capacity" "length buf = 512"
  shows "\<exists>m'. ata_write P lba 1 buf d = ret (0, d\<lparr>hw := m'\<rparr>) \<and>
    phase m' = Idle \<and> media m' = (media (hw d))(lba := buf)"
proof -
  obtain m1 where m1: "ata_wait_bsy P (hw d) = (0, m1)" "phase m1 = Idle" "media m1 = media (hw d)"
    using ata_wait_bsy_ready [of "hw d"] assms(1) by (auto simp: drive_ready_def)
  obtain m2 where m2: "ata_setup P drive lba 1 0x30 m1 = outPortB P ATA_COMMAND 0x30 m2" "phase m2 = Idle"
    "media m2 = media (hw d)" "regs m2 ATA_SECTOR_COUNT = 1" "regs m2 ATA_DRIVE_HEAD AND 0xF0 = drive"
    "reg_lba (regs m2) = lba"
    using setup_regs [OF m1(2) assms(2), of "0x30"] m1(3) by auto
  let ?m3 = "outPortB P ATA_COMMAND 0x30 m2"
  have m3: "phase ?m3 = Writing lba []" "media ?m3 = media (hw d)"
    using write_command [OF m2(2,4,5)] m2(3,6) assms(2) by simp_all
  obtain m4 where m4: "ata_wait_bsy P ?m3 = (0, m4)" "phase m4 = Writing lba []" "media m4 = media (hw d)" "latency m4 = 0"
    using ata_wait_bsy_ready [of ?m3] m3 by auto
  obtain m5 where m5: "ata_wait_drq P m4 = (0, m5)" "phase m5 = Writing lba []" "media m5 = media (hw d)" "latency m5 = 0"
    using ata_wait_drq_ready [of m4] m4 by auto
  have "bytes_of (map (\<lambda>j. le16 buf (2 * j)) [0..<256]) = buf"
    using words_of_nth [of buf] bytes_words [of buf] assms(3) by simp
  then have m6: "phase (write_words P buf 0 256 m5) = Idle"
    "media (write_words P buf 0 256 m5) = (media (hw d))(lba := buf)"
    using write_words_ready [OF m5(2,4), of 256 buf 0] m5(3) by simp_all
  let ?m7 = "outPortB P ATA_COMMAND 0xE7 (write_words P buf 0 256 m5)"
  obtain m8 where m8: "ata_wait_bsy P ?m7 = (0, m8)" "phase m8 = Idle" "media m8 = (media (hw d))(lba := buf)"
    using ata_wait_bsy_ready [of ?m7] flush_command [OF m6(1)] m6(2) by auto
  have "ata_write P lba 1 buf d = ret (0, d\<lparr>hw := m8\<rparr>)"
    using assms(1,3) m1(1) m2(1) m4(1) m5(1) m8(1)
    by (simp add: ata_write_def drive_ready_def)
  then show ?thesis using m8(2,3) by blast
qed

end

sublocale pio_drive \<subseteq> ata: reliable_device "ata_io P" "drive_ready phase media capacity drive" "\<lambda>d. media (hw d)" capacity
proof unfold_locales
  fix d a
  assume d: "drive_ready phase media capacity drive d" "a < capacity"
  show "length (media (hw d) a) = 512" using d by (simp add: drive_ready_def)
  obtain m' where m': "ata_read P a 1 (replicate 512 0) d = ret (0, media (hw d) a, d\<lparr>hw := m'\<rparr>)"
    "phase m' = Idle" "media m' = media (hw d)"
    using ata_read_ready [OF d, of "replicate 512 0"] by auto
  show "drive_ready phase media capacity drive d' \<and> media (hw d') = media (hw d) \<and> (r = None \<or> r = Some (media (hw d) a))"
    if "bread (ata_io P) d a = (r, d')" for r d'
    using that m' d(1) by (auto simp: ata_io_def drive_ready_def)
  show "fst (bread (ata_io P) d a) \<noteq> None" using m' by (simp add: ata_io_def)
  fix bs :: "u8 list" assume bs: "length bs = 512"
  obtain m'' where m'': "ata_write P a 1 bs d = ret (0, d\<lparr>hw := m''\<rparr>)"
    "phase m'' = Idle" "media m'' = (media (hw d))(a := bs)"
    using ata_write_ready [OF d bs] by auto
  show "drive_ready phase media capacity drive d' \<and> (\<forall>b. b \<noteq> a \<longrightarrow> media (hw d') b = media (hw d) b) \<and>
      (ok \<longrightarrow> media (hw d') a = bs)"
    if "bwrite (ata_io P) d a bs = (ok, d')" for ok d'
    using that m'' d(1) bs by (auto simp: ata_io_def drive_ready_def)
  show "fst (bwrite (ata_io P) d a bs)" using m'' by (simp add: ata_io_def)
qed

text \<open>The driver's sector operations over a file system's device contract, composed.\<close>

text \<open>
  Property C12: sector I/O. Over every drive that follows the ATA protocol, \<^verbatim>\<open>ata_write\<close> of one
  sector returns 0 and stores it at its address and nowhere else, and a following
  \<^verbatim>\<open>ata_read\<close> of any sector returns 0 and that sector's content.
\<close>

theorem ata_write_then_read:
  assumes "pio_drive P phase regs latency media capacity drive"
    and "drive_ready phase media capacity drive d" and "lba < capacity" and "length bs = 512"
    and "lba' < capacity" and "length buf = 512"
  shows "\<exists>d1 d2. ata_write P lba 1 bs d = ret (0, d1) \<and>
    ata_read P lba' 1 buf d1 = ret (0, if lba' = lba then bs else media (hw d) lba', d2) \<and>
    media (hw d1) = (media (hw d))(lba := bs)"
proof -
  obtain m1 where m1: "ata_write P lba 1 bs d = ret (0, d\<lparr>hw := m1\<rparr>)" "phase m1 = Idle"
    "media m1 = (media (hw d))(lba := bs)"
    using pio_drive.ata_write_ready [OF assms(1-4)] by blast
  have "drive_ready phase media capacity drive (d\<lparr>hw := m1\<rparr>)"
    using assms(2,4) m1(2,3) by (simp add: drive_ready_def)
  from pio_drive.ata_read_ready [OF assms(1) this assms(5,6)] obtain m2 where
    "ata_read P lba' 1 buf (d\<lparr>hw := m1\<rparr>) = ret (0, media m1 lba', d\<lparr>hw := m2\<rparr>)" by auto
  then show ?thesis using m1 by auto
qed

section \<open>A drive\<close>

text \<open>
  A drive that follows the protocol: it is busy for three status reads after a read or write
  command and for five after a flush.
\<close>

record sim_drive =
  s_phase :: ata_phase
  s_regs :: "u16 \<Rightarrow> u8"
  s_busy :: nat
  s_media :: "u32 \<Rightarrow> u8 list"

definition sim_latency :: "sim_drive \<Rightarrow> nat" where
  "sim_latency m = min (s_busy m) 99999"

definition sim_command :: "u8 \<Rightarrow> sim_drive \<Rightarrow> sim_drive" where
  "sim_command v m =
     (if v = 0x20 then m\<lparr>s_phase := Reading (words_of (s_media m (reg_lba (s_regs m)))), s_busy := 3\<rparr>
      else if v = 0x30 then m\<lparr>s_phase := Writing (reg_lba (s_regs m)) [], s_busy := 3\<rparr>
      else m\<lparr>s_busy := 5\<rparr>)"

definition sim_ports :: "sim_drive ports" where
  "sim_ports = \<lparr>
     inPortB = (\<lambda>p m. if 0 < s_busy m then (0x80, m\<lparr>s_busy := sim_latency m - 1\<rparr>)
                     else (if s_phase m = Idle then 0x40 else 0x48, m)),
     outPortB = (\<lambda>p v m. if p = ATA_COMMAND then sim_command v m else m\<lparr>s_regs := (s_regs m)(p := v)\<rparr>),
     inPortW = (\<lambda>p m. case s_phase m of
       Reading (w # ws) \<Rightarrow> (w, m\<lparr>s_phase := if ws = [] then Idle else Reading ws\<rparr>) | _ \<Rightarrow> (0, m)),
     outPortW = (\<lambda>p v m. case s_phase m of
       Writing a ws \<Rightarrow>
         if length ws = 255 then m\<lparr>s_phase := Idle, s_media := (s_media m)(a := bytes_of (ws @ [v]))\<rparr>
         else m\<lparr>s_phase := Writing a (ws @ [v])\<rparr>
     | _ \<Rightarrow> m)\<rparr>"

interpretation sim: pio_drive sim_ports s_phase s_regs sim_latency s_media "0x10000" ATA_SLAVE
proof unfold_locales
  show "sim_latency m < 100000" for m by (simp add: sim_latency_def)
  show "s_phase m' = s_phase m \<and> s_regs m' = s_regs m \<and> s_media m' = s_media m \<and>
      sim_latency m' = sim_latency m - 1 \<and> (0 < sim_latency m \<longrightarrow> s AND 0x80 \<noteq> 0) \<and>
      (sim_latency m = 0 \<longrightarrow> s AND 0x80 = 0 \<and> s AND 0x01 = 0 \<and> (s_phase m \<noteq> Idle \<longrightarrow> s AND 0x08 \<noteq> 0))"
    if "inPortB sim_ports ATA_STATUS m = (s, m')" for m s m'
    using that by (auto simp: sim_ports_def sim_latency_def split: if_splits)
qed (auto simp: sim_ports_def sim_command_def sim_latency_def split: if_splits)

definition sim_blank :: "sim_drive ata_state" where
  "sim_blank = \<lparr>ata_drive = ATA_SLAVE, hw = \<lparr>s_phase = Idle, s_regs = (\<lambda>_. 0), s_busy = 0,
     s_media = (\<lambda>_. replicate 512 0)\<rparr>\<rparr>"

lemma sim_blank_ready: "drive_ready s_phase s_media 0x10000 ATA_SLAVE sim_blank"
  by (simp add: drive_ready_def sim_blank_def)

theorem ata_write_then_read_witness:
  "\<exists>d1 d2. ata_write sim_ports 7 1 (replicate 512 0x55) sim_blank = ret (0, d1) \<and>
    ata_read sim_ports 7 1 (replicate 512 0) d1 = ret (0, replicate 512 0x55, d2)"
  using ata_write_then_read [OF sim.pio_drive_axioms sim_blank_ready,
      of 7 "replicate 512 0x55" 7 "replicate 512 0"]
  by fastforce

end
