(* ===== verification/Console.thy ===== *)
theory Console
  imports Prelude
begin

unbundle bit_operations_syntax

text \<open>
  The text console, \<^verbatim>\<open>drivers/vga/vga.c\<close>: the screen in the video memory at
  \<^verbatim>\<open>0xC00B8000\<close>, the cursor, and \<^verbatim>\<open>print\<close> with its control characters. Every store into the
  video memory is checked against its size, so that staying on the screen is a theorem.
\<close>

section \<open>Code\<close>

record console =
  column :: u16
  line :: u16
  user_color :: u16
  currColor :: u16
  VGAWidth :: u32
  VGAHeight :: u32
  vga :: "u16 list"

definition defaultColor :: u16 where
  "defaultColor = 0x0700"

text \<open>The loops that fill and move cells: \<open>n\<close> cells from cell \<open>i\<close>.\<close>

fun fill_cells :: "nat \<Rightarrow> nat \<Rightarrow> u16 \<Rightarrow> u16 list \<Rightarrow> u16 list run" where
  "fill_cells 0 i cell v = ret v"
| "fill_cells (Suc n) i cell v =
     (if i < length v then fill_cells n (i + 1) cell (v[i := cell]) else fail OutOfBounds)"

fun copy_up :: "nat \<Rightarrow> nat \<Rightarrow> nat \<Rightarrow> u16 list \<Rightarrow> u16 list run" where
  "copy_up w 0 i v = ret v"
| "copy_up w (Suc n) i v =
     (if i + w < length v then copy_up w n (i + 1) (v[i := v ! (i + w)]) else fail OutOfBounds)"

definition Reset :: "console \<Rightarrow> console run" where
  "Reset st =
     bind_run (fill_cells (unat (VGAWidth st * VGAHeight st)) 0 (0x20 OR currColor st) (vga st))
       (\<lambda>v. ret (st\<lparr>vga := v, column := 0, line := 0\<rparr>))"

text \<open>
  The two nested loops over rows \<open>1 ..< VGAHeight\<close> and columns visit the cells in ascending
  order; the third loop blanks the last row.
\<close>

definition scrollUp :: "console \<Rightarrow> console run" where
  "scrollUp st =
     (let w = unat (VGAWidth st); last_row = (unat (VGAHeight st) - 1) * w
      in bind_run (copy_up w last_row 0 (vga st)) (\<lambda>v.
         bind_run (fill_cells w last_row (0x20 OR currColor st) v) (\<lambda>v. ret (st\<lparr>vga := v\<rparr>))))"

definition newLine :: "console \<Rightarrow> console run" where
  "newLine st =
     (if ucast (line st) < VGAHeight st - 1 then ret (st\<lparr>line := line st + 1, column := 0\<rparr>)
      else bind_run (scrollUp st) (\<lambda>st. ret (st\<lparr>column := 0\<rparr>)))"

definition reset_color :: "console \<Rightarrow> console" where
  "reset_color st = st\<lparr>currColor := defaultColor\<rparr>"

definition set_color :: "u8 \<Rightarrow> u8 \<Rightarrow> console \<Rightarrow> console" where
  "set_color fg bg st =
     (let c = push_bit 12 (ucast (bg AND 0x0F)) OR push_bit 8 (ucast (fg AND 0x0F))
      in st\<lparr>currColor := c, user_color := c\<rparr>)"

definition get_current_color :: "console \<Rightarrow> u16" where
  "get_current_color st = currColor st"

definition restore_color :: "u16 \<Rightarrow> console \<Rightarrow> console" where
  "restore_color color st = st\<lparr>currColor := color\<rparr>"

text \<open>\<^verbatim>\<open>vga[line * VGAWidth + column] = cell\<close>.\<close>

definition put_cell :: "u16 \<Rightarrow> console \<Rightarrow> console run" where
  "put_cell cell st =
     (let i = unat (ucast (line st) * VGAWidth st + ucast (column st))
      in if i < length (vga st) then ret (st\<lparr>vga := (vga st)[i := cell]\<rparr>) else fail OutOfBounds)"

fun tab_cells :: "nat \<Rightarrow> console \<Rightarrow> console run" where
  "tab_cells 0 st = ret st"
| "tab_cells (Suc n) st =
     (if ucast (column st) < VGAWidth st
      then bind_run (put_cell (0x20 OR currColor st) st)
             (\<lambda>st. tab_cells n (st\<lparr>column := column st + 1\<rparr>))
      else ret st)"

definition wrap_line :: "console \<Rightarrow> console run" where
  "wrap_line st = (if ucast (column st) \<ge> VGAWidth st then newLine st else ret st)"

text \<open>
  One turn of the loop of \<^verbatim>\<open>print\<close>. The character is a signed \<^verbatim>\<open>char\<close>, so that
  \<^verbatim>\<open>*s | currColor\<close> sign-extends it before the colour is added.
\<close>

definition print_char :: "u8 \<Rightarrow> console \<Rightarrow> console run" where
  "print_char c st =
     (if c = 0x0A then newLine st
      else if c = 0x0D then ret (st\<lparr>column := 0\<rparr>)
      else if c = 0x08 then
        (let st = (if column st = 0 \<and> line st \<noteq> 0
                   then st\<lparr>line := line st - 1, column := ucast (VGAWidth st)\<rparr> else st)
         in if column st > 0
            then put_cell (0x20 OR currColor st) (st\<lparr>column := column st - 1\<rparr>)
            else ret st)
      else if c = 0x09 then
        bind_run (wrap_line st) (\<lambda>st. tab_cells (unat (4 - column st mod 4)) st)
      else
        bind_run (wrap_line st) (\<lambda>st.
          bind_run (put_cell (scast c OR currColor st) st) (\<lambda>st.
            ret (st\<lparr>column := column st + 1\<rparr>))))"

fun print :: "u8 list \<Rightarrow> console \<Rightarrow> console run" where
  "print [] st = ret st"
| "print (c # s) st = bind_run (print_char c st) (print s)"

section \<open>The screen\<close>

text \<open>
  The cursor is on the screen, or just behind its last column, and the video memory holds the
  whole screen.
\<close>

definition console_ok :: "console \<Rightarrow> bool" where
  "console_ok st \<longleftrightarrow> 0 < unat (VGAWidth st) \<and> unat (VGAWidth st) * unat (VGAHeight st) \<le> length (vga st) \<and>
     unat (VGAWidth st) * unat (VGAHeight st) < 2 ^ 16 \<and>
     unat (line st) < unat (VGAHeight st) \<and> unat (column st) \<le> unat (VGAWidth st)"

text \<open>The frame of every operation: the size of the screen and of the memory stays.\<close>

definition same_screen :: "console \<Rightarrow> console \<Rightarrow> bool" where
  "same_screen st st' \<longleftrightarrow> VGAWidth st' = VGAWidth st \<and> VGAHeight st' = VGAHeight st \<and>
     length (vga st') = length (vga st) \<and> currColor st' = currColor st \<and> user_color st' = user_color st"

lemma same_screen_refl [simp]: "same_screen st st"
  by (simp add: same_screen_def)

lemma same_screen_trans: "same_screen a b \<Longrightarrow> same_screen b c \<Longrightarrow> same_screen a c"
  by (simp add: same_screen_def)

lemma fill_cells_splice:
  assumes "i + n \<le> length v"
  shows "fill_cells n i cell v = ret (splice v i (replicate n cell))"
  using assms
proof (induction n arbitrary: i v)
  case (Suc n)
  have "splice (v[i := cell]) (i + 1) (replicate n cell) = splice v i (replicate (Suc n) cell)"
    using Suc.prems by (simp add: splice_def take_Suc_conv_app_nth upd_conv_take_nth_drop nth_append ac_simps)
  then show ?case using Suc by simp
qed simp

lemma copy_up_splice:
  assumes "i + n + w \<le> length v" "0 < w"
  shows "copy_up w n i v = ret (splice v i (take n (drop (i + w) v)))"
  using assms
proof (induction n arbitrary: i v)
  case (Suc n)
  let ?v = "v[i := v ! (i + w)]"
  have "copy_up w (Suc n) i v = ret (splice ?v (i + 1) (take n (drop (i + 1 + w) ?v)))"
    using Suc.IH [of "i + 1" ?v] Suc.prems by simp
  also have "take n (drop (i + 1 + w) ?v) = take n (drop (i + 1 + w) v)"
    using Suc.prems(2) by simp
  also have "splice ?v (i + 1) (take n (drop (i + 1 + w) v)) = splice v i (take (Suc n) (drop (i + w) v))"
  proof -
    have "drop (i + w) v = v ! (i + w) # drop (i + 1 + w) v"
      using Suc.prems by (simp add: Cons_nth_drop_Suc)
    then show ?thesis
      using Suc.prems by (simp add: splice_def upd_conv_take_nth_drop ac_simps)
  qed
  finally show ?case .
qed simp

lemma index_bound:
  assumes "console_ok st"
  shows "unat (ucast (line st) * VGAWidth st + ucast (column st)) =
      unat (line st) * unat (VGAWidth st) + unat (column st)"
    and "unat (line st) * unat (VGAWidth st) + unat (VGAWidth st) \<le> unat (VGAWidth st) * unat (VGAHeight st)"
proof -
  have "(unat (line st) + 1) * unat (VGAWidth st) \<le> unat (VGAHeight st) * unat (VGAWidth st)"
    using assms by (intro mult_le_mono1) (simp add: console_ok_def)
  then show *: "unat (line st) * unat (VGAWidth st) + unat (VGAWidth st) \<le> unat (VGAWidth st) * unat (VGAHeight st)"
    by (simp add: algebra_simps)
  then have "unat (line st) * unat (VGAWidth st) + unat (column st) < 2 ^ 16"
    using assms by (simp add: console_ok_def)
  then show "unat (ucast (line st) * VGAWidth st + ucast (column st)) =
      unat (line st) * unat (VGAWidth st) + unat (column st)"
    by (simp add: unat_word_ariths unat_u16_u32)
qed

lemma put_cell_ok:
  assumes "console_ok st" "unat (column st) < unat (VGAWidth st)"
  shows "put_cell cell st =
    ret (st\<lparr>vga := (vga st)[unat (line st) * unat (VGAWidth st) + unat (column st) := cell]\<rparr>)"
  using assms index_bound [OF assms(1)]
  by (simp add: put_cell_def console_ok_def)

text \<open>The screen after a scroll.\<close>

definition scrolled :: "console \<Rightarrow> u16 list" where
  "scrolled st =
     (let w = unat (VGAWidth st); n = (unat (VGAHeight st) - 1) * w
      in take n (drop w (vga st)) @ replicate w (0x20 OR currColor st) @ drop (n + w) (vga st))"

lemma scrollUp_ok:
  assumes "console_ok st"
  shows "scrollUp st = ret (st\<lparr>vga := scrolled st\<rparr>)" and "length (scrolled st) = length (vga st)"
proof -
  let ?w = "unat (VGAWidth st)" and ?n = "(unat (VGAHeight st) - 1) * unat (VGAWidth st)"
  have "1 \<le> unat (VGAHeight st)" using assms by (simp add: console_ok_def)
  then have "?n + ?w = unat (VGAWidth st) * unat (VGAHeight st)"
    by (cases "unat (VGAHeight st)") (simp_all add: algebra_simps)
  then have fit: "?n + ?w \<le> length (vga st)" "0 < ?w" using assms by (simp_all add: console_ok_def)
  then have c: "copy_up ?w ?n 0 (vga st) = ret (splice (vga st) 0 (take ?n (drop ?w (vga st))))"
    using copy_up_splice [of 0 ?n ?w "vga st"] by simp
  have l: "length (take ?n (drop ?w (vga st))) = ?n" using fit by simp
  have "splice (splice (vga st) 0 (take ?n (drop ?w (vga st)))) ?n (replicate ?w cell) =
    take ?n (drop ?w (vga st)) @ replicate ?w cell @ drop (?n + ?w) (vga st)" for cell
    using fit l by (simp add: splice_def add.commute)
  then show "scrollUp st = ret (st\<lparr>vga := scrolled st\<rparr>)"
    using c fit l by (simp add: scrollUp_def Let_def fill_cells_splice scrolled_def)
  show "length (scrolled st) = length (vga st)"
    using fit l by (simp add: scrolled_def Let_def)
qed

lemma newLine_ok:
  assumes "console_ok st"
  shows "\<exists>st'. newLine st = ret st' \<and> console_ok st' \<and> same_screen st st' \<and> column st' = 0 \<and>
    (if unat (line st) + 1 < unat (VGAHeight st) then line st' = line st + 1 \<and> vga st' = vga st
     else line st' = line st \<and> vga st' = scrolled st)"
proof -
  have h: "unat (VGAHeight st - 1) = unat (VGAHeight st) - 1"
    using assms by (subst unat_sub) (simp_all add: console_ok_def word_le_nat_alt)
  have lt: "ucast (line st) < VGAHeight st - 1 \<longleftrightarrow> unat (line st) + 1 < unat (VGAHeight st)"
    unfolding word_less_nat_alt h unat_u16_u32 by auto
  have inc: "unat (line st + 1) = unat (line st) + 1" if "unat (line st) + 1 < unat (VGAHeight st)"
  proof -
    have "1 * unat (VGAHeight st) \<le> unat (VGAWidth st) * unat (VGAHeight st)"
      using assms by (intro mult_le_mono1) (simp add: console_ok_def)
    moreover have "unat (VGAWidth st) * unat (VGAHeight st) < 2 ^ 16"
      using assms by (simp add: console_ok_def)
    ultimately have "unat (line st) + 1 < 2 ^ 16" using that by linarith
    then show ?thesis by (simp add: unat_word_ariths)
  qed
  show ?thesis
    using assms scrollUp_ok [OF assms] inc
    by (auto simp: newLine_def lt console_ok_def same_screen_def)
qed

lemma wrap_line_ok:
  assumes "console_ok st"
  shows "\<exists>st'. wrap_line st = ret st' \<and> console_ok st' \<and> same_screen st st' \<and> unat (column st') < unat (VGAWidth st)"
proof (cases "unat (column st) < unat (VGAWidth st)")
  case True
  then show ?thesis
    using assms by (simp add: wrap_line_def word_le_nat_alt unat_u16_u32)
next
  case False
  then have "wrap_line st = newLine st" by (simp add: wrap_line_def word_le_nat_alt unat_u16_u32)
  then show ?thesis using newLine_ok [OF assms] assms by (auto simp: console_ok_def)
qed

lemma bit_int_FF00 [mask_bits]: "bit (0xFF00 :: int) n \<longleftrightarrow> 8 \<le> n \<and> n < 16"
proof -
  have "(0xFF00 :: int) = push_bit 8 (mask 8)" by (simp add: mask_eq_exp_minus_1)
  then show ?thesis by (simp only: bit_simps) auto
qed

lemma high_bit: "0x80 \<le> c \<Longrightarrow> bit (c :: u8) 7"
proof -
  assume "0x80 \<le> c"
  then have "128 \<le> unat c" by (simp add: word_le_nat_alt)
  moreover have "unat c < 256" using unsigned_less [where ?'a = nat, of c] by simp
  ultimately have e: "unat c div 2 ^ 7 = 1" by simp
  have "odd (unat c div 2 ^ 7)" unfolding e by simp
  then have "bit (unat c) 7" unfolding bit_iff_odd .
  then show ?thesis by (simp add: bit_unsigned_iff)
qed

lemma put_cell_good:
  assumes "console_ok st" "unat (column st) < unat (VGAWidth st)"
  shows "\<exists>st'. put_cell cell st = ret st' \<and> console_ok st' \<and> same_screen st st' \<and>
    line st' = line st \<and> column st' = column st"
  using assms put_cell_ok [OF assms, of cell] by (simp add: console_ok_def same_screen_def)

lemma column_next:
  assumes "console_ok st" "unat (column st) < unat (VGAWidth st)"
  shows "unat (column st + 1) = unat (column st) + 1" "console_ok (st\<lparr>column := column st + 1\<rparr>)"
proof -
  have "unat (VGAWidth st) * 1 \<le> unat (VGAWidth st) * unat (VGAHeight st)"
    using assms by (intro mult_le_mono2) (simp add: console_ok_def)
  moreover have "unat (VGAWidth st) * unat (VGAHeight st) < 2 ^ 16"
    using assms by (simp add: console_ok_def)
  ultimately have "unat (column st) + 1 < 2 ^ 16" using assms(2) by linarith
  then show *: "unat (column st + 1) = unat (column st) + 1" by (simp add: unat_word_ariths)
  show "console_ok (st\<lparr>column := column st + 1\<rparr>)"
    using assms * by (simp add: console_ok_def)
qed

lemma tab_cells_ok:
  assumes "console_ok st"
  shows "\<exists>st'. tab_cells n st = ret st' \<and> console_ok st' \<and> same_screen st st'"
  using assms
proof (induction n arbitrary: st)
  case (Suc n)
  show ?case
  proof (cases "unat (column st) < unat (VGAWidth st)")
    case True
    obtain st1 where st1: "put_cell (0x20 OR currColor st) st = ret st1" "console_ok st1" "same_screen st st1"
      "column st1 = column st" using put_cell_good [OF Suc.prems True] by blast
    let ?st2 = "st1\<lparr>column := column st1 + 1\<rparr>"
    have "console_ok ?st2" using column_next(2) [OF st1(2)] True st1(3,4) by (simp add: same_screen_def)
    moreover have "same_screen st ?st2" using st1(3) by (simp add: same_screen_def)
    ultimately show ?thesis
      using Suc.IH [of ?st2] st1(1) True same_screen_trans
      by (auto simp: word_less_nat_alt unat_u16_u32)
  next
    case False
    then show ?thesis using Suc.prems by (simp add: word_less_nat_alt unat_u16_u32)
  qed
qed simp

lemma width_u16:
  assumes "console_ok st" shows "unat (ucast (VGAWidth st) :: u16) = unat (VGAWidth st)"
proof -
  have "unat (VGAWidth st) * 1 \<le> unat (VGAWidth st) * unat (VGAHeight st)"
    using assms by (intro mult_le_mono2) (simp add: console_ok_def)
  moreover have "unat (VGAWidth st) * unat (VGAHeight st) < 2 ^ 16"
    using assms by (simp add: console_ok_def)
  ultimately have "unat (VGAWidth st) < 2 ^ 16" by linarith
  then show ?thesis by (simp add: unsigned_ucast_eq take_bit_eq_mod)
qed

lemma backspace_ok:
  assumes "console_ok st"
  shows "\<exists>st'. print_char 0x08 st = ret st' \<and> console_ok st' \<and> same_screen st st'"
proof -
  define s where "s = (if column st = 0 \<and> line st \<noteq> 0
    then st\<lparr>line := line st - 1, column := ucast (VGAWidth st)\<rparr> else st)"
  have dec: "unat (w - 1) = unat w - 1" if "w \<noteq> 0" for w :: u16
    using that by (subst unat_sub) (simp_all add: word_le_nat_alt word_unat_eq_iff)
  have ok: "console_ok s" and same: "same_screen st s"
    using assms width_u16 [OF assms] dec [of "line st"] by (auto simp: s_def console_ok_def same_screen_def)
  have unf: "print_char 0x08 st = (if column s > 0
      then put_cell (0x20 OR currColor s) (s\<lparr>column := column s - 1\<rparr>) else ret s)"
    by (simp add: print_char_def Let_def s_def)
  show ?thesis
  proof (cases "column s > 0")
    case True
    then have c: "unat (column s - 1) = unat (column s) - 1" "0 < unat (column s)"
      using dec [of "column s"] by (simp_all add: word_less_nat_alt word_unat_eq_iff)
    have "unat (column s) \<le> unat (VGAWidth s)" using ok by (simp add: console_ok_def)
    then have lt: "unat (column s - 1) < unat (VGAWidth s)" using c by linarith
    then have "console_ok (s\<lparr>column := column s - 1\<rparr>)"
      using ok by (simp add: console_ok_def less_imp_le)
    then obtain st' where "put_cell (0x20 OR currColor s) (s\<lparr>column := column s - 1\<rparr>) = ret st'" "console_ok st'"
      "same_screen (s\<lparr>column := column s - 1\<rparr>) st'"
      using lt put_cell_good by fastforce
    moreover have "same_screen st (s\<lparr>column := column s - 1\<rparr>)" using same by (simp add: same_screen_def)
    ultimately show ?thesis unfolding unf using True same_screen_trans by auto
  next
    case False
    then show ?thesis unfolding unf using ok same by auto
  qed
qed

lemma print_char_ok:
  assumes "console_ok st"
  shows "\<exists>st'. print_char c st = ret st' \<and> console_ok st' \<and> same_screen st st'"
proof -
  obtain w where w: "wrap_line st = ret w" "console_ok w" "same_screen st w" "unat (column w) < unat (VGAWidth w)"
    using wrap_line_ok [OF assms] by (auto simp: same_screen_def)
  consider "c = 0x0A" | "c = 0x0D" | "c = 0x08" | "c = 0x09" | "c \<notin> {0x0A, 0x0D, 0x08, 0x09}" by blast
  then show ?thesis
  proof cases
    case 1
    then show ?thesis using newLine_ok [OF assms] by (auto simp: print_char_def)
  next
    case 2
    then show ?thesis using assms by (simp add: print_char_def console_ok_def same_screen_def)
  next
    case 3
    then show ?thesis using backspace_ok [OF assms] by simp
  next
    case 4
    then show ?thesis
      using tab_cells_ok [OF w(2)] w(1,3) same_screen_trans by (fastforce simp: print_char_def)
  next
    case 5
    obtain s where s: "put_cell (scast c OR currColor w) w = ret s" "console_ok s" "same_screen w s" "column s = column w"
      using put_cell_good [OF w(2,4)] by blast
    have "console_ok (s\<lparr>column := column s + 1\<rparr>)"
      using column_next(2) [OF s(2)] w(4) s(3,4) by (simp add: same_screen_def)
    moreover have "same_screen st (s\<lparr>column := column s + 1\<rparr>)"
      using w(3) s(3) by (simp add: same_screen_def)
    ultimately show ?thesis using 5 w(1) s(1) by (simp add: print_char_def)
  qed
qed

lemma print_ok:
  assumes "console_ok st"
  shows "\<exists>st'. print s st = ret st' \<and> console_ok st' \<and> same_screen st st'"
  using assms
proof (induction s arbitrary: st)
  case (Cons c s)
  then show ?case using print_char_ok [OF Cons.prems, of c] same_screen_trans by fastforce
qed simp

lemma put_line:
  assumes "console_ok st" "unat (column st) < unat (VGAWidth st)" "c \<notin> {0x0A, 0x0D, 0x08, 0x09}"
  shows "print_char c st = ret (st\<lparr>
    vga := (vga st)[unat (line st) * unat (VGAWidth st) + unat (column st) := scast c OR currColor st],
    column := column st + 1\<rparr>)"
  using assms put_cell_ok [OF assms(1,2), of "scast c OR currColor st"]
  by (simp add: print_char_def wrap_line_def word_le_nat_alt unat_u16_u32)

definition text_cells :: "u16 \<Rightarrow> u8 list \<Rightarrow> u16 list" where
  "text_cells color s = map (\<lambda>c. scast c OR color) s"

lemma print_text_line:
  assumes "console_ok st" "set s \<inter> {0x0A, 0x0D, 0x08, 0x09} = {}"
    and "unat (column st) + length s \<le> unat (VGAWidth st)"
  shows "print s st = ret (st\<lparr>
    vga := splice (vga st) (unat (line st) * unat (VGAWidth st) + unat (column st)) (text_cells (currColor st) s),
    column := column st + of_nat (length s)\<rparr>)"
  using assms
proof (induction s arbitrary: st)
  case Nil
  then show ?case by (simp add: text_cells_def)
next
  case (Cons c s)
  let ?i = "unat (line st) * unat (VGAWidth st) + unat (column st)"
  let ?st = "st\<lparr>vga := (vga st)[?i := scast c OR currColor st], column := column st + 1\<rparr>"
  have col: "unat (column st) < unat (VGAWidth st)" using Cons.prems(3) by simp
  have c: "print_char c st = ret ?st" using Cons.prems col by (intro put_line) auto
  note nx = column_next [OF Cons.prems(1) col]
  have ok: "console_ok ?st" using nx Cons.prems(1) by (simp add: console_ok_def)
  have i: "unat (line st) * unat (VGAWidth st) + unat (column ?st) = ?i + 1" using nx(1) by simp
  have bound: "?i < length (vga st)"
    using index_bound(2) [OF Cons.prems(1)] col Cons.prems(1) by (simp add: console_ok_def)
  have "splice ((vga st)[?i := scast c OR currColor st]) (?i + 1) (text_cells (currColor st) s) =
    splice (vga st) ?i (text_cells (currColor st) (c # s))"
    using bound by (simp add: splice_def text_cells_def upd_conv_take_nth_drop take_Suc_conv_app_nth nth_append
        ac_simps)
  moreover have "print s ?st = ret (?st\<lparr>
    vga := splice (vga ?st) (unat (line ?st) * unat (VGAWidth ?st) + unat (column ?st)) (text_cells (currColor ?st) s),
    column := column ?st + of_nat (length s)\<rparr>)"
    using Cons.prems nx(1) by (intro Cons.IH [OF ok]) auto
  ultimately show ?case using c i by (simp add: ac_simps)
qed

section \<open>Properties\<close>

text \<open>
  Property C16: whatever is printed, the console stays on the screen. From a good state
  \<^verbatim>\<open>print\<close> of any bytes (control characters, tabs and backspaces at every position, scrolling
  included) never stores outside the video memory, and leaves the cursor on the screen and the
  colours and the screen size unchanged.
\<close>

theorem print_stays_on_screen:
  assumes "console_ok st"
  shows "\<exists>st'. print s st = ret st' \<and> console_ok st' \<and> same_screen st st'"
  by (rule print_ok [OF assms])

text \<open>
  Property C17: text appears at the cursor. Printing ordinary characters that fit the line
  stores exactly their cells, from the cursor on, in the current colour, and moves the cursor
  behind them.
\<close>

theorem print_text:
  assumes "console_ok st" and "set s \<inter> {0x0A, 0x0D, 0x08, 0x09} = {}"
    and "unat (column st) + length s \<le> unat (VGAWidth st)"
  shows "print s st = ret (st\<lparr>
    vga := splice (vga st) (unat (line st) * unat (VGAWidth st) + unat (column st)) (text_cells (currColor st) s),
    column := column st + of_nat (length s)\<rparr>)"
  by (rule print_text_line [OF assms])

text \<open>
  A line feed on the last line scrolls. Every cell of the screen takes the value
  of the cell one line below it, the last line becomes blank in the current colour, and nothing
  behind the screen changes; above the last line the cursor just moves down.
\<close>

theorem newline_scrolls:
  assumes "console_ok st" and "w = unat (VGAWidth st)" and "h = unat (VGAHeight st)"
  shows "\<exists>st'. print [0x0A] st = ret st' \<and> column st' = 0 \<and>
    (if unat (line st) + 1 < h then line st' = line st + 1 \<and> vga st' = vga st
     else line st' = line st \<and>
       (\<forall>i < length (vga st). vga st' ! i =
         (if i < (h - 1) * w then vga st ! (i + w)
          else if i < h * w then 0x20 OR currColor st else vga st ! i)))"
proof -
  obtain st' where st': "newLine st = ret st'" "column st' = 0"
    "if unat (line st) + 1 < h then line st' = line st + 1 \<and> vga st' = vga st
     else line st' = line st \<and> vga st' = scrolled st"
    using newLine_ok [OF assms(1)] assms(3) by auto
  have "1 \<le> h" using assms(1,3) by (simp add: console_ok_def)
  then have hw: "(h - 1) * w + w = h * w" by (cases h) simp_all
  have fit: "h * w \<le> length (vga st)" using assms by (simp add: console_ok_def mult.commute)
  let ?n = "(h - 1) * w"
  have "scrolled st ! i = (if i < ?n then vga st ! (i + w) else if i < h * w then 0x20 OR currColor st else vga st ! i)"
    if "i < length (vga st)" for i
  proof -
    have "scrolled st = take ?n (drop w (vga st)) @ replicate w (0x20 OR currColor st) @ drop (h * w) (vga st)"
      using hw assms(2,3) by (simp add: scrolled_def Let_def)
    moreover have "length (take ?n (drop w (vga st))) = ?n" using fit hw by simp
    ultimately show ?thesis
      using that hw by (auto simp: nth_append ac_simps)
  qed
  then show ?thesis using st' by (auto simp: print_char_def split: if_splits)
qed

text \<open>
  Property C18: echo and erase. The shell echoes a character and, on backspace, prints
  \<^verbatim>\<open>"\b"\<close>: the cursor is back where it was and the cell is blank, also when the character
  was put into the last column.
\<close>

theorem print_then_backspace:
  assumes "console_ok st" and "unat (column st) < unat (VGAWidth st)" and "c \<notin> {0x0A, 0x0D, 0x08, 0x09}"
  shows "print [c, 0x08] st = ret (st\<lparr>
    vga := (vga st)[unat (line st) * unat (VGAWidth st) + unat (column st) := 0x20 OR currColor st]\<rparr>)"
proof -
  let ?i = "unat (line st) * unat (VGAWidth st) + unat (column st)"
  let ?v = "(vga st)[?i := scast c OR currColor st]"
  note nx = column_next [OF assms(1,2)]
  have ok: "console_ok (st\<lparr>vga := ?v\<rparr>)" using assms(1) by (simp add: console_ok_def)
  have "put_cell (0x20 OR currColor st) (st\<lparr>vga := ?v\<rparr>) =
    ret (st\<lparr>vga := ?v[?i := 0x20 OR currColor st]\<rparr>)"
    using put_cell_ok [OF ok, of "0x20 OR currColor st"] assms(2) by simp
  moreover have "column st + 1 \<noteq> 0" using nx(1) by (auto simp: word_unat_eq_iff)
  ultimately show ?thesis
    using put_line [OF assms] by (simp add: print_char_def word_gt_0)
qed

text \<open>
  Bytes from 0x80 on lose the colour. \<^verbatim>\<open>*s\<close> is a signed \<^verbatim>\<open>char\<close>, so the
  sign-extended byte sets the whole attribute: the cell is \<^verbatim>\<open>0xFF00 | byte\<close> whatever colour
  was selected.
\<close>

theorem print_high_byte:
  assumes "console_ok st" and "unat (column st) < unat (VGAWidth st)" and "0x80 \<le> c"
    and "currColor st AND 0xFF = 0"
  shows "print [c] st = ret (st\<lparr>
    vga := (vga st)[unat (line st) * unat (VGAWidth st) + unat (column st) := 0xFF00 OR ucast c],
    column := column st + 1\<rparr>)"
proof -
  have hi: "bit c 7" by (rule high_bit [OF assms(3)])
  have low: "\<not> (n < 8 \<and> bit (currColor st) n)" for n
  proof
    assume a: "n < 8 \<and> bit (currColor st) n"
    moreover have "\<not> bit (currColor st AND 0xFF) n" using assms(4) by simp
    ultimately show False by (simp add: bit_simps mask_bits)
  qed
  have "scast c OR currColor st = 0xFF00 OR ucast c"
  proof -
    have seven: "7 \<le> n \<Longrightarrow> \<not> bit c n \<Longrightarrow> 8 \<le> n" for n using hi by (cases "n = 7") auto
    show ?thesis
      using hi low
      by (intro bit_word_eqI) (auto simp: bit_simps mask_bits min_def dest: bit_imp_le_length intro: seven)
  qed
  moreover have "c \<notin> {0x0A, 0x0D, 0x08, 0x09}" using assms(3) by auto
  ultimately show ?thesis using put_line [OF assms(1,2), of c] by simp
qed

section \<open>The properties at a concrete screen\<close>

definition blank_screen :: console where
  "blank_screen = \<lparr>column = 0, line = 0, user_color = 0, currColor = defaultColor, VGAWidth = 80,
     VGAHeight = 50, vga = replicate 4000 0x0720\<rparr>"

lemma blank_screen_ok: "console_ok blank_screen" "console_ok (blank_screen\<lparr>line := 49\<rparr>)"
  by (simp_all add: console_ok_def blank_screen_def)

theorem print_stays_on_screen_witness:
  "\<exists>st'. print (bytes ''MasterOS'') blank_screen = ret st' \<and> console_ok st'"
  using print_stays_on_screen [OF blank_screen_ok(1), of "bytes ''MasterOS''"] by blast

theorem print_text_witness:
  "\<exists>st'. print (bytes ''hi'') blank_screen = ret st' \<and> take 2 (vga st') = [0x0768, 0x0769] \<and> column st' = 2"
  using print_text [OF blank_screen_ok(1), of "bytes ''hi''"]
  by (simp add: bytes_def blank_screen_def text_cells_def splice_def defaultColor_def)

theorem newline_scrolls_witness:
  "\<exists>st'. print [0x0A] (blank_screen\<lparr>line := 49\<rparr>) = ret st' \<and> line st' = 49"
  using newline_scrolls [OF blank_screen_ok(2) refl refl] by (auto simp: blank_screen_def)

theorem print_then_backspace_witness: "print [0x41, 0x08] blank_screen = ret blank_screen"
proof -
  have "(vga blank_screen)[0 := 0x20 OR currColor blank_screen] = vga blank_screen"
    by (rule list_update_same_conv [THEN iffD2]) (simp_all add: blank_screen_def defaultColor_def)
  then show ?thesis
    using print_then_backspace [OF blank_screen_ok(1), of "0x41"] by (simp add: blank_screen_def)
qed

theorem print_high_byte_witness:
  "\<exists>st'. print [0xE9] blank_screen = ret st' \<and> hd (vga st') = 0xFFE9"
  using print_high_byte [OF blank_screen_ok(1), of "0xE9"]
  by (simp add: blank_screen_def defaultColor_def hd_conv_nth)

end
