(* ===== verification/Stdio.thy ===== *)
theory Stdio
  imports Console
begin

unbundle bit_operations_syntax

text \<open>
  Formatted output, \<^verbatim>\<open>stdlib/stdio.c\<close>: \<^verbatim>\<open>putc\<close>, \<^verbatim>\<open>puts\<close>, \<^verbatim>\<open>printHex\<close> and the state machine of
  \<^verbatim>\<open>printf\<close>. The variable arguments are the list of 32-bit words behind \<^verbatim>\<open>fmt\<close> on the stack, \<open>argp\<close>
  is an index into it, and a read past the last word is a fault. Then the reference: a format is
  a list of literals and directives, \<open>render\<close> gives the text of each, and \<^verbatim>\<open>printf\<close> prints it.
\<close>

section \<open>Characters and strings\<close>

text \<open>
  \<^verbatim>\<open>putc\<close> passes the address of its parameter to \<^verbatim>\<open>print\<close>, which reads on to the next NUL.
  What follows the character in the stack frame is not determined by the program, so it is the
  parameter \<open>rest\<close>.
\<close>

type_synonym frame = "console \<Rightarrow> u8 list"

definition putc :: "frame \<Rightarrow> u8 \<Rightarrow> console \<Rightarrow> console run" where
  "putc rest c st = print (if c = 0 then [] else c # rest st) st"

fun puts :: "frame \<Rightarrow> u8 list \<Rightarrow> console \<Rightarrow> console run" where
  "puts rest [] st = ret st"
| "puts rest (c # s) st = bind_run (putc rest c st) (puts rest s)"

definition hex_chars :: "u8 list" where
  "hex_chars = bytes ''0123456789ABCDEF''"

text \<open>The loop \<^verbatim>\<open>for (int i = 9; i >= 2; i--)\<close>; \<open>i\<close> is \<open>k + 2\<close>.\<close>

fun hex_fill :: "nat \<Rightarrow> u32 \<Rightarrow> u8 list \<Rightarrow> u8 list" where
  "hex_fill 0 n buf = buf"
| "hex_fill (Suc k) n buf =
     hex_fill k (drop_bit 4 n) (buf[k + 2 := hex_chars ! unat (n AND 0xF)])"

definition printHex :: "u32 \<Rightarrow> console \<Rightarrow> console run" where
  "printHex n st = print (hex_fill 8 n (bytes ''0x00000000'')) st"

section \<open>Numbers\<close>

datatype printf_length =
  PRINTF_LENGTH_START | PRINTF_LENGTH_SHORT_SHORT | PRINTF_LENGTH_SHORT | PRINTF_LENGTH_LONG |
  PRINTF_LENGTH_LONG_LONG

definition fetch :: "u32 list \<Rightarrow> nat \<Rightarrow> u32 run" where
  "fetch args argp = (if argp < length args then ret (args ! argp) else fail OutOfBounds)"

text \<open>
  The first \<^verbatim>\<open>switch\<close> of \<^verbatim>\<open>printf_number\<close>: the magnitude (truncated to 32 bits), whether it is
  negative, and the advanced \<open>argp\<close>. The negation of the least \<^verbatim>\<open>int\<close> wraps around.
\<close>

definition read_number ::
    "u32 list \<Rightarrow> nat \<Rightarrow> printf_length \<Rightarrow> bool \<Rightarrow> (u32 \<times> bool \<times> nat) run" where
  "read_number args argp len sign =
     (case len of
        PRINTF_LENGTH_LONG_LONG \<Rightarrow>
          if sign
          then bind_run (fetch args argp) (\<lambda>lo. bind_run (fetch args (argp + 1)) (\<lambda>hi.
                 let n = ucast lo OR push_bit 32 (ucast hi) :: u64; neg = sint n < 0
                 in ret (ucast (if neg then - n else n), neg, argp + 4)))
          else bind_run (fetch args argp) (\<lambda>n. ret (n, False, argp + 4))
      | _ \<Rightarrow>
          bind_run (fetch args argp) (\<lambda>n.
            let neg = (sign \<and> sint n < 0)
            in ret (if neg then - n else n, neg,
                    argp + (if len = PRINTF_LENGTH_LONG then 2 else 1))))"

definition possibleChars :: "u8 list" where
  "possibleChars = bytes ''0123456789abcdef''"

text \<open>
  The \<^verbatim>\<open>do\<close> loop that fills \<^verbatim>\<open>buffer\<close>, least significant digit first; \<open>room\<close> is what is left of
  its 32 bytes.
\<close>

fun fill_digits :: "u32 \<Rightarrow> nat \<Rightarrow> u32 \<Rightarrow> u8 list run" where
  "fill_digits radix 0 number = fail OutOfBounds"
| "fill_digits radix (Suc room) number =
     (let rem = number mod radix; number' = number div radix;
          c = possibleChars ! unat rem
      in if number' > 0 then bind_run (fill_digits radix room number') (\<lambda>buffer. ret (c # buffer))
         else ret [c])"

definition printf_number ::
    "frame \<Rightarrow> u32 list \<Rightarrow> nat \<Rightarrow> printf_length \<Rightarrow> bool \<Rightarrow> u32 \<Rightarrow> console \<Rightarrow> (nat \<times> console) run" where
  "printf_number rest args argp len sign radix st =
     bind_run (read_number args argp len sign) (\<lambda>(number, neg, argp').
     bind_run (fill_digits radix 32 number) (\<lambda>buffer.
       if neg \<and> length buffer \<ge> 32 then fail OutOfBounds
       else bind_run (puts rest (rev (buffer @ (if neg then [0x2D] else []))) st)
              (\<lambda>st. ret (argp', st))))"

section \<open>printf\<close>

datatype printf_state =
  PRINTF_STATE_START | PRINTF_STATE_LENGTH | PRINTF_STATE_SHORT | PRINTF_STATE_LONG |
  PRINTF_STATE_SPEC

text \<open>
  The conversion at the label \<^verbatim>\<open>PRINTF_STATE_SPEC_\<close>. \<open>str_at\<close> are the bytes in memory from an
  address. \<^verbatim>\<open>radix\<close> and \<^verbatim>\<open>sign\<close> are set by every case that uses them.
\<close>

definition printf_spec ::
    "frame \<Rightarrow> (u32 \<Rightarrow> u8 list run) \<Rightarrow> u32 list \<Rightarrow> u8 \<Rightarrow> printf_length \<Rightarrow> nat \<Rightarrow> console \<Rightarrow>
     (nat \<times> console) run" where
  "printf_spec rest str_at args c len argp st =
     (if c = 0x63 then
        bind_run (fetch args argp) (\<lambda>w. bind_run (putc rest (ucast w) st) (\<lambda>st. ret (argp + 1, st)))
      else if c = 0x73 then
        bind_run (fetch args argp) (\<lambda>w. bind_run (str_at w) (\<lambda>s.
          bind_run (puts rest (cstr s) st) (\<lambda>st.
            ret (argp + (if len = PRINTF_LENGTH_LONG \<or> len = PRINTF_LENGTH_LONG_LONG then 2 else 1), st))))
      else if c = 0x25 then bind_run (putc rest 0x25 st) (\<lambda>st. ret (argp, st))
      else if c = 0x64 \<or> c = 0x69 then printf_number rest args argp len True 10 st
      else if c = 0x75 then printf_number rest args argp len False 10 st
      else if c = 0x58 \<or> c = 0x78 \<or> c = 0x70 then printf_number rest args argp len False 16 st
      else if c = 0x6F then printf_number rest args argp len False 8 st
      else ret (argp, st))"

fun printf_from ::
    "frame \<Rightarrow> (u32 \<Rightarrow> u8 list run) \<Rightarrow> u32 list \<Rightarrow> u8 list \<Rightarrow> printf_state \<Rightarrow> printf_length \<Rightarrow> nat \<Rightarrow>
     console \<Rightarrow> console run" where
  "printf_from rest str_at args [] state len argp st = ret st"
| "printf_from rest str_at args (c # fmt) state len argp st =
     (let spec = bind_run (printf_spec rest str_at args c len argp st) (\<lambda>(argp, st).
                   printf_from rest str_at args fmt PRINTF_STATE_START PRINTF_LENGTH_START argp st)
      in case state of
        PRINTF_STATE_START \<Rightarrow>
          if c = 0x25 then printf_from rest str_at args fmt PRINTF_STATE_LENGTH len argp st
          else bind_run (putc rest c st)
                 (printf_from rest str_at args fmt PRINTF_STATE_START len argp)
      | PRINTF_STATE_LENGTH \<Rightarrow>
          if c = 0x68
          then printf_from rest str_at args fmt PRINTF_STATE_SHORT PRINTF_LENGTH_SHORT argp st
          else if c = 0x6C
          then printf_from rest str_at args fmt PRINTF_STATE_LONG PRINTF_LENGTH_LONG argp st
          else spec
      | PRINTF_STATE_SHORT \<Rightarrow>
          if c = 0x68
          then printf_from rest str_at args fmt PRINTF_STATE_SPEC PRINTF_LENGTH_SHORT_SHORT argp st
          else spec
      | PRINTF_STATE_LONG \<Rightarrow>
          if c = 0x6C
          then printf_from rest str_at args fmt PRINTF_STATE_SPEC PRINTF_LENGTH_LONG_LONG argp st
          else spec
      | PRINTF_STATE_SPEC \<Rightarrow> spec)"

definition printf :: "frame \<Rightarrow> (u32 \<Rightarrow> u8 list run) \<Rightarrow> u8 list \<Rightarrow> u32 list \<Rightarrow> console \<Rightarrow> console run" where
  "printf rest str_at fmt args st =
     printf_from rest str_at args fmt PRINTF_STATE_START PRINTF_LENGTH_START 0 st"

section \<open>Digits\<close>

text \<open>The numeral of a number in a base, most significant digit first, and its value.\<close>

definition digit_char :: "nat \<Rightarrow> u8" where
  "digit_char d = possibleChars ! d"

fun digits :: "nat \<Rightarrow> nat \<Rightarrow> u8 list" where
  "digits r n = (if n < r \<or> r < 2 then [digit_char n] else digits r (n div r) @ [digit_char (n mod r)])"

declare digits.simps [simp del]

definition digit_value :: "u8 \<Rightarrow> nat" where
  "digit_value c = (if c \<ge> 0x61 then unat c - 0x61 + 10 else unat c - 0x30)"

definition numeral_value :: "nat \<Rightarrow> u8 list \<Rightarrow> nat" where
  "numeral_value r s = foldl (\<lambda>v c. v * r + digit_value c) 0 s"

lemma digit_value_char: "d < 16 \<Longrightarrow> digit_value (digit_char d) = d"
proof -
  have "list_all (\<lambda>d. digit_value (possibleChars ! d) = d) [0..<16]"
    by code_simp
  then show "d < 16 \<Longrightarrow> digit_value (digit_char d) = d"
    by (simp add: digit_char_def list_all_iff)
qed

lemma digit_char_printable:
  assumes "d < 16"
  shows "digit_char d \<noteq> 0"
proof -
  have "list_all (\<lambda>d. possibleChars ! d \<noteq> 0) [0..<16]"
    by code_simp
  then show ?thesis using assms by (simp add: digit_char_def list_all_iff)
qed

lemma numeral_value_digits:
  assumes "2 \<le> r" and "r \<le> 16"
  shows "numeral_value r (digits r n) = n"
proof (induction n rule: less_induct)
  case (less n)
  show ?case
  proof (cases "n < r")
    case True
    then show ?thesis
      using assms by (subst digits.simps) (simp add: numeral_value_def digit_value_char)
  next
    case False
    then have "n div r < n" using assms by (simp add: div_less_dividend)
    then have "numeral_value r (digits r (n div r)) = n div r" by (rule less)
    then show ?thesis
      using False assms by (subst digits.simps) (simp add: numeral_value_def digit_value_char
        less_le_trans [OF mod_less_divisor])
  qed
qed

lemma digits_nonzero:
  assumes "2 \<le> r" and "r \<le> 16"
  shows "0 \<notin> set (digits r n)"
proof (induction n rule: less_induct)
  case (less n)
  have "n mod r < r" using assms by simp
  then have "n mod r < 16" using assms by linarith
  moreover have "n div r < n" if "\<not> n < r" using that assms by (simp add: div_less_dividend)
  ultimately show ?case
    using less assms digit_char_printable
    by (subst digits.simps) (auto dest: less_le_trans [OF _ assms(2)] simp: eq_commute [of "0 :: u8"])
qed

lemma length_digits: "2 \<le> r \<Longrightarrow> n < r ^ k \<Longrightarrow> 0 < k \<Longrightarrow> length (digits r n) \<le> k"
proof (induction k arbitrary: n)
  case 0
  then show ?case by simp
next
  case (Suc k)
  show ?case
  proof (cases "n < r")
    case True
    then show ?thesis by (subst digits.simps) simp
  next
    case False
    with Suc.prems have "0 < k" by (cases k) auto
    moreover have "n div r < r ^ k"
      using Suc.prems by (simp add: less_mult_imp_div_less mult.commute)
    ultimately have "length (digits r (n div r)) \<le> k" using Suc by blast
    then show ?thesis using False Suc.prems by (subst digits.simps) simp
  qed
qed

lemma fill_digits_digits:
  assumes "2 \<le> unat radix" and "unat radix \<le> 16"
  shows "0 < room \<Longrightarrow> unat number < unat radix ^ room \<Longrightarrow>
    fill_digits radix room number = ret (rev (digits (unat radix) (unat number)))"
proof (induction room arbitrary: number)
  case 0
  then show ?case by simp
next
  case (Suc room)
  have div: "unat (number div radix) = unat number div unat radix"
    and mod: "unat (number mod radix) = unat number mod unat radix"
    by (simp_all add: unat_div_distrib unat_mod_distrib)
  show ?case
  proof (cases "unat number < unat radix")
    case True
    then have "number div radix = 0" using div by (simp add: unat_eq_zero)
    then show ?thesis using True mod by (subst digits.simps) (simp add: digit_char_def)
  next
    case False
    then have big: "unat radix \<le> unat number" by simp
    then have "0 < unat number div unat radix" using assms by (simp add: div_greater_zero_iff)
    then have pos: "number div radix > 0" using div by (metis unat_0 word_gt_0 less_irrefl)
    have "0 < room" using Suc.prems False by (cases room) auto
    moreover have "unat (number div radix) < unat radix ^ room"
      using Suc.prems div by (simp add: less_mult_imp_div_less mult.commute)
    ultimately have "fill_digits radix room (number div radix) =
        ret (rev (digits (unat radix) (unat (number div radix))))"
      by (rule Suc.IH)
    then show ?thesis
      using pos False assms mod div
      by (subst digits.simps [of "unat radix" "unat number"]) (simp add: digit_char_def)
  qed
qed

section \<open>The text of a format\<close>

datatype directive = Lit u8 | Dir printf_length u8

fun modifier :: "printf_length \<Rightarrow> u8 list" where
  "modifier PRINTF_LENGTH_START = []"
| "modifier PRINTF_LENGTH_SHORT = [0x68]"
| "modifier PRINTF_LENGTH_SHORT_SHORT = [0x68, 0x68]"
| "modifier PRINTF_LENGTH_LONG = [0x6C]"
| "modifier PRINTF_LENGTH_LONG_LONG = [0x6C, 0x6C]"

fun unparse :: "directive \<Rightarrow> u8 list" where
  "unparse (Lit c) = [c]"
| "unparse (Dir len c) = 0x25 # modifier len @ [c]"

text \<open>The conversion character must not read as one more length modifier.\<close>

fun directive_ok :: "directive \<Rightarrow> bool" where
  "directive_ok (Lit c) \<longleftrightarrow> c \<noteq> 0 \<and> c \<noteq> 0x25"
| "directive_ok (Dir len c) \<longleftrightarrow> c \<noteq> 0 \<and>
     (len = PRINTF_LENGTH_START \<longrightarrow> c \<noteq> 0x68 \<and> c \<noteq> 0x6C) \<and>
     (len = PRINTF_LENGTH_SHORT \<longrightarrow> c \<noteq> 0x68) \<and> (len = PRINTF_LENGTH_LONG \<longrightarrow> c \<noteq> 0x6C)"

fun slots :: "printf_length \<Rightarrow> nat" where
  "slots PRINTF_LENGTH_LONG = 2"
| "slots PRINTF_LENGTH_LONG_LONG = 4"
| "slots len = 1"

definition signed_arg :: "u32 list \<Rightarrow> nat \<Rightarrow> printf_length \<Rightarrow> int" where
  "signed_arg args argp len =
     (if len = PRINTF_LENGTH_LONG_LONG then sint (word_cat (args ! (argp + 1)) (args ! argp) :: u64)
      else sint (args ! argp))"

definition signed_text :: "int \<Rightarrow> u8 list" where
  "signed_text v = (if v < 0 then [0x2D] else []) @ digits 10 (nat \<bar>v\<bar> mod 2 ^ 32)"

fun dir_text ::
    "(u32 \<Rightarrow> u8 list run) \<Rightarrow> u32 list \<Rightarrow> nat \<Rightarrow> directive \<Rightarrow> (u8 list \<times> nat) option" where
  "dir_text str_at args argp (Lit c) = Some ([c], argp)"
| "dir_text str_at args argp (Dir len c) =
     (let need = (if (c = 0x64 \<or> c = 0x69) \<and> len = PRINTF_LENGTH_LONG_LONG then 2 else 1 :: nat);
          w = args ! argp
      in if c = 0x25 then Some ([0x25], argp)
         else if c \<notin> set (bytes ''csdiuXxpo'') then Some ([], argp)
         else if argp + need > length args then None
         else if c = 0x63 then Some (if (ucast w :: u8) = 0 then [] else [ucast w], argp + 1)
         else if c = 0x73
         then (case str_at w of
                 Some (Inr s) \<Rightarrow> Some (cstr s, argp + min 2 (slots len))
               | _ \<Rightarrow> None)
         else if c = 0x64 \<or> c = 0x69 then Some (signed_text (signed_arg args argp len), argp + slots len)
         else if c = 0x75 then Some (digits 10 (unat w), argp + slots len)
         else if c = 0x6F then Some (digits 8 (unat w), argp + slots len)
         else Some (digits 16 (unat w), argp + slots len))"

fun render :: "(u32 \<Rightarrow> u8 list run) \<Rightarrow> u32 list \<Rightarrow> directive list \<Rightarrow> nat \<Rightarrow> u8 list option" where
  "render str_at args [] argp = Some []"
| "render str_at args (d # ds) argp =
     (case dir_text str_at args argp d of
        None \<Rightarrow> None
      | Some (s, argp') \<Rightarrow> map_option (\<lambda>t. s @ t) (render str_at args ds argp'))"

section \<open>printf prints the text\<close>

lemma print_append: "print (xs @ ys) st = bind_run (print xs st) (print ys)"
  by (induction xs st rule: print.induct) (simp_all add: bind_run_assoc cong: bind_run_cong)

lemma puts_append: "puts rest (xs @ ys) st = bind_run (puts rest xs st) (puts rest ys)"
  by (induction xs arbitrary: st) (simp_all add: bind_run_assoc cong: bind_run_cong)

lemma puts_single: "puts rest [c] = putc rest c"
proof (rule ext)
  show "puts rest [c] st = putc rest c st" for st
    by (cases "putc rest c st") (auto simp: bind_run_def split: sum.splits)
qed

lemma puts_junk:
  "0 \<notin> set s \<Longrightarrow> puts (\<lambda>_. junk) s st = print (concat (map (\<lambda>c. c # junk) s)) st"
proof (induction s arbitrary: st)
  case (Cons c s)
  then have "puts (\<lambda>_. junk) s = print (concat (map (\<lambda>c. c # junk) s))" by fastforce
  moreover have "print (c # junk @ t) st = bind_run (print (c # junk) st) (print t)" for t
    using print_append [of "c # junk"] by simp
  ultimately show ?case using Cons.prems by (simp add: putc_def del: print.simps)
qed simp

abbreviation clean :: frame where
  "clean \<equiv> \<lambda>_. []"

lemma putc_clean: "putc clean c st = print (if c = 0 then [] else [c]) st"
  by (simp add: putc_def)

lemma puts_clean: "0 \<notin> set s \<Longrightarrow> puts clean s st = print s st"
proof (induction s arbitrary: st)
  case (Cons c s)
  then have "puts clean s = print s" by fastforce
  moreover have "print [c] st = print_char c st"
    by (simp add: bind_run_def split: option.split sum.split)
  ultimately show ?case using Cons.prems by (simp add: putc_clean)
qed simp

lemma magnitude:
  fixes n :: "'a :: len word"
  assumes "32 \<le> LENGTH('a)"
  shows "unat (ucast (if sint n < 0 then - n else n) :: u32) = nat \<bar>sint n\<bar> mod 2 ^ 32"
proof -
  have "(if sint n < 0 then - n else n) = word_of_int \<bar>sint n\<bar>"
    by (simp add: word_of_int_minus)
  moreover have "(ucast (word_of_int k :: 'a word) :: u32) = word_of_int k" for k
    using assms by (simp add: bit_eq_iff bit_simps)
  moreover have "unat (word_of_int k :: u32) = nat k mod 2 ^ 32" if "0 \<le> k" for k
    using that by (simp add: unsigned_of_int take_bit_eq_mod nat_mod_distrib)
  ultimately show ?thesis by (simp only: abs_ge_zero)
qed

lemma long_long_word: "ucast (lo :: u32) OR push_bit 32 (ucast (hi :: u32)) = (word_cat hi lo :: u64)"
  by (auto simp: bit_eq_iff bit_simps bit_word_cat_iff not_less dest: bit_imp_le_length)

lemma read_number_signed:
  assumes "argp + (if len = PRINTF_LENGTH_LONG_LONG then 2 else 1) \<le> length args"
  obtains number where
    "read_number args argp len True = ret (number, signed_arg args argp len < 0, argp + slots len)"
    "unat number = nat \<bar>signed_arg args argp len\<bar> mod 2 ^ 32"
proof (cases len)
  case PRINTF_LENGTH_LONG_LONG
  let ?n = "word_cat (args ! (argp + 1)) (args ! argp) :: u64"
  show thesis
  proof (rule that)
    show "read_number args argp len True = ret (ucast (if sint ?n < 0 then - ?n else ?n),
        signed_arg args argp len < 0, argp + slots len)"
      using assms PRINTF_LENGTH_LONG_LONG
      by (simp add: read_number_def fetch_def long_long_word signed_arg_def Let_def)
    show "unat (ucast (if sint ?n < 0 then - ?n else ?n) :: u32) =
        nat \<bar>signed_arg args argp len\<bar> mod 2 ^ 32"
      using magnitude [of ?n] PRINTF_LENGTH_LONG_LONG by (simp add: signed_arg_def)
  qed
qed (rule that [of "if sint (args ! argp) < 0 then - (args ! argp) else args ! argp"],
     use assms magnitude [of "args ! argp"] in
       \<open>simp_all add: read_number_def fetch_def signed_arg_def ucast_id\<close>)+

lemma read_number_unsigned:
  "argp < length args \<Longrightarrow> read_number args argp len False = ret (args ! argp, False, argp + slots len)"
  by (cases len) (simp_all add: read_number_def fetch_def)

lemma fill_32:
  assumes "radix = 8 \<or> radix = 10 \<or> radix = 16"
  shows "fill_digits radix 32 number = ret (rev (digits (unat radix) (unat number)))"
    and "length (digits (unat radix) (unat number)) \<le> 11"
    and "0 \<notin> set (digits (unat radix) (unat number))"
proof -
  have r: "2 \<le> unat radix" "unat radix \<le> 16" using assms by auto
  have "unat number < 2 ^ 32" using unsigned_less [where ?'a = nat, of number] by simp
  then have "unat number < unat radix ^ 32" "unat number < unat radix ^ 11"
    using assms by auto
  then show "fill_digits radix 32 number = ret (rev (digits (unat radix) (unat number)))"
    and "length (digits (unat radix) (unat number)) \<le> 11"
    using fill_digits_digits [OF r] length_digits [OF r(1)] by simp_all
  show "0 \<notin> set (digits (unat radix) (unat number))" by (rule digits_nonzero [OF r])
qed

lemma printf_number_signed:
  assumes "argp + (if len = PRINTF_LENGTH_LONG_LONG then 2 else 1) \<le> length args"
  shows "printf_number rest args argp len True 10 st =
    bind_run (puts rest (signed_text (signed_arg args argp len)) st) (\<lambda>st. ret (argp + slots len, st))"
proof -
  obtain number where
    read: "read_number args argp len True = ret (number, signed_arg args argp len < 0, argp + slots len)"
    and number: "unat number = nat \<bar>signed_arg args argp len\<bar> mod 2 ^ 32"
    by (rule read_number_signed [OF assms])
  show ?thesis
    using fill_32 [of 10 number]
    by (simp add: printf_number_def read number signed_text_def)
qed

lemma printf_number_unsigned:
  assumes "argp < length args" and "radix = 8 \<or> radix = 10 \<or> radix = 16"
  shows "printf_number rest args argp len False radix st =
    bind_run (puts rest (digits (unat radix) (unat (args ! argp))) st) (\<lambda>st. ret (argp + slots len, st))"
  using fill_32 [OF assms(2), of "args ! argp"] assms(1)
  by (simp add: printf_number_def read_number_unsigned)

lemma conversions: "set (bytes ''csdiuXxpo'') = {0x63, 0x73, 0x64, 0x69, 0x75, 0x58, 0x78, 0x70, 0x6F}"
  by (simp add: bytes_def)

lemma printf_spec_text:
  assumes "dir_text str_at args argp (Dir len c) = Some (s, argp')"
  shows "printf_spec rest str_at args c len argp st =
    bind_run (puts rest s st) (\<lambda>st. ret (argp', st))"
proof -
  let ?conv = "\<lambda>c. c = 0x63 \<or> c = 0x73 \<or> c = 0x64 \<or> c = 0x69 \<or> c = 0x75 \<or> c = 0x58 \<or>
    c = 0x78 \<or> c = 0x70 \<or> (c :: u8) = 0x6F"
  have conv: "c \<in> set (bytes ''csdiuXxpo'') \<longleftrightarrow> ?conv c" by (simp add: conversions)
  note tx = assms [unfolded dir_text.simps conv Let_def]
  consider "c = 0x25" | "c \<noteq> 0x25" "\<not> ?conv c" | "c = 0x63" | "c = 0x73" | "c = 0x64 \<or> c = 0x69"
    | "c = 0x75" | "c = 0x6F" | "c = 0x58 \<or> c = 0x78 \<or> c = 0x70"
    by auto
  then show ?thesis
  proof cases
    case 1
    with tx have "s = [0x25]" "argp' = argp" by simp_all
    with 1 show ?thesis unfolding \<open>s = [0x25]\<close> puts_single by (simp add: printf_spec_def)
  next
    case 2
    with tx have "s = [] \<and> argp' = argp" by simp
    with 2 show ?thesis by (simp add: printf_spec_def)
  next
    case 3
    with tx have "argp < length args" "argp' = argp + 1"
      "s = (if (ucast (args ! argp) :: u8) = 0 then [] else [ucast (args ! argp)])"
      by (simp_all split: if_split_asm)
    with 3 show ?thesis by (auto simp: printf_spec_def fetch_def puts_single putc_def)
  next
    case 4
    with tx obtain m where "argp < length args" "str_at (args ! argp) = ret m" "s = cstr m"
      "argp' = argp + min 2 (slots len)"
      by (simp split: if_split_asm option.split_asm sum.split_asm)
    with 4 show ?thesis by (cases len) (simp_all add: printf_spec_def fetch_def)
  next
    case 5
    with tx have "argp + (if len = PRINTF_LENGTH_LONG_LONG then 2 else 1) \<le> length args"
      "s = signed_text (signed_arg args argp len)" "argp' = argp + slots len"
      by (auto split: if_split_asm)
    with 5 show ?thesis by (auto simp: printf_spec_def printf_number_signed simp del: One_nat_def)
  next
    case 6
    with tx have "argp < length args" "s = digits 10 (unat (args ! argp))" "argp' = argp + slots len"
      by (simp_all split: if_split_asm)
    with 6 show ?thesis by (simp add: printf_spec_def printf_number_unsigned)
  next
    case 7
    with tx have "argp < length args" "s = digits 8 (unat (args ! argp))" "argp' = argp + slots len"
      by (simp_all split: if_split_asm)
    with 7 show ?thesis by (simp add: printf_spec_def printf_number_unsigned)
  next
    case 8
    with tx have "argp < length args" "s = digits 16 (unat (args ! argp))" "argp' = argp + slots len"
      by (auto split: if_split_asm)
    with 8 show ?thesis by (auto simp: printf_spec_def printf_number_unsigned)
  qed
qed

lemma printf_directive:
  assumes "directive_ok d" and "dir_text str_at args argp d = Some (s, argp')"
  shows "printf_from rest str_at args (unparse d @ fmt) PRINTF_STATE_START PRINTF_LENGTH_START argp st =
    bind_run (puts rest s st)
      (printf_from rest str_at args fmt PRINTF_STATE_START PRINTF_LENGTH_START argp')"
proof (cases d)
  case (Lit c)
  with assms have "s = [c]" "argp' = argp" "c \<noteq> 0" "c \<noteq> 0x25" by simp_all
  then show ?thesis unfolding Lit by (simp add: puts_single)
next
  case (Dir len c)
  note spec = printf_spec_text [OF assms(2) [unfolded Dir]]
  show ?thesis
    using assms(1) spec unfolding Dir
    by (cases len) (simp_all add: bind_run_assoc)
qed

lemma printf_from_render:
  assumes "list_all directive_ok ds" and "render str_at args ds argp = Some out"
  shows "printf_from rest str_at args (concat (map unparse ds))
    PRINTF_STATE_START PRINTF_LENGTH_START argp st = puts rest out st"
  using assms
proof (induction ds arbitrary: argp out st)
  case Nil
  then show ?case by simp
next
  case (Cons d ds)
  then obtain s argp' t where d: "dir_text str_at args argp d = Some (s, argp')"
    and t: "render str_at args ds argp' = Some t" and tx: "out = s @ t"
    by (auto split: option.splits)
  have "printf_from rest str_at args (concat (map unparse ds))
      PRINTF_STATE_START PRINTF_LENGTH_START argp' = puts rest t"
    using Cons.IH [OF _ t] Cons.prems by auto
  then show ?case
    using printf_directive [OF _ d] Cons.prems by (simp add: tx puts_append)
qed

lemma hex_fill_map:
  "length buf = k + 2 + m \<Longrightarrow> hex_fill k n buf =
     take 2 buf @ map (\<lambda>i. hex_chars ! unat (drop_bit (4 * (k - 1 - i)) n AND 0xF)) [0..<k] @ drop (k + 2) buf"
proof (induction k arbitrary: n buf m)
  case 0
  then show ?case by (simp flip: numeral_2_eq_2)
next
  case (Suc k)
  have "map (\<lambda>i. hex_chars ! unat (drop_bit (4 * (k - 1 - i)) (drop_bit 4 n) AND 0xF)) [0..<k] =
      map (\<lambda>i. hex_chars ! unat (drop_bit (4 * (Suc k - 1 - i)) n AND 0xF)) [0..<k]"
    by (rule map_cong) (auto simp: drop_bit_drop_bit algebra_simps Suc_diff_Suc)
  moreover have "drop (k + 2) (buf[k + 2 := c]) = c # drop (Suc (Suc (Suc k))) buf" for c
    using Suc.prems by (simp add: drop_update_swap drop_update_cancel Cons_nth_drop_Suc [symmetric])
  ultimately show ?case using Suc.IH [of "buf[k + 2 := hex_chars ! unat (n AND 0xF)]" "Suc m" "drop_bit 4 n"] Suc.prems
    by simp
qed

lemma signed_text_nonzero: "0 \<notin> set (signed_text v)"
  by (simp add: signed_text_def digits_nonzero)

lemma dir_text_nonzero:
  assumes "directive_ok d" and "dir_text str_at args argp d = Some (s, argp')"
  shows "0 \<notin> set s"
proof (cases d)
  case (Dir len c)
  have "0 \<notin> set (cstr m)" for m by (auto simp: cstr_def dest: set_takeWhileD)
  then show ?thesis
    using assms(2) unfolding Dir
    by (auto simp: Let_def signed_text_nonzero digits_nonzero
        split: if_split_asm option.split_asm sum.split_asm)
qed (use assms in auto)

lemma render_nonzero:
  assumes "list_all directive_ok ds" and "render str_at args ds argp = Some out"
  shows "0 \<notin> set out"
  using assms
proof (induction ds arbitrary: argp out)
  case (Cons d ds)
  then obtain s argp' t where "dir_text str_at args argp d = Some (s, argp')"
    and "render str_at args ds argp' = Some t" and "out = s @ t"
    by (auto split: option.splits)
  then show ?case using Cons.IH [of argp' t] Cons.prems(1) dir_text_nonzero by auto
qed simp

section \<open>Properties\<close>

text \<open>
  Property C20: \<^verbatim>\<open>printf\<close> outputs what its format says, character by character. For a format made
  of literals and directives whose arguments are there, the state machine over the bytes of the
  format passes the concatenation of the texts of the directives to \<^verbatim>\<open>putc\<close>, in order: signed and
  unsigned decimal, octal, hexadecimal, characters and strings, each consuming the stack words
  of its length modifier. This holds for every content of the stack behind the parameter of
  \<^verbatim>\<open>putc\<close>. \<^verbatim>\<open>putc\<close> prints that content too, up to its next NUL: what appears on the screen is every
  character of the text followed by those bytes, and it is the text itself when they are none.
\<close>

theorem printf_renders:
  assumes "list_all directive_ok ds" and "render str_at args ds 0 = Some text"
  shows "printf rest str_at (concat (map unparse ds)) args st = puts rest text st \<and>
    printf (\<lambda>_. junk) str_at (concat (map unparse ds)) args st = print (concat (map (\<lambda>c. c # junk) text)) st"
  using printf_from_render [OF assms] puts_junk [OF render_nonzero [OF assms]]
  by (simp add: printf_def)

theorem printf_renders_witness:
  "\<forall>st. printf (\<lambda>_. [0xF0, 0xFF]) (\<lambda>_. ret (bytes ''disk'' @ [0, 0x41])) (bytes ''%s: %d, 0x%x%c'')
     [0x1000, - 42, 255, 0x21] st =
     print (concat (map (\<lambda>c. [c, 0xF0, 0xFF]) (bytes ''disk: -42, 0xff!''))) st"
proof -
  let ?ds = "[Dir PRINTF_LENGTH_START 0x73, Lit 0x3A, Lit 0x20, Dir PRINTF_LENGTH_START 0x64, Lit 0x2C,
    Lit 0x20, Lit 0x30, Lit 0x78, Dir PRINTF_LENGTH_START 0x78, Dir PRINTF_LENGTH_START 0x63]"
  let ?str = "\<lambda>_ :: u32. ret (bytes ''disk'' @ [0, 0x41])"
  have "concat (map unparse ?ds) = bytes ''%s: %d, 0x%x%c''" by (simp add: bytes_def)
  moreover have "list_all directive_ok ?ds" by simp
  moreover have "digits 10 42 = [0x34, 0x32]" "digits 16 255 = [0x66, 0x66]"
    by (simp_all add: digits.simps digit_char_def possibleChars_def bytes_def)
  then have "render ?str [0x1000, - 42, 255, 0x21] ?ds 0 = Some (bytes ''disk: -42, 0xff!'')"
    by (simp add: bytes_def cstr_def signed_arg_def signed_text_def Let_def)
  ultimately show ?thesis using printf_renders [where ds = ?ds and str_at = ?str and args = "[0x1000, - 42, 255, 0x21]"
      and junk = "[0xF0, 0xFF]"] by metis
qed

text \<open>
  Property C21: the digits of a number. For every number and every radix from 2 to 16 the
  conversion loop stays inside the 32 bytes of \<^verbatim>\<open>buffer\<close> and the numeral it leaves there, least
  significant digit first, reads back as the number; from radix 8 on it has at most 11 digits, so
  that there is room for the sign.
\<close>

theorem fill_digits_value:
  assumes "2 \<le> radix" and "radix \<le> 16"
  shows "\<exists>buffer. fill_digits radix 32 number = ret buffer \<and> length buffer \<le> 32 \<and>
    (8 \<le> radix \<longrightarrow> length buffer \<le> 11) \<and> numeral_value (unat radix) (rev buffer) = unat number"
proof -
  have r: "2 \<le> unat radix" "unat radix \<le> 16" using assms by (simp_all add: word_le_nat_alt)
  have "2 ^ 32 \<le> unat radix ^ 32" using r(1) by (rule power_mono) simp
  then have n: "unat number < unat radix ^ 32"
    using unsigned_less [where ?'a = nat, of number] by simp
  moreover have "unat number < unat radix ^ 11" if "8 \<le> radix"
    using power_mono [of 8 "unat radix" 11] unsigned_less [where ?'a = nat, of number] that
    by (simp add: word_le_nat_alt)
  ultimately show ?thesis
    using fill_digits_digits [OF r _ n] length_digits [OF r(1)] numeral_value_digits [OF r] by simp
qed

theorem fill_digits_value_witness:
  "\<exists>buffer. fill_digits 10 32 4294967295 = ret buffer \<and> length buffer \<le> 32 \<and>
    ((8 :: u32) \<le> 10 \<longrightarrow> length buffer \<le> 11) \<and> numeral_value (unat (10 :: u32)) (rev buffer) = unat (4294967295 :: u32)"
  by (rule fill_digits_value) simp_all

text \<open>
  \<^verbatim>\<open>printHex\<close> prints \<open>0x\<close> and eight upper-case digits, the nibbles of the number
  from the most significant one.
\<close>

lemma printHex_nibbles:
  "printHex n st = print (bytes ''0x'' @
     map (\<lambda>i. hex_chars ! unat (drop_bit (4 * (7 - i)) n AND 0xF)) [0..<8]) st"
proof -
  have "length (bytes ''0x00000000'') = 8 + 2" "take 2 (bytes ''0x00000000'') = bytes ''0x''"
    by (simp_all add: bytes_def)
  then show ?thesis using hex_fill_map [of "bytes ''0x00000000''" 8 0 n] by (simp add: printHex_def)
qed

end
