(* ===== verification/Memory.thy ===== *)
theory Memory
  imports Prelude "HOL-Library.Signed_Division"
begin

unbundle bit_operations_syntax

text \<open>
  Memory management: the page frame allocator and the page tables of \<^verbatim>\<open>memory/memory.c\<close>, and
  the kernel heap of \<^verbatim>\<open>memory/kmalloc.c\<close>. Physical memory is a map from addresses to the
  32-bit words stored there; \<open>translate\<close> is the processor's two-level translation with
  4 MB pages, which is how the code reaches the page tables (through the directory's entry for
  itself) and what its effect is measured by. The translation caches are not modelled,
  and with them \<^verbatim>\<open>inval\<close>.
\<close>

section \<open>Page frames\<close>

record pmm =
  pageFrameMin :: u32
  pageFrameMax :: u32
  totalAlloc :: u32
  PMB :: "u8 list"

definition CEIL_DIV :: "u32 \<Rightarrow> u32 \<Rightarrow> u32" where
  "CEIL_DIV a b = ((a + b) - 1) div b"

text \<open>\<^verbatim>\<open>NUM_PAGE_FRAME / 8\<close> bytes.\<close>

definition PMB_size :: nat where
  "PMB_size = 0x100000000 div 0x1000 div 8 div 8"

definition pmm_init :: "u32 \<Rightarrow> u32 \<Rightarrow> pmm" where
  "pmm_init memLow memHigh =
     \<lparr>pageFrameMin = CEIL_DIV memLow 0x1000, pageFrameMax = memHigh div 0x1000, totalAlloc = 0,
      PMB = replicate PMB_size 0\<rparr>"

text \<open>The inner loop over the bits of a byte, from bit \<open>i\<close>; a byte that is not 0xFF has a clear bit.\<close>

fun clear_bit_from :: "u8 \<Rightarrow> nat \<Rightarrow> nat \<Rightarrow> nat option" where
  "clear_bit_from b i 0 = None"
| "clear_bit_from b i (Suc n) =
     (if drop_bit i b AND 1 = 0 then Some i else clear_bit_from b (i + 1) n)"

fun alloc_from :: "u32 \<Rightarrow> nat \<Rightarrow> pmm \<Rightarrow> (u32 \<times> pmm) run" where
  "alloc_from b 0 st = ret (0, st)"
| "alloc_from b (Suc n) st =
     (if unat b < length (PMB st)
      then case clear_bit_from (PMB st ! unat b) 0 8 of
             None \<Rightarrow> alloc_from (b + 1) n st
           | Some i \<Rightarrow>
               ret (((b * 8) + of_nat i) * 0x1000,
                    st\<lparr>PMB := (PMB st)[unat b := push_bit i 1], totalAlloc := totalAlloc st + 1\<rparr>)
      else fail OutOfBounds)"

definition first_byte_index :: "pmm \<Rightarrow> u32" where
  "first_byte_index st = pageFrameMin st div 8 + (if pageFrameMin st AND 7 \<noteq> 0 then 1 else 0)"

definition end_byte_index :: "pmm \<Rightarrow> u32" where
  "end_byte_index st = pageFrameMax st div 8 - (if pageFrameMax st AND 7 \<noteq> 0 then 1 else 0)"

definition pmmAllocPageFrame :: "pmm \<Rightarrow> (u32 \<times> pmm) run" where
  "pmmAllocPageFrame st =
     alloc_from (first_byte_index st) (unat (end_byte_index st) - unat (first_byte_index st)) st"

section \<open>Address translation\<close>

definition translate :: "(u32 \<Rightarrow> u32) \<Rightarrow> u32 \<Rightarrow> u32 \<Rightarrow> u32 option" where
  "translate phys cr3 v =
     (let pde = phys (cr3 + 4 * drop_bit 22 v)
      in if pde AND 1 = 0 then None
         else if pde AND 0x80 \<noteq> 0 then Some ((pde AND 0xFFC00000) OR (v AND 0x3FFFFF))
         else let pte = phys ((pde AND 0xFFFFF000) + 4 * (drop_bit 12 v AND 0x3FF))
              in if pte AND 1 = 0 then None
                 else Some ((pte AND 0xFFFFF000) OR (v AND 0xFFF)))"

section \<open>Page tables\<close>

text \<open>
  \<open>ipd\<close> is the physical address of \<^verbatim>\<open>initial_page_dir\<close>, so that the pointer is
  \<^verbatim>\<open>ipd + KERNEL_START\<close>; its words are in physical memory, where the processor finds them.
\<close>

record mem_state =
  phys :: "u32 \<Rightarrow> u32"
  cr3 :: u32
  ipd :: u32
  frames :: pmm
  pageDirs :: "u32 list list"
  pageDirsUsed :: "u8 list"
  mem_num_vpages :: int

abbreviation KERNEL_START :: u32 where "KERNEL_START \<equiv> 0xC0000000"
abbreviation KERNEL_MALLOC :: u32 where "KERNEL_MALLOC \<equiv> 0xD0000000"
abbreviation REC_PAGEDIR :: u32 where "REC_PAGEDIR \<equiv> 0xFFFFF000"
abbreviation REC_PAGETABLE :: "u32 \<Rightarrow> u32" where "REC_PAGETABLE i \<equiv> 0xFFC00000 + push_bit 12 i"

definition vread :: "u32 \<Rightarrow> mem_state \<Rightarrow> u32 run" where
  "vread v st =
     (case translate (phys st) (cr3 st) v of None \<Rightarrow> fail PageFault | Some p \<Rightarrow> ret (phys st p))"

definition vwrite :: "u32 \<Rightarrow> u32 \<Rightarrow> mem_state \<Rightarrow> mem_state run" where
  "vwrite v w st =
     (case translate (phys st) (cr3 st) v of
        None \<Rightarrow> fail PageFault | Some p \<Rightarrow> ret (st\<lparr>phys := (phys st)(p := w)\<rparr>))"

definition memGCPD :: "mem_state \<Rightarrow> u32" where
  "memGCPD st = cr3 st + KERNEL_START"

definition memCPD :: "u32 \<Rightarrow> mem_state \<Rightarrow> mem_state" where
  "memCPD pd st = st\<lparr>cr3 := pd - KERNEL_START\<rparr>"

definition initMemory :: "u32 \<Rightarrow> u32 \<Rightarrow> mem_state \<Rightarrow> mem_state" where
  "initMemory memHigh physicalAllocStart st =
     st\<lparr>mem_num_vpages := 0,
        phys := (phys st)(ipd st := 0, ipd st + 4 * 1023 := ipd st OR 1 OR 2),
        frames := pmm_init physicalAllocStart memHigh,
        pageDirs := replicate 256 (replicate 1024 0), pageDirsUsed := replicate 256 0\<rparr>"

definition syncPageDirs :: "mem_state \<Rightarrow> mem_state" where
  "syncPageDirs st =
     st\<lparr>pageDirs := map2 (\<lambda>used dir.
          if used \<noteq> 0 then map (\<lambda>i. phys st (ipd st + 4 * of_nat i) AND NOT 0x200) [0..<1024] else dir)
        (pageDirsUsed st) (pageDirs st)\<rparr>"

text \<open>The loop that clears a new page table, from entry \<open>i\<close>.\<close>

fun clear_table :: "u32 \<Rightarrow> u32 \<Rightarrow> nat \<Rightarrow> mem_state \<Rightarrow> mem_state run" where
  "clear_table pt i 0 st = ret st"
| "clear_table pt i (Suc n) st = bind_run (vwrite (pt + 4 * i) 0 st) (clear_table pt (i + 1) n)"

definition ensure_table :: "u32 \<Rightarrow> u32 \<Rightarrow> mem_state \<Rightarrow> mem_state run" where
  "ensure_table pdIndex flags st =
     bind_run (vread (REC_PAGEDIR + 4 * pdIndex) st) (\<lambda>pde.
       if pde AND 1 = 0
       then bind_run (pmmAllocPageFrame (frames st)) (\<lambda>(ptPAddr, fr).
            bind_run (vwrite (REC_PAGEDIR + 4 * pdIndex) (ptPAddr OR 1 OR 2 OR 0x200 OR flags)
                        (st\<lparr>frames := fr\<rparr>))
              (clear_table (REC_PAGETABLE pdIndex) 0 1024))
       else if flags AND 4 \<noteq> 0 then vwrite (REC_PAGEDIR + 4 * pdIndex) (pde OR 4) st
       else ret st)"

definition memMapPage :: "u32 \<Rightarrow> u32 \<Rightarrow> u32 \<Rightarrow> mem_state \<Rightarrow> mem_state run" where
  "memMapPage virtualAddr physicalAddr flags st =
     (let initial = ipd st + KERNEL_START;
          prev = (if virtualAddr \<ge> KERNEL_START then memGCPD st else 0);
          st = (if virtualAddr \<ge> KERNEL_START \<and> prev \<noteq> initial then memCPD initial st else st);
          pdIndex = drop_bit 22 virtualAddr;
          ptIndex = drop_bit 12 virtualAddr AND 0x3FF;
          pt = REC_PAGETABLE pdIndex
      in bind_run (ensure_table pdIndex flags st) (\<lambda>st.
         bind_run (vread (pt + 4 * ptIndex) st) (\<lambda>old.
         bind_run (vwrite (pt + 4 * ptIndex) (physicalAddr OR 1 OR old OR flags) st) (\<lambda>st.
           let st = st\<lparr>mem_num_vpages := mem_num_vpages st + 1\<rparr>
           in ret (if prev \<noteq> 0
                   then let st = syncPageDirs st in if prev \<noteq> initial then memCPD prev st else st
                   else st)))))"

section \<open>The heap\<close>

record heap_state =
  heapStart :: u32
  heapSize :: u32
  threshold :: u32
  kmallocInitialized :: bool

fun grow_heap :: "u32 \<Rightarrow> u32 \<Rightarrow> nat \<Rightarrow> mem_state \<Rightarrow> mem_state run" where
  "grow_heap oldPageTop i 0 st = ret st"
| "grow_heap oldPageTop i (Suc n) st =
     bind_run (pmmAllocPageFrame (frames st)) (\<lambda>(p, fr).
     bind_run (memMapPage (KERNEL_MALLOC + oldPageTop * 0x1000 + i * 0x1000) p 2 (st\<lparr>frames := fr\<rparr>))
       (grow_heap oldPageTop (i + 1) n))"

text \<open>
  \<^verbatim>\<open>newSize\<close> is an \<^verbatim>\<open>int\<close>, so that its page count is a signed division; \<^verbatim>\<open>heapSize\<close> is not changed.
\<close>

definition changeHeapSize :: "u32 \<Rightarrow> heap_state \<Rightarrow> mem_state \<Rightarrow> mem_state run" where
  "changeHeapSize newSize h st =
     (let oldPageTop = CEIL_DIV (heapSize h) 0x1000;
          newPageTop = sint (newSize + 0x1000 - 1) sdiv 0x1000;
          diff = newPageTop - sint oldPageTop
      in grow_heap oldPageTop 0 (nat diff) st)"

definition kmallocInit :: "u32 \<Rightarrow> heap_state \<Rightarrow> mem_state \<Rightarrow> (heap_state \<times> mem_state) run" where
  "kmallocInit initialHeapSize h st =
     (let h = h\<lparr>heapStart := KERNEL_MALLOC, heapSize := 0, threshold := 0, kmallocInitialized := True\<rparr>
      in bind_run (changeHeapSize initialHeapSize h st) (\<lambda>st. ret (h, st)))"

section \<open>The allocator\<close>

text \<open>The addresses of the next \<open>n\<close> frames.\<close>

fun take_frames :: "nat \<Rightarrow> pmm \<Rightarrow> (u32 list \<times> pmm) run" where
  "take_frames 0 st = ret ([], st)"
| "take_frames (Suc n) st =
     bind_run (pmmAllocPageFrame st) (\<lambda>(a, st).
     bind_run (take_frames n st) (\<lambda>(as, st). ret (a # as, st)))"

definition frame_addr :: "pmm \<Rightarrow> nat \<Rightarrow> u32" where
  "frame_addr st k = (first_byte_index st * 8 + of_nat (k mod 2)) * 0x1000"

text \<open>There is a byte to search, and it is in one of the states the allocator leaves it in.\<close>

definition pmm_ready :: "pmm \<Rightarrow> bool" where
  "pmm_ready st \<longleftrightarrow> first_byte_index st < end_byte_index st \<and>
     unat (first_byte_index st) < length (PMB st) \<and> PMB st ! unat (first_byte_index st) \<in> {0, 1, 2}"

definition next_frame :: "pmm \<Rightarrow> nat" where
  "next_frame st = (if PMB st ! unat (first_byte_index st) = 1 then 1 else 0)"

lemma clear_bits:
  "clear_bit_from 0 0 8 = Some 0" "clear_bit_from 1 0 8 = Some 1" "clear_bit_from 2 0 8 = Some 0"
  by (simp_all add: numeral_eq_Suc)

lemma pmmAllocPageFrame_ready:
  assumes "pmm_ready st"
  obtains st' where "pmmAllocPageFrame st = ret (frame_addr st (next_frame st), st')"
    "pmm_ready st'" "next_frame st' = 1 - next_frame st" "frame_addr st' = frame_addr st"
proof -
  define b where "b = first_byte_index st"
  obtain n where n: "unat (end_byte_index st) - unat b = Suc n"
    using assms unfolding pmm_ready_def b_def word_less_nat_alt
    by (metis Suc_diff_Suc)
  have len: "unat b < length (PMB st)" and byte: "PMB st ! unat b \<in> {0, 1, 2}"
    using assms by (auto simp: pmm_ready_def b_def)
  define i where "i = next_frame st"
  have i: "clear_bit_from (PMB st ! unat b) 0 8 = Some i" and i01: "i = 0 \<or> i = 1"
    using byte clear_bits by (auto simp: i_def next_frame_def b_def [symmetric])
  define st' where "st' = st\<lparr>PMB := (PMB st)[unat b := push_bit i 1], totalAlloc := totalAlloc st + 1\<rparr>"
  have same: "first_byte_index st' = b" "end_byte_index st' = end_byte_index st"
    "PMB st' = (PMB st)[unat b := push_bit i 1]"
    by (simp_all add: st'_def first_byte_index_def end_byte_index_def b_def)
  show thesis
  proof (rule that [of st'])
    show "pmmAllocPageFrame st = ret (frame_addr st (next_frame st), st')"
      using len i i01 n by (auto simp: pmmAllocPageFrame_def b_def [symmetric] frame_addr_def i_def [symmetric] st'_def)
    show "pmm_ready st'"
      using assms len i01 by (auto simp: pmm_ready_def same b_def [symmetric])
    show "next_frame st' = 1 - next_frame st"
      using len i01 by (auto simp: next_frame_def [of st'] same i_def [symmetric])
    show "frame_addr st' = frame_addr st"
      by (rule ext) (simp add: frame_addr_def same b_def)
  qed
qed

lemma take_frames_alternate:
  assumes "pmm_ready st"
  shows "\<exists>st'. take_frames n st =
    ret (map (\<lambda>k. frame_addr st (next_frame st + k)) [0..<n], st') \<and> pmm_ready st'"
  using assms
proof (induction n arbitrary: st)
  case 0
  then show ?case by simp
next
  case (Suc n)
  obtain st1 where st1: "pmmAllocPageFrame st = ret (frame_addr st (next_frame st), st1)"
    "pmm_ready st1" "next_frame st1 = 1 - next_frame st" "frame_addr st1 = frame_addr st"
    by (rule pmmAllocPageFrame_ready [OF Suc.prems])
  obtain st2 where st2: "take_frames n st1 =
      ret (map (\<lambda>k. frame_addr st1 (next_frame st1 + k)) [0..<n], st2)" "pmm_ready st2"
    using Suc.IH [OF st1(2)] by blast
  have "frame_addr st (1 - next_frame st + k) = frame_addr st (next_frame st + Suc k)" for k
  proof -
    have "next_frame st = 0 \<or> next_frame st = 1" by (simp add: next_frame_def)
    then have "(1 - next_frame st + k) mod 2 = (next_frame st + Suc k) mod 2"
    proof
      assume "next_frame st = 1"
      then show ?thesis by simp
    qed simp
    then show ?thesis by (simp add: frame_addr_def)
  qed
  then have "map (\<lambda>k. frame_addr st (next_frame st + k)) [0..<Suc n] =
      frame_addr st (next_frame st) # map (\<lambda>k. frame_addr st (1 - next_frame st + k)) [0..<n]"
    by (simp add: map_upt_Suc del: upt_Suc)
  then show ?case using st1 st2 by (simp del: upt_Suc)
qed

lemma pmm_init_ready:
  assumes "pmm_init memLow memHigh = st" and "first_byte_index st < end_byte_index st"
    and "unat (first_byte_index st) < PMB_size"
  shows "pmm_ready st" and "next_frame st = 0"
  using assms by (auto simp: pmm_ready_def next_frame_def pmm_init_def)

section \<open>Properties\<close>

text \<open>
  Property C23: the allocator has two frames. \<^verbatim>\<open>PMB[b] = (1 << i)\<close> clears the bits of the other
  frames of the byte, so that after \<^verbatim>\<open>pmm_init\<close> any number of requests is served by the same two
  addresses in turn, and memory never runs out.
\<close>

theorem allocator_alternates:
  assumes "st = pmm_init memLow memHigh" and "first_byte_index st < end_byte_index st"
    and "unat (first_byte_index st) < PMB_size"
  shows "\<exists>st'. take_frames n st =
    ret (map (\<lambda>k. (first_byte_index st * 8 + of_nat (k mod 2)) * 0x1000) [0..<n], st')"
proof -
  have "pmm_ready st" "next_frame st = 0" using pmm_init_ready [of memLow memHigh st] assms by simp_all
  then show ?thesis using take_frames_alternate [of st n] by (auto simp: frame_addr_def)
qed

theorem allocator_alternates_witness:
  "\<exists>st'. take_frames 5 (pmm_init 0x200000 0x1000000) =
     ret ([0x200000, 0x201000, 0x200000, 0x201000, 0x200000], st')"
proof -
  define st where "st = pmm_init 0x200000 0x1000000"
  have f: "first_byte_index st = 0x40" "end_byte_index st = 0x200"
    by (simp_all add: st_def first_byte_index_def end_byte_index_def pmm_init_def CEIL_DIV_def)
  have "[0..<5] = [0, 1, 2, 3, 4 :: nat]" by (simp add: upt_rec)
  then show ?thesis
    using allocator_alternates [OF st_def, of 5] f by (simp add: PMB_size_def st_def [symmetric])
qed

end
