(* ===== verification/Paging.thy ===== *)
theory Paging
  imports Memory
begin

unbundle bit_operations_syntax

text \<open>
  What the page table code of \<^verbatim>\<open>memory/memory.c\<close> does to the address space. The tables are reached
  through the last entry of the directory, which points to the directory itself; the lemmas
  compute the address of an entry, follow one write into a table or into the directory through
  the processor's translation, and end in the effect of \<^verbatim>\<open>memMapPage\<close> and of the boot sequence.
\<close>

section \<open>Bits of addresses\<close>

abbreviation page_of :: "u32 \<Rightarrow> u32" where
  "page_of x \<equiv> x AND 0xFFFFF000"

named_theorems page_bits

lemma bit_page_of [page_bits]: "bit (page_of x) n \<longleftrightarrow> 12 \<le> n \<and> bit x n"
proof -
  have "(0xFFFFF000 :: u32) = push_bit 12 (mask 20)" by (simp add: mask_eq_exp_minus_1 push_bit_eq_mult)
  then show ?thesis by (simp only: bit_and_iff bit_push_bit_iff bit_mask_iff) (auto dest: bit_imp_le_length)
qed

lemma bit_offset [page_bits]: "bit ((x :: u32) AND 0xFFF) n \<longleftrightarrow> n < 12 \<and> bit x n"
proof -
  have "(0xFFF :: u32) = mask 12" by (simp add: mask_eq_exp_minus_1)
  then show ?thesis by (simp only: bit_and_iff bit_push_bit_iff bit_mask_iff) (auto dest: bit_imp_le_length)
qed

lemma bit_index [page_bits]: "bit ((x :: u32) AND 0x3FF) n \<longleftrightarrow> n < 10 \<and> bit x n"
proof -
  have "(0x3FF :: u32) = mask 10" by (simp add: mask_eq_exp_minus_1)
  then show ?thesis by (simp only: bit_and_iff bit_push_bit_iff bit_mask_iff) (auto dest: bit_imp_le_length)
qed

lemma bit_rec [page_bits]: "bit (0xFFC00000 :: u32) n \<longleftrightarrow> 22 \<le> n \<and> n < 32"
proof -
  have "(0xFFC00000 :: u32) = push_bit 22 (mask 10)" by (simp add: mask_eq_exp_minus_1 push_bit_eq_mult)
  then show ?thesis by (simp only: bit_push_bit_iff bit_mask_iff) auto
qed

lemma small_index: "(i :: u32) < 1024 \<longleftrightarrow> i AND 0x3FF = i"
proof -
  have m: "(0x3FF :: u32) = mask 10" by (simp add: mask_eq_exp_minus_1)
  have "take_bit 10 i = i \<longleftrightarrow> unat i < 2 ^ 10"
    by (metis take_bit_nat_eq_self_iff unsigned_take_bit_eq word_unat_eq_iff)
  then show ?thesis unfolding m take_bit_eq_mask [symmetric] by (simp add: word_less_nat_alt)
qed

lemma index_bits: "(i :: u32) < 1024 \<Longrightarrow> bit i n \<Longrightarrow> n < 10"
  using bit_index [of i n] by (simp add: small_index)

lemma page_bits_high: "page_of f = f \<Longrightarrow> bit f n \<Longrightarrow> 12 \<le> n"
  using bit_page_of [of f n] by simp

lemma four_times: "4 * (x :: u32) = push_bit 2 x"
  by (simp add: push_bit_eq_mult)

lemma entry_or:
  assumes "page_of f = f" and "j < 1024"
  shows "f + 4 * j = f OR push_bit 2 j"
proof -
  have "f AND push_bit 2 j = 0"
  proof (rule bit_eqI)
    fix n show "bit (f AND push_bit 2 j) n \<longleftrightarrow> bit (0 :: u32) n"
      using page_bits_high [OF assms(1), of n] index_bits [OF assms(2), of "n - 2"]
      by (auto simp: bit_simps)
  qed
  then show ?thesis by (simp add: four_times disjunctive_add_eq_or)
qed

lemma entry_address:
  assumes "page_of f = f" and "j < 1024"
  shows "page_of (f + 4 * j) = f" and "(f + 4 * j) AND 0xFFF = 4 * j"
proof -
  note bits = page_bits_high [OF assms(1)] index_bits [OF assms(2)]
  show "page_of (f + 4 * j) = f"
    unfolding entry_or [OF assms] 
    by (rule bit_eqI) (auto simp: bit_page_of bit_or_iff bit_push_bit_iff dest: bits)
  show "(f + 4 * j) AND 0xFFF = 4 * j"
    unfolding entry_or [OF assms] unfolding four_times
    by (rule bit_eqI) (fastforce simp: bit_offset bit_or_iff bit_push_bit_iff dest: bits)
qed

lemma rec_address:
  assumes "i < 1024" and "j < 1024"
  shows "drop_bit 22 (REC_PAGETABLE i + 4 * j) = 0x3FF"
    and "drop_bit 12 (REC_PAGETABLE i + 4 * j) AND 0x3FF = i"
    and "(REC_PAGETABLE i + 4 * j) AND 0xFFF = 4 * j"
proof -
  note bits = index_bits [OF assms(1)] index_bits [OF assms(2)]
  have "0xFFC00000 AND push_bit 12 i = 0"
    by (rule bit_eqI, simp only: bit_and_iff bit_rec bit_push_bit_iff) (auto dest: bits)
  then have r: "0xFFC00000 + push_bit 12 i = 0xFFC00000 OR push_bit 12 i"
    by (rule disjunctive_add_eq_or)
  have p: "page_of (0xFFC00000 + push_bit 12 i) = 0xFFC00000 + push_bit 12 i"
    unfolding r by (rule bit_eqI, simp only: bit_page_of bit_or_iff bit_rec bit_push_bit_iff)
      (auto)
  note e = entry_or [OF p assms(2), unfolded r]
  have m: "(0x3FF :: u32) = mask 10" by (simp add: mask_eq_exp_minus_1)
  show "drop_bit 22 (REC_PAGETABLE i + 4 * j) = 0x3FF"
    unfolding r e m
    by (rule bit_eqI, simp only: bit_drop_bit_eq comp_apply bit_or_iff bit_rec bit_push_bit_iff bit_mask_iff)
      (auto dest: bits)
  show "drop_bit 12 (REC_PAGETABLE i + 4 * j) AND 0x3FF = i"
    unfolding r e
    by (rule bit_eqI, simp only: bit_index bit_drop_bit_eq comp_apply bit_or_iff bit_rec bit_push_bit_iff)
      (auto dest: bits)
  show "(REC_PAGETABLE i + 4 * j) AND 0xFFF = 4 * j" by (rule entry_address(2) [OF p assms(2)])
qed


section \<open>The page tables as a map\<close>

abbreviation pde :: "mem_state \<Rightarrow> u32 \<Rightarrow> u32" where
  "pde st i \<equiv> phys st (cr3 st + 4 * i)"

text \<open>A directory entry that points to a page table.\<close>

definition has_table :: "mem_state \<Rightarrow> u32 \<Rightarrow> bool" where
  "has_table st i \<longleftrightarrow> pde st i AND 1 \<noteq> 0 \<and> pde st i AND 0x80 = 0"

text \<open>
  The directory is page aligned and is its own last table; the other tables are neither the
  directory nor shared between two entries.
\<close>

definition wf_tables :: "mem_state \<Rightarrow> bool" where
  "wf_tables st \<longleftrightarrow> page_of (cr3 st) = cr3 st \<and> has_table st 0x3FF \<and> page_of (pde st 0x3FF) = cr3 st \<and>
     (\<forall>i < 0x3FF. has_table st i \<longrightarrow> page_of (pde st i) \<noteq> cr3 st) \<and>
     (\<forall>i < 0x3FF. \<forall>j < 0x3FF. has_table st i \<longrightarrow> has_table st j \<longrightarrow>
        page_of (pde st i) = page_of (pde st j) \<longrightarrow> i = j)"

abbreviation view :: "mem_state \<Rightarrow> u32 \<Rightarrow> u32 option" where
  "view st \<equiv> translate (phys st) (cr3 st)"

lemma page_of_idem [simp]: "page_of (page_of x) = page_of x"
  by (simp add: and.assoc)

lemma index_less: "drop_bit 22 (v :: u32) < 1024" "(v :: u32) AND 0x3FF < 1024"
proof -
  have "drop_bit 22 v AND 0x3FF = drop_bit 22 v"
    by (rule bit_eqI, simp only: bit_index bit_drop_bit_eq comp_apply) (auto dest: bit_imp_le_length)
  then show "drop_bit 22 v < 1024" by (simp only: small_index)
  show "v AND 0x3FF < 1024" by (simp only: small_index and.assoc) simp
qed

lemma entry_inject:
  assumes "page_of f = f" "page_of g = g" "i < 1024" "j < 1024" and eq: "f + 4 * i = g + 4 * j"
  shows "f = g \<and> i = j"
proof -
  have "f = g" using entry_address(1) assms by metis
  moreover have "4 * i = 4 * j" using entry_address(2) assms by metis
  then have "i = j" using assms(3,4)
    by (simp add: word_less_nat_alt word_unat_eq_iff unat_word_ariths del: word_unat_eq_iff [symmetric])
  ultimately show ?thesis by simp
qed

lemma page_number:
  "drop_bit 12 (u :: u32) = drop_bit 12 v \<longleftrightarrow>
     drop_bit 22 u = drop_bit 22 v \<and> drop_bit 12 u AND 0x3FF = drop_bit 12 v AND 0x3FF"
proof
  assume "drop_bit 12 u = drop_bit 12 v"
  moreover have "drop_bit 10 (drop_bit 12 x) = drop_bit 22 x" for x :: u32 by (simp add: drop_bit_drop_bit)
  ultimately show "drop_bit 22 u = drop_bit 22 v \<and> drop_bit 12 u AND 0x3FF = drop_bit 12 v AND 0x3FF"
    by metis
next
  assume eq: "drop_bit 22 u = drop_bit 22 v \<and> drop_bit 12 u AND 0x3FF = drop_bit 12 v AND 0x3FF"
  show "drop_bit 12 u = drop_bit 12 v"
  proof (rule bit_eqI)
    fix n
    have lo: "n < 10 \<Longrightarrow> bit (drop_bit 12 u) n = bit (drop_bit 12 v) n"
      using eq bit_index [of "drop_bit 12 u" n] bit_index [of "drop_bit 12 v" n] by simp
    have "bit (drop_bit 22 u) (n - 10) = bit (drop_bit 22 v) (n - 10)" using eq by simp
    then show "bit (drop_bit 12 u) n = bit (drop_bit 12 v) n"
      using lo by (cases "n < 10") (simp_all add: bit_simps)
  qed
qed

lemma wf_tablesD:
  assumes "wf_tables st"
  shows "page_of (cr3 st) = cr3 st" "has_table st 0x3FF" "page_of (pde st 0x3FF) = cr3 st"
    and "i < 0x3FF \<Longrightarrow> has_table st i \<Longrightarrow> page_of (pde st i) \<noteq> cr3 st"
    and "i < 0x3FF \<Longrightarrow> j < 0x3FF \<Longrightarrow> has_table st i \<Longrightarrow> has_table st j \<Longrightarrow>
      page_of (pde st i) = page_of (pde st j) \<Longrightarrow> i = j"
  using assms unfolding wf_tables_def by blast+

lemma view_window:
  assumes "wf_tables st" and "i < 1024" and "j < 1024"
  shows "view st (REC_PAGETABLE i + 4 * j) =
    (if pde st i AND 1 = 0 then None else Some (page_of (pde st i) + 4 * j))"
proof -
  have "page_of (pde st i) + 4 * j = page_of (pde st i) OR 4 * j"
    using entry_or [OF page_of_idem assms(3)] by (simp add: four_times)
  then show ?thesis
    using wf_tablesD [OF assms(1)]
    unfolding translate_def rec_address [OF assms(2,3)] has_table_def Let_def by simp
qed

lemma view_directory:
  assumes "wf_tables st" and "i < 1024"
  shows "view st (REC_PAGEDIR + 4 * i) = Some (cr3 st + 4 * i)"
proof -
  have "REC_PAGEDIR + 4 * i = REC_PAGETABLE 0x3FF + 4 * i" by (simp add: push_bit_eq_mult)
  then show ?thesis
    using view_window [OF assms(1) _ assms(2), of "0x3FF"] wf_tablesD [OF assms(1)]
    by (simp add: has_table_def)
qed

lemma view_cong:
  assumes "cr3 st' = cr3 st" and "pde st' (drop_bit 22 u) = pde st (drop_bit 22 u)"
    and "has_table st (drop_bit 22 u) \<Longrightarrow>
      phys st' (page_of (pde st (drop_bit 22 u)) + 4 * (drop_bit 12 u AND 0x3FF)) =
      phys st (page_of (pde st (drop_bit 22 u)) + 4 * (drop_bit 12 u AND 0x3FF))"
  shows "view st' u = view st u"
  using assms unfolding translate_def has_table_def Let_def by auto

lemma has_table_cong: "pde st' i = pde st i \<Longrightarrow> has_table st' i = has_table st i"
  by (simp add: has_table_def)

lemma below_last: "(i :: u32) < 0x3FF \<Longrightarrow> i < 1024"
  by (erule order.strict_trans) simp

lemma wf_tables_cong:
  assumes "wf_tables st" and "cr3 st' = cr3 st" and same: "\<And>i. i < 1024 \<Longrightarrow> pde st' i = pde st i"
  shows "wf_tables st'"
proof -
  have table: "has_table st' i = has_table st i" if "i < 1024" for i
    by (rule has_table_cong [OF same [OF that]])
  have last: "(0x3FF :: u32) < 1024" by simp
  show ?thesis
    unfolding wf_tables_def
  proof (intro conjI allI impI)
    show "page_of (cr3 st') = cr3 st'" "has_table st' 0x3FF"
      using wf_tablesD(1,2) [OF assms(1)] table [OF last] assms(2) by simp_all
    show "page_of (pde st' 0x3FF) = cr3 st'"
      by (subst same [OF last]) (simp only: wf_tablesD(3) [OF assms(1)] assms(2))
  next
    fix i assume "i < 0x3FF" "has_table st' i"
    then show "page_of (pde st' i) \<noteq> cr3 st'"
      using wf_tablesD(4) [OF assms(1), of i] table same below_last assms(2) by metis
  next
    fix i j assume "i < 0x3FF" "j < 0x3FF" "has_table st' i" "has_table st' j"
      "page_of (pde st' i) = page_of (pde st' j)"
    then show "i = j"
      using wf_tablesD(5) [OF assms(1), of i j] table same below_last by metis
  qed
qed

text \<open>Writing one entry of a page table.\<close>

definition with_entry :: "u32 \<Rightarrow> u32 \<Rightarrow> u32 \<Rightarrow> mem_state \<Rightarrow> mem_state" where
  "with_entry i j w st = st\<lparr>phys := (phys st)(page_of (pde st i) + 4 * j := w)\<rparr>"

lemma with_entry_fields [simp]:
  "cr3 (with_entry i j w st) = cr3 st" "ipd (with_entry i j w st) = ipd st"
  "frames (with_entry i j w st) = frames st"
  by (simp_all add: with_entry_def)

lemma pde_with_entry:
  assumes "wf_tables st" "has_table st i" "i < 0x3FF" "j < 1024" "k < 1024"
  shows "phys (with_entry i j w st) (cr3 st + 4 * k) = pde st k"
proof -
  have "page_of (pde st i) + 4 * j \<noteq> cr3 st + 4 * k"
    using entry_inject [OF page_of_idem wf_tablesD(1) [OF assms(1)] assms(4,5)]
      wf_tablesD(4) [OF assms(1,3,2)] by blast
  then show ?thesis by (simp add: with_entry_def)
qed

lemma wf_with_entry:
  assumes "wf_tables st" "has_table st i" "i < 0x3FF" "j < 1024"
  shows "wf_tables (with_entry i j w st)"
  by (rule wf_tables_cong [OF assms(1)]) (simp_all add: pde_with_entry [OF assms])

lemma vwrite_entry:
  assumes "wf_tables st" "has_table st i" "i < 0x3FF" "j < 1024"
  shows "vwrite (REC_PAGETABLE i + 4 * j) w st = ret (with_entry i j w st)"
    and "vread (REC_PAGETABLE i + 4 * j) st = ret (phys st (page_of (pde st i) + 4 * j))"
  using view_window [OF assms(1) below_last [OF assms(3)] assms(4)] assms(2)
  by (simp_all add: vwrite_def vread_def with_entry_def has_table_def)

lemma view_with_entry:
  assumes "wf_tables st" "has_table st i" "i < 0x3FF" "j < 1024" and u: "drop_bit 22 u \<noteq> 0x3FF"
  shows "view (with_entry i j w st) u =
    (if drop_bit 22 u = i \<and> drop_bit 12 u AND 0x3FF = j
     then (if w AND 1 = 0 then None else Some (page_of w OR (u AND 0xFFF))) else view st u)"
proof (cases "drop_bit 22 u = i \<and> drop_bit 12 u AND 0x3FF = j")
  case True
  have "phys (with_entry i j w st) (cr3 st + 4 * i) = pde st i"
    by (rule pde_with_entry [OF assms(1-4) below_last [OF assms(3)]])
  with True assms(2) show ?thesis
    unfolding translate_def Let_def has_table_def by (simp add: with_entry_def)
next
  case False
  let ?k = "drop_bit 22 u" and ?l = "drop_bit 12 u AND 0x3FF"
  have k: "?k < 0x3FF"
    using index_less(1) [of u] u by (simp add: word_less_nat_alt word_unat_eq_iff) 
  have "page_of (pde st ?k) + 4 * ?l \<noteq> page_of (pde st i) + 4 * j" if "has_table st ?k"
    using entry_inject [OF page_of_idem page_of_idem index_less(2) assms(4)]
      wf_tablesD(5) [OF assms(1) k assms(3) that assms(2)] False by blast
  then have "view (with_entry i j w st) u = view st u"
    by (intro view_cong) (simp_all add: pde_with_entry [OF assms(1-4) index_less(1)],
      simp add: with_entry_def)
  then show ?thesis by (subst if_not_P [OF False])
qed

text \<open>What a change inside table \<open>i\<close> leaves alone.\<close>

definition table_step :: "u32 \<Rightarrow> mem_state \<Rightarrow> mem_state \<Rightarrow> bool" where
  "table_step i st st' \<longleftrightarrow> wf_tables st' \<and> has_table st' i \<and> cr3 st' = cr3 st \<and> ipd st' = ipd st \<and>
     frames st' = frames st \<and> (\<forall>k < 1024. phys st' (cr3 st + 4 * k) = pde st k) \<and>
     (\<forall>u. drop_bit 22 u \<noteq> 0x3FF \<longrightarrow> drop_bit 22 u \<noteq> i \<longrightarrow> view st' u = view st u)"

lemma table_step_trans: "table_step i a b \<Longrightarrow> table_step i b c \<Longrightarrow> table_step i a c"
  unfolding table_step_def by metis

lemma table_step_entry:
  assumes "wf_tables st" "has_table st i" "i < 0x3FF" "j < 1024"
  shows "table_step i st (with_entry i j w st)"
proof -
  have "has_table (with_entry i j w st) i"
    using assms(2) pde_with_entry [OF assms below_last [OF assms(3)]] by (simp add: has_table_def)
  moreover have "view (with_entry i j w st) u = view st u" if "drop_bit 22 u \<noteq> 0x3FF" "drop_bit 22 u \<noteq> i" for u
    using view_with_entry [OF assms that(1)] that(2) by simp
  ultimately show ?thesis
    by (simp add: table_step_def wf_with_entry [OF assms] pde_with_entry [OF assms])
qed

lemma clear_table_step:
  assumes "wf_tables st" "has_table st i" "i < 0x3FF" "k + n = 1024"
  shows "\<exists>st'. clear_table (REC_PAGETABLE i) (of_nat k) n st = ret st' \<and> (n = 0 \<longrightarrow> st' = st) \<and>
    (0 < n \<longrightarrow> table_step i st st') \<and>
    (\<forall>j < 1024. phys st' (page_of (pde st i) + 4 * j) =
      (if k \<le> unat j then 0 else phys st (page_of (pde st i) + 4 * j)))"
  using assms
proof (induction n arbitrary: st k)
  case 0
  then show ?case by (auto simp: word_less_nat_alt)
next
  case (Suc n)
  have k: "unat (of_nat k :: u32) = k" using Suc.prems(4) by (simp add: unsigned_of_nat take_bit_nat_eq_self)
  then have k_less: "(of_nat k :: u32) < 1024" using Suc.prems(4) by (simp add: word_less_nat_alt)
  note wf = Suc.prems(1-3) k_less
  define st1 where "st1 = with_entry i (of_nat k) 0 st"
  have step1: "table_step i st st1" unfolding st1_def by (rule table_step_entry [OF wf])
  then have "wf_tables st1" "has_table st1 i" by (simp_all add: table_step_def)
  then obtain st' where st': "clear_table (REC_PAGETABLE i) (of_nat (Suc k)) n st1 = ret st'"
    "n = 0 \<longrightarrow> st' = st1" "0 < n \<longrightarrow> table_step i st1 st'"
    "\<forall>j < 1024. phys st' (page_of (pde st1 i) + 4 * j) =
      (if Suc k \<le> unat j then 0 else phys st1 (page_of (pde st1 i) + 4 * j))"
    using Suc.IH [of st1 "Suc k"] Suc.prems by auto
  have same: "pde st1 i = pde st i"
    using step1 below_last [OF Suc.prems(3)] by (simp add: table_step_def)
  have run: "clear_table (REC_PAGETABLE i) (of_nat k) (Suc n) st = ret st'"
    using vwrite_entry(1) [OF wf] st'(1) by (simp add: st1_def add.commute)
  have step: "table_step i st st'"
    using st'(2,3) step1 table_step_trans by (cases n) auto
  have "phys st' (page_of (pde st i) + 4 * j) =
      (if k \<le> unat j then 0 else phys st (page_of (pde st i) + 4 * j))" if "j < 1024" for j
  proof -
    have "page_of (pde st i) + 4 * j = page_of (pde st i) + 4 * of_nat k \<longleftrightarrow> unat j = k"
      using entry_inject [OF page_of_idem page_of_idem that k_less] k by auto
    then show ?thesis
      using st'(4)[rule_format, OF that] unfolding same by (auto simp: st1_def with_entry_def)
  qed
  then show ?case using run step by auto
qed

text \<open>Entering a new table into the directory.\<close>

definition with_table :: "u32 \<Rightarrow> u32 \<Rightarrow> mem_state \<Rightarrow> mem_state" where
  "with_table i w st = st\<lparr>phys := (phys st)(cr3 st + 4 * i := w)\<rparr>"

lemma with_table_fields [simp]:
  "cr3 (with_table i w st) = cr3 st" "ipd (with_table i w st) = ipd st"
  "frames (with_table i w st) = frames st"
  by (simp_all add: with_table_def)

lemma pde_with_table:
  assumes "wf_tables st" "i < 1024" "k < 1024"
  shows "phys (with_table i w st) (cr3 st + 4 * k) = (if k = i then w else pde st k)"
  using entry_inject [OF wf_tablesD(1) wf_tablesD(1), OF assms(1) assms(1) assms(3,2)]
  by (auto simp: with_table_def)

lemma wf_with_table:
  assumes wf: "wf_tables st" and i: "i < 0x3FF" and w: "w AND 1 \<noteq> 0" "w AND 0x80 = 0"
    and new: "page_of w \<noteq> cr3 st"
      "\<And>k. k < 0x3FF \<Longrightarrow> has_table st k \<Longrightarrow> k \<noteq> i \<Longrightarrow> page_of (pde st k) \<noteq> page_of w"
  shows "wf_tables (with_table i w st)" and "has_table (with_table i w st) i"
proof -
  note pde = pde_with_table [OF wf below_last [OF i]]
  have tab: "has_table (with_table i w st) k = (k = i \<or> has_table st k)" if "k < 1024" for k
    using w by (simp add: has_table_def pde [OF that])
  have last: "(0x3FF :: u32) < 1024" by simp
  show "has_table (with_table i w st) i" using tab [OF below_last [OF i]] by simp
  show "wf_tables (with_table i w st)"
    unfolding wf_tables_def
  proof (intro conjI allI impI)
    show "page_of (cr3 (with_table i w st)) = cr3 (with_table i w st)"
      using wf_tablesD(1) [OF wf] by simp
    show "has_table (with_table i w st) 0x3FF" using tab [OF last] wf_tablesD(2) [OF wf] by simp
    show "page_of (pde (with_table i w st) 0x3FF) = cr3 (with_table i w st)"
      unfolding with_table_fields pde [OF last] using i wf_tablesD(3) [OF wf] by auto
  next
    fix k assume "k < 0x3FF" "has_table (with_table i w st) k"
    then show "page_of (pde (with_table i w st) k) \<noteq> cr3 (with_table i w st)"
      using wf_tablesD(4) [OF wf, of k] new(1) tab [OF below_last] pde [OF below_last] by auto
  next
    fix k l assume "k < 0x3FF" "l < 0x3FF" "has_table (with_table i w st) k"
      "has_table (with_table i w st) l"
      "page_of (pde (with_table i w st) k) = page_of (pde (with_table i w st) l)"
    then have "k = i \<or> has_table st k" "l = i \<or> has_table st l"
      "page_of (if k = i then w else pde st k) = page_of (if l = i then w else pde st l)"
      by (simp_all add: tab [OF below_last] pde [OF below_last])
    with \<open>k < 0x3FF\<close> \<open>l < 0x3FF\<close> show "k = l"
      using wf_tablesD(5) [OF wf, of k l] new(2) [of k] new(2) [of l]
      by (cases "k = i"; cases "l = i") simp_all
  qed
qed

lemma view_with_table:
  assumes wf: "wf_tables st" and i: "i < 0x3FF" and u: "drop_bit 22 u \<noteq> 0x3FF" "drop_bit 22 u \<noteq> i"
  shows "view (with_table i w st) u = view st u"
proof -
  let ?k = "drop_bit 22 u" and ?l = "drop_bit 12 u AND 0x3FF"
  have k: "?k < 0x3FF"
    using index_less(1) [of u] u by (simp add: word_less_nat_alt word_unat_eq_iff)
  have "page_of (pde st ?k) + 4 * ?l \<noteq> cr3 st + 4 * i" if "has_table st ?k"
    using entry_inject [OF page_of_idem wf_tablesD(1) [OF wf] index_less(2) below_last [OF i]]
      wf_tablesD(4) [OF wf k that] by blast
  then show ?thesis
    by (intro view_cong)
      (simp_all add: pde_with_table [OF wf below_last [OF i] index_less(1)] u(2), simp add: with_table_def)
qed

text \<open>A frame address with flag bits in the low end.\<close>

lemma flag_bits:
  assumes "page_of f = f" and "flags AND 0xFFFFFFFC = 0"
  shows "page_of (f OR 1 OR flags) = f" "(f OR 1 OR flags) AND 1 \<noteq> 0"
    "page_of (f OR 1 OR 2 OR 0x200 OR flags) = f" "(f OR 1 OR 2 OR 0x200 OR flags) AND 1 \<noteq> 0"
    "(f OR 1 OR 2 OR 0x200 OR flags) AND 0x80 = 0" "flags AND 4 = 0"
proof -
  have k: "flags AND m = 0" if "0xFFFFFFFC AND m = m" for m
  proof -
    have "flags AND m = (flags AND 0xFFFFFFFC) AND m" by (simp only: and.assoc that)
    then show ?thesis by (simp only: assms(2) bit.conj_zero_left)
  qed
  have flags: "flags AND 4 = 0" "flags AND 0x80 = 0" "page_of flags = 0"
    by (rule k, simp)+
  have "f AND 0x80 = page_of f AND 0x80" using assms(1) by simp
  then have f: "f AND 0x80 = 0" by (simp add: and.assoc)
  show "flags AND 4 = 0" by (rule flags(1))
  show "page_of (f OR 1 OR flags) = f" "page_of (f OR 1 OR 2 OR 0x200 OR flags) = f"
    using flags(3) assms(1) by (simp_all add: bit.conj_disj_distrib2)
  show "(f OR 1 OR 2 OR 0x200 OR flags) AND 0x80 = 0"
    using flags(2) f by (simp add: bit.conj_disj_distrib2)
  have "bit (x OR 1 OR y) 0" for x y :: u32 by (simp add: bit_or_iff)
  then show "(f OR 1 OR flags) AND 1 \<noteq> 0" "(f OR 1 OR 2 OR 0x200 OR flags) AND 1 \<noteq> 0"
    by (auto simp: and_one_eq bit_0 mod_2_eq_odd bit_or_iff)
qed

text \<open>
  The frame a missing table would get is a page of its own: neither the directory nor a table.
\<close>

definition fresh_frame :: "u32 \<Rightarrow> mem_state \<Rightarrow> bool" where
  "fresh_frame f st \<longleftrightarrow> page_of f = f \<and> f \<noteq> cr3 st \<and>
     (\<forall>k < 0x3FF. has_table st k \<longrightarrow> page_of (pde st k) \<noteq> f)"

lemma ensure_table_old:
  assumes "wf_tables st" "has_table st i" "i < 0x3FF" "flags AND 4 = 0"
  shows "ensure_table i flags st = ret st"
  using view_directory [OF assms(1) below_last [OF assms(3)]] assms(2,4)
  by (simp add: ensure_table_def vread_def has_table_def)

lemma ensure_table_new:
  assumes wf: "wf_tables st" and i: "i < 0x3FF" and absent: "pde st i AND 1 = 0"
    and alloc: "pmmAllocPageFrame (frames st) = ret (f, fr)" and f: "fresh_frame f st"
    and flags: "flags AND 0xFFFFFFFC = 0"
  obtains st' where "ensure_table i flags st = ret st'" "wf_tables st'" "has_table st' i"
    "cr3 st' = cr3 st" "ipd st' = ipd st" "frames st' = fr"
    "\<And>k. k < 1024 \<Longrightarrow> k \<noteq> i \<Longrightarrow> phys st' (cr3 st + 4 * k) = pde st k" "page_of (pde st' i) = f"
    "\<And>j. j < 1024 \<Longrightarrow> phys st' (f + 4 * j) = 0"
    "\<And>u. drop_bit 22 u \<noteq> 0x3FF \<Longrightarrow> view st' u = view st u"
proof -
  define w where "w = f OR 1 OR 2 OR 0x200 OR flags"
  have f': "page_of f = f" "f \<noteq> cr3 st" using f by (simp_all add: fresh_frame_def)
  note w = flag_bits(3-5) [OF f'(1) flags, folded w_def]
  note i' = below_last [OF i]
  define st1 where "st1 = with_table i w (st\<lparr>frames := fr\<rparr>)"
  have wf0: "wf_tables (st\<lparr>frames := fr\<rparr>)" by (rule wf_tables_cong [OF wf]) simp_all
  have tab0: "has_table (st\<lparr>frames := fr\<rparr>) k = has_table st k" for k by (simp add: has_table_def)
  have wf1: "wf_tables st1" "has_table st1 i"
    unfolding st1_def using f wf_with_table [OF wf0 i w(2,3)]
    by (auto simp: w(1) tab0 fresh_frame_def)
  have pde1: "phys st1 (cr3 st + 4 * k) = (if k = i then w else pde st k)" if "k < 1024" for k
    using pde_with_table [OF wf0 i' that, of w] by (simp add: st1_def)
  have cr3: "cr3 st1 = cr3 st" "ipd st1 = ipd st" "frames st1 = fr" by (simp_all add: st1_def)
  obtain st' where st': "clear_table (REC_PAGETABLE i) 0 1024 st1 = ret st'" "table_step i st1 st'"
    "\<And>j. j < 1024 \<Longrightarrow> phys st' (page_of (pde st1 i) + 4 * j) = 0"
    using clear_table_step [OF wf1 i, of 0 1024] by auto
  have pde_i: "page_of (pde st1 i) = f" using pde1 [OF i'] w(1) cr3 by simp
  have same: "phys st' (cr3 st + 4 * k) = phys st1 (cr3 st + 4 * k)" if "k < 1024" for k
    using st'(2) cr3 that by (simp add: table_step_def)
  show thesis
  proof (rule that [of st'])
    have "vwrite (REC_PAGEDIR + 4 * i) w (st\<lparr>frames := fr\<rparr>) = ret st1"
      using view_directory [OF wf0 i'] by (simp add: vwrite_def st1_def with_table_def)
    then show "ensure_table i flags st = ret st'"
      using view_directory [OF wf i'] absent alloc st'(1)
      by (simp add: ensure_table_def vread_def w_def)
    show "wf_tables st'" "has_table st' i" "cr3 st' = cr3 st" "ipd st' = ipd st" "frames st' = fr"
      using st'(2) cr3 by (simp_all add: table_step_def)
    then show "page_of (pde st' i) = f" using same [OF i'] pde_i cr3 by simp
    show "phys st' (f + 4 * j) = 0" if "j < 1024" for j using st'(3) [OF that] pde_i by simp
    show "phys st' (cr3 st + 4 * k) = pde st k" if "k < 1024" "k \<noteq> i" for k
      using same pde1 that by simp
    show "view st' u = view st u" if u: "drop_bit 22 u \<noteq> 0x3FF" for u
    proof (cases "drop_bit 22 u = i")
      case True
      have "view st' u = None"
        using st'(3) [OF index_less(2), of "drop_bit 12 u"] True wf1(2) same [OF i'] cr3
          st'(2) unfolding translate_def table_step_def has_table_def by (simp add: Let_def)
      then show ?thesis using True absent by (simp add: translate_def)
    next
      case False
      have "view st' u = view st1 u" using st'(2) u False unfolding table_step_def by blast
      then show ?thesis using view_with_table [OF wf0 i u False, of w] by (simp add: st1_def)
    qed
  qed
qed

section \<open>Mapping a page\<close>

text \<open>
  Where the entry for \<open>v\<close> goes: a table that is there with an empty entry, or the frame \<open>f\<close> the
  allocator gives for a new one (leaving \<open>fr\<close>).
\<close>

definition table_for :: "u32 \<Rightarrow> u32 \<Rightarrow> pmm \<Rightarrow> mem_state \<Rightarrow> bool" where
  "table_for v f fr st \<longleftrightarrow>
     has_table st (drop_bit 22 v) \<and> f = page_of (pde st (drop_bit 22 v)) \<and> fr = frames st \<and>
       phys st (f + 4 * (drop_bit 12 v AND 0x3FF)) = 0 \<or>
     pde st (drop_bit 22 v) AND 1 = 0 \<and> pmmAllocPageFrame (frames st) = ret (f, fr) \<and> fresh_frame f st"

text \<open>The state after \<open>v\<close>'s page has been mapped to the frame \<open>p\<close> through the table at \<open>f\<close>.\<close>

definition mapped :: "u32 \<Rightarrow> u32 \<Rightarrow> u32 \<Rightarrow> pmm \<Rightarrow> mem_state \<Rightarrow> mem_state \<Rightarrow> bool" where
  "mapped v p f fr st st' \<longleftrightarrow> wf_tables st' \<and> cr3 st' = cr3 st \<and> ipd st' = ipd st \<and> frames st' = fr \<and>
     has_table st' (drop_bit 22 v) \<and> page_of (pde st' (drop_bit 22 v)) = f \<and>
     (\<forall>k < 1024. k \<noteq> drop_bit 22 v \<longrightarrow> phys st' (cr3 st + 4 * k) = pde st k) \<and>
     (\<forall>u. drop_bit 22 u \<noteq> 0x3FF \<longrightarrow> view st' u =
       (if drop_bit 12 u = drop_bit 12 v then Some (p OR (u AND 0xFFF)) else view st u))"

lemma ensure_table_for:
  assumes "wf_tables st" "drop_bit 22 v < 0x3FF" "table_for v f fr st" "flags AND 0xFFFFFFFC = 0"
  obtains st' where "ensure_table (drop_bit 22 v) flags st = ret st'" "wf_tables st'"
    "has_table st' (drop_bit 22 v)" "cr3 st' = cr3 st" "ipd st' = ipd st" "frames st' = fr"
    "\<And>k. k < 1024 \<Longrightarrow> k \<noteq> drop_bit 22 v \<Longrightarrow> phys st' (cr3 st + 4 * k) = pde st k"
    "page_of (pde st' (drop_bit 22 v)) = f"
    "phys st' (f + 4 * (drop_bit 12 v AND 0x3FF)) = 0"
    "\<And>u. drop_bit 22 u \<noteq> 0x3FF \<Longrightarrow> view st' u = view st u"
    "\<And>j. pde st (drop_bit 22 v) AND 1 = 0 \<Longrightarrow> j < 1024 \<Longrightarrow> phys st' (f + 4 * j) = 0"
  using assms(3) unfolding table_for_def
proof (elim disjE conjE)
  assume old: "has_table st (drop_bit 22 v)" "f = page_of (pde st (drop_bit 22 v))" "fr = frames st"
    "phys st (f + 4 * (drop_bit 12 v AND 0x3FF)) = 0"
  have "flags AND 4 = 0" using flag_bits(6) [OF page_of_idem assms(4)] .
  from ensure_table_old [OF assms(1) old(1) assms(2) this] assms(1) old(1) show thesis
    by (rule that) (use old(1) in \<open>simp_all add: old(2,3) old(4) [unfolded old(2)] has_table_def\<close>)
next
  assume new: "pde st (drop_bit 22 v) AND 1 = 0" "pmmAllocPageFrame (frames st) = ret (f, fr)"
    "fresh_frame f st"
  show thesis
    by (rule ensure_table_new [OF assms(1,2) new assms(4)], rule that)
      (assumption | blast intro: index_less)+
qed

lemma syncPageDirs_fields [simp]:
  "phys (syncPageDirs st) = phys st" "cr3 (syncPageDirs st) = cr3 st" "ipd (syncPageDirs st) = ipd st"
  "frames (syncPageDirs st) = frames st"
  by (simp_all add: syncPageDirs_def)

lemma mapped_cong:
  assumes "mapped v p f fr st st1" and "phys st' = phys st1" "cr3 st' = cr3 st1" "ipd st' = ipd st1"
    "frames st' = frames st1"
  shows "mapped v p f fr st st'"
  unfolding mapped_def wf_tables_def has_table_def assms(2-5)
  by (rule assms(1) [unfolded mapped_def wf_tables_def has_table_def])

lemma memMapPage_mapped:
  assumes wf: "wf_tables st" and i: "drop_bit 22 v < 0x3FF" and cr3: "v < KERNEL_START \<or> cr3 st = ipd st"
    and t: "table_for v f fr st" and p: "page_of p = p" and flags: "flags AND 0xFFFFFFFC = 0"
  obtains st' where "memMapPage v p flags st = ret st'" "mapped v p f fr st st'"
    "pde st (drop_bit 22 v) AND 1 = 0 \<longrightarrow> (\<forall>j < 1024. phys st' (f + 4 * j) =
      (if j = drop_bit 12 v AND 0x3FF then p OR 1 OR flags else 0))"
proof -
  define pti where "pti = drop_bit 12 v AND 0x3FF"
  note j = index_less(2) [of "drop_bit 12 v", folded pti_def]
  obtain st1 where e: "ensure_table (drop_bit 22 v) flags st = ret st1" "wf_tables st1"
    "has_table st1 (drop_bit 22 v)" "cr3 st1 = cr3 st" "ipd st1 = ipd st" "frames st1 = fr"
    "\<And>k. k < 1024 \<Longrightarrow> k \<noteq> drop_bit 22 v \<Longrightarrow> phys st1 (cr3 st + 4 * k) = pde st k"
    "page_of (pde st1 (drop_bit 22 v)) = f" "phys st1 (f + 4 * pti) = 0"
    "\<And>u. drop_bit 22 u \<noteq> 0x3FF \<Longrightarrow> view st1 u = view st u"
    "\<And>j. pde st (drop_bit 22 v) AND 1 = 0 \<Longrightarrow> j < 1024 \<Longrightarrow> phys st1 (f + 4 * j) = 0"
    by (rule ensure_table_for [OF wf i t flags, folded pti_def]) (rule that)
  note wf1 = e(2,3) i j
  define w where "w = p OR 1 OR flags"
  note w = flag_bits(1,2) [OF p flags, folded w_def]
  define st2 where "st2 = with_entry (drop_bit 22 v) pti w st1"
  have step: "table_step (drop_bit 22 v) st1 st2" unfolding st2_def by (rule table_step_entry [OF wf1])
  have m: "mapped v p f fr st st2"
    unfolding mapped_def
  proof (intro conjI allI impI)
    show "wf_tables st2" "cr3 st2 = cr3 st" "ipd st2 = ipd st" "frames st2 = fr"
      "has_table st2 (drop_bit 22 v)"
      using step e by (simp_all add: table_step_def)
    show "page_of (pde st2 (drop_bit 22 v)) = f"
      using step e(4,8) index_less(1) [of v] by (simp add: table_step_def)
    show "phys st2 (cr3 st + 4 * k) = pde st k" if "k < 1024" "k \<noteq> drop_bit 22 v" for k
      using step e(4,7) that by (simp add: table_step_def)
    show "view st2 u = (if drop_bit 12 u = drop_bit 12 v then Some (p OR (u AND 0xFFF)) else view st u)"
      if "drop_bit 22 u \<noteq> 0x3FF" for u
      unfolding st2_def page_number using view_with_entry [OF wf1 that, of w] w e(10) [OF that]
      by (simp add: pti_def)
  qed
  have f: "page_of f = f" using e(8) by (metis page_of_idem)
  have contents: "phys st2 (f + 4 * k) = (if k = pti then w else 0)"
    if "pde st (drop_bit 22 v) AND 1 = 0" "k < 1024" for k
  proof -
    have "page_of (phys st1 (cr3 st1 + 4 * drop_bit 22 v)) = f" using e(8) by simp
    then show ?thesis
      using e(11) [OF that] entry_inject [OF f f that(2) j] by (auto simp: st2_def with_entry_def)
  qed
  define st3 where "st3 = st2\<lparr>mem_num_vpages := mem_num_vpages st2 + 1\<rparr>"
  define st4 where "st4 = (if v \<ge> KERNEL_START \<and> memGCPD st \<noteq> 0 then syncPageDirs st3 else st3)"
  have "vread (REC_PAGETABLE (drop_bit 22 v) + 4 * pti) st1 = ret 0"
    using vwrite_entry(2) [OF wf1] e(4,8,9) by simp
  moreover have "vwrite (REC_PAGETABLE (drop_bit 22 v) + 4 * pti) w st1 = ret st2"
    unfolding st2_def by (rule vwrite_entry(1) [OF wf1])
  moreover have "KERNEL_START \<le> v \<Longrightarrow> memGCPD st = ipd st + KERNEL_START"
    using cr3 by (auto simp: memGCPD_def)
  ultimately have "memMapPage v p flags st = ret st4"
    using e(1) unfolding memMapPage_def Let_def pti_def [symmetric] st4_def st3_def w_def
    by (cases "KERNEL_START \<le> v") (simp_all only: bind_ret simp_thms if_True if_False or.left_neutral)
  moreover have "mapped v p f fr st st4"
    by (rule mapped_cong [OF m]) (simp_all add: st4_def st3_def)
  moreover have "phys st4 = phys st2" by (simp add: st4_def st3_def)
  ultimately show thesis using contents by (intro that [of st4]) (simp_all add: pti_def w_def)
qed

section \<open>The boot sequence\<close>

text \<open>
  The directory as \<^verbatim>\<open>boot.s\<close> leaves it: page aligned, in use, every entry absent or a large page,
  nothing at the heap's addresses.
\<close>

definition boot_directory :: "mem_state \<Rightarrow> bool" where
  "boot_directory st \<longleftrightarrow> page_of (ipd st) = ipd st \<and> cr3 st = ipd st \<and>
     (\<forall>k < 1024. pde st k AND 1 = 0 \<or> pde st k AND 0x80 \<noteq> 0) \<and> pde st 0x340 AND 1 = 0"

lemma initMemory_directory:
  fixes low memHigh :: u32
  assumes "boot_directory st"
  defines "st0 \<equiv> initMemory memHigh low st"
  shows "wf_tables st0" and "cr3 st0 = ipd st0" "ipd st0 = ipd st" "frames st0 = pmm_init low memHigh"
    and "k < 0x3FF \<Longrightarrow> \<not> has_table st0 k" and "phys st0 (cr3 st0) = 0" "pde st0 0x340 AND 1 = 0"
proof -
  have a: "page_of (ipd st) = ipd st" "cr3 st = ipd st" using assms(1) by (simp_all add: boot_directory_def)
  show st0: "cr3 st0 = ipd st0" "ipd st0 = ipd st" "frames st0 = pmm_init low memHigh"
    by (simp_all add: st0_def initMemory_def a)
  have last: "(0x3FF :: u32) < 1024" and zero: "(0 :: u32) < 1024" by simp_all
  have ne: "ipd st + 4 * k \<noteq> ipd st + 4 * 0x3FF" if "k < 0x3FF" for k
    using entry_inject [OF a(1) a(1) below_last [OF that] last] that by auto
  have pde0: "phys st0 (ipd st + 4 * k) = (if k = 0 then 0 else pde st k)" if "k < 0x3FF" for k
    using ne [OF that] entry_inject [OF a(1) a(1) below_last [OF that] zero] a(2)
    by (auto simp: st0_def initMemory_def)
  have rec: "phys st0 (ipd st + 4 * 0x3FF) = ipd st OR 1 OR 2" by (simp add: st0_def initMemory_def)
  show none: "\<not> has_table st0 k" if "k < 0x3FF" for k
  proof -
    have "pde st k AND 1 = 0 \<or> pde st k AND 0x80 \<noteq> 0"
      using assms(1) below_last [OF that] unfolding boot_directory_def by blast
    then show ?thesis using pde0 [OF that] st0 a by (auto simp: has_table_def)
  qed
  show "phys st0 (cr3 st0) = 0" using pde0 [of 0] st0 by simp
  have "(0x340 :: u32) < 0x3FF" by simp
  then show "pde st0 0x340 AND 1 = 0"
    using pde0 [of "0x340"] assms(1) st0 a by (simp add: boot_directory_def)
  have bits: "page_of (ipd st OR 1 OR 2) = ipd st" "(ipd st OR 1 OR 2) AND 1 \<noteq> 0"
    using flag_bits(1,2) [OF a(1), of 2] by simp_all
  have "ipd st AND 0x80 = page_of (ipd st) AND 0x80" by (simp add: a(1))
  then have "(ipd st OR 1 OR 2) AND 0x80 = 0" by (simp add: bit.conj_disj_distrib2 and.assoc)
  with bits rec have "has_table st0 0x3FF" "page_of (pde st0 0x3FF) = cr3 st0"
    by (simp_all add: st0 has_table_def)
  moreover have "page_of (cr3 st0) = cr3 st0" by (simp add: st0 a)
  ultimately show "wf_tables st0" unfolding wf_tables_def using none by blast
qed

lemma boot_frames:
  assumes "0x211000 \<le> memHigh"
  shows "pmm_ready (pmm_init 0x200000 memHigh)" "next_frame (pmm_init 0x200000 memHigh) = 0"
    "frame_addr (pmm_init 0x200000 memHigh) 0 = 0x200000"
    "frame_addr (pmm_init 0x200000 memHigh) 1 = 0x201000"
proof -
  define fr where "fr = pmm_init 0x200000 memHigh"
  have first: "first_byte_index fr = 0x40"
    by (simp add: fr_def first_byte_index_def pmm_init_def CEIL_DIV_def)
  define e where "e = memHigh div 0x1000 div 8"
  have "0x211000 \<le> unat memHigh" using assms by (simp add: word_le_nat_alt)
  then have "0x42 \<le> unat memHigh div 0x1000 div 8" by linarith
  then have e: "0x42 \<le> unat e" by (simp add: e_def unat_div_distrib)
  then have "unat (e - 1) = unat e - 1" by (subst unat_sub) (simp_all add: word_le_nat_alt)
  with e have "0x40 < e" "0x40 < e - 1" by (simp_all add: word_less_nat_alt)
  then have "0x40 < end_byte_index fr"
    by (simp add: end_byte_index_def fr_def pmm_init_def e_def)
  with first have "first_byte_index fr < end_byte_index fr" by simp
  then show "pmm_ready fr" "next_frame fr = 0"
    using pmm_init_ready [of "0x200000" memHigh fr] first by (simp_all add: fr_def PMB_size_def)
  show "frame_addr fr 0 = 0x200000" "frame_addr fr 1 = 0x201000"
    by (simp_all add: frame_addr_def first)
qed

lemma wf_take_frame:
  assumes "wf_tables st"
  shows "wf_tables (st\<lparr>frames := fr\<rparr>)" "has_table (st\<lparr>frames := fr\<rparr>) k = has_table st k"
    "view (st\<lparr>frames := fr\<rparr>) = view st"
  by (rule wf_tables_cong [OF assms]) (simp_all add: has_table_def)

lemma kmallocInit_page:
  "kmallocInit 0x1000 h st =
     bind_run (pmmAllocPageFrame (frames st)) (\<lambda>(p, fr).
       bind_run (memMapPage KERNEL_MALLOC p 2 (st\<lparr>frames := fr\<rparr>))
         (\<lambda>st. ret (h\<lparr>heapStart := KERNEL_MALLOC, heapSize := 0, threshold := 0,
           kmallocInitialized := True\<rparr>, st)))"
proof -
  have "CEIL_DIV 0 0x1000 = 0" by (simp add: CEIL_DIV_def)
  moreover have "sint (0x1000 + 0x1000 - 1 :: u32) sdiv 0x1000 = 1" by (simp add: signed_divide_int_def)
  ultimately show ?thesis
    by (simp add: kmallocInit_def changeHeapSize_def bind_run_assoc case_prod_beta' Let_def)
qed

lemma mapped_view:
  "mapped v p f fr st st' \<Longrightarrow> drop_bit 22 u \<noteq> 0x3FF \<Longrightarrow>
     view st' u = (if drop_bit 12 u = drop_bit 12 v then Some (p OR (u AND 0xFFF)) else view st u)"
  unfolding mapped_def by blast

lemma mapped_table: "mapped v p f fr st st' \<Longrightarrow> page_of (pde st' (drop_bit 22 v)) = f"
  unfolding mapped_def by blast

lemma entry_flags: "0xB8000 OR 1 OR 3 = (0xB8003 :: u32)"
proof -
  have "1 OR 3 = (3 :: u32)" by (rule bit_eqI) (auto simp: bit_simps)
  then show ?thesis by simp
qed

lemma drop_page: "drop_bit 12 (page_of x) = drop_bit 12 x" "drop_bit 22 (page_of x) = drop_bit 22 x"
  by (rule bit_eqI, simp only: bit_drop_bit_eq comp_apply bit_page_of, simp)+

lemma heap_page_entry:
  assumes "j < 1024"
  shows "drop_bit 12 (KERNEL_MALLOC + 4 * j) = drop_bit 12 KERNEL_MALLOC"
    and "drop_bit 22 (KERNEL_MALLOC + 4 * j) = 0x340"
    and "0x200000 OR ((KERNEL_MALLOC + 4 * j) AND 0xFFF) = 0x200000 + 4 * j"
proof -
  have p: "page_of KERNEL_MALLOC = KERNEL_MALLOC" "page_of 0x200000 = 0x200000" by simp_all
  note e = entry_address [OF p(1) assms]
  show "drop_bit 12 (KERNEL_MALLOC + 4 * j) = drop_bit 12 KERNEL_MALLOC"
    using drop_page(1) [of "KERNEL_MALLOC + 4 * j"] unfolding e(1) by simp
  show "drop_bit 22 (KERNEL_MALLOC + 4 * j) = 0x340"
    using drop_page(2) [of "KERNEL_MALLOC + 4 * j"] unfolding e(1) by simp
  show "0x200000 OR ((KERNEL_MALLOC + 4 * j) AND 0xFFF) = 0x200000 + 4 * j"
    using e(2) entry_or [OF p(2) assms] by (simp only: four_times)
qed

lemma boot_memory:
  assumes boot: "boot_directory st" and far: "ipd st \<noteq> 0x200000" "ipd st \<noteq> 0x201000"
    and size: "0x211000 \<le> memHigh"
  obtains h' st1 st2 where "kmallocInit 0x1000 h (initMemory memHigh 0x200000 st) = ret (h', st1)"
    "memMapPage 0xB8000 0xB8000 3 st1 = ret st2" "view st2 KERNEL_MALLOC = Some 0x200000"
    "view st2 0xB8000 = Some 0xB8000" "page_of (pde st2 0) = 0x200000"
    "wf_tables st2" "has_table st2 0" "cr3 st2 = cr3 st" "ipd st2 = ipd st"
    "\<forall>j < 1024. vread (KERNEL_MALLOC + 4 * j) st2 = ret (if j = 0xB8 then 0xB8003 else 0)"
proof -
  define st0 where "st0 = initMemory memHigh 0x200000 st"
  note init = initMemory_directory [OF boot, where memHigh = memHigh and low = "0x200000", folded st0_def]
  note fr = boot_frames [OF size, folded init(4)]
  obtain fr1 where fr1: "pmmAllocPageFrame (frames st0) = ret (0x200000, fr1)" "pmm_ready fr1"
    "next_frame fr1 = 1" "frame_addr fr1 = frame_addr (frames st0)"
    using pmmAllocPageFrame_ready [OF fr(1)] fr(2,3) by (metis diff_zero)
  obtain fr2 where fr2: "pmmAllocPageFrame fr1 = ret (0x201000, fr2)" "pmm_ready fr2"
    "next_frame fr2 = 0" "frame_addr fr2 = frame_addr (frames st0)"
    using pmmAllocPageFrame_ready [OF fr1(2)] fr1(3,4) fr(4) by (metis diff_self_eq_0)
  obtain fr3 where fr3: "pmmAllocPageFrame fr2 = ret (0x200000, fr3)"
    using pmmAllocPageFrame_ready [OF fr2(2)] fr2(3,4) fr(3) by metis
  define stA where "stA = st0\<lparr>frames := fr1\<rparr>"
  note A = wf_take_frame [OF init(1), of fr1, folded stA_def]
  have A': "cr3 stA = cr3 st0" "ipd stA = ipd st0" "frames stA = fr1" "phys stA = phys st0"
    by (simp_all add: stA_def)
  have "table_for KERNEL_MALLOC 0x201000 fr2 stA"
    using fr2(1) init(2,3,5,7) far A(2) A' by (auto simp: table_for_def fresh_frame_def)
  then obtain st1 where st1: "memMapPage KERNEL_MALLOC 0x200000 2 stA = ret st1"
    "mapped KERNEL_MALLOC 0x200000 0x201000 fr2 stA st1"
    using memMapPage_mapped [OF A(1), of KERNEL_MALLOC "0x201000" fr2 "0x200000" 2] A' init(2) by auto
  have heap: "view st1 KERNEL_MALLOC = Some 0x200000" using mapped_view [OF st1(2), of KERNEL_MALLOC] by simp
  have cr1: "cr3 st1 = cr3 st0" "ipd st1 = ipd st0" "frames st1 = fr2" "wf_tables st1"
    using st1(2) A' by (simp_all add: mapped_def)
  have pde1: "phys st1 (cr3 st0 + 4 * k) = pde st0 k" if "k < 1024" "k \<noteq> 0x340" for k
    using st1(2) that A' by (simp add: mapped_def)
  have "page_of (pde st1 k) \<noteq> 0x200000" if "k < 0x3FF" "has_table st1 k" for k
  proof (cases "k = 0x340")
    case True
    have "page_of (pde st1 0x340) = 0x201000" using mapped_table [OF st1(2)] by simp
    then show ?thesis unfolding True by simp
  next
    case False
    then show ?thesis
      using pde1 [OF below_last [OF that(1)]] that init(5) [OF that(1)] cr1(1)
      by (simp add: has_table_def)
  qed
  moreover have "pde st1 0 AND 1 = 0" using pde1 [of 0] cr1(1) init(6) by simp
  ultimately have "table_for 0xB8000 0x200000 fr3 st1"
    using fr3 cr1 init(2,3) far by (auto simp: table_for_def fresh_frame_def)
  then obtain st2 where st2: "memMapPage 0xB8000 0xB8000 3 st1 = ret st2"
    "mapped 0xB8000 0xB8000 0x200000 fr3 st1 st2"
    "\<forall>j < 1024. phys st2 (0x200000 + 4 * j) = (if j = 0xB8 then 0xB8003 else 0)"
    using memMapPage_mapped [OF cr1(4), of "0xB8000" "0x200000" fr3 "0xB8000" 3, unfolded entry_flags]
      \<open>pde st1 0 AND 1 = 0\<close> by auto
  have "vread (KERNEL_MALLOC + 4 * j) st2 = ret (phys st2 (0x200000 + 4 * j))" if "j < 1024" for j
    using heap_page_entry [OF that] mapped_view [OF st1(2), of "KERNEL_MALLOC + 4 * j"]
      mapped_view [OF st2(2), of "KERNEL_MALLOC + 4 * j"] by (simp add: vread_def)
  then have reads: "\<forall>j < 1024. vread (KERNEL_MALLOC + 4 * j) st2 = ret (if j = 0xB8 then 0xB8003 else 0)"
    using st2(3) by simp
  have "view st2 KERNEL_MALLOC = Some 0x200000" "view st2 0xB8000 = Some 0xB8000"
    using mapped_view [OF st2(2), of KERNEL_MALLOC] mapped_view [OF st2(2), of "0xB8000"] heap
    by simp_all
  moreover have "page_of (pde st2 0) = 0x200000" using mapped_table [OF st2(2)] by simp
  moreover have "kmallocInit 0x1000 h st0 = ret (h\<lparr>heapStart := KERNEL_MALLOC, heapSize := 0,
      threshold := 0, kmallocInitialized := True\<rparr>, st1)"
    using fr1(1) st1(1) by (simp add: kmallocInit_page stA_def)
  moreover have "wf_tables st2" "has_table st2 0" "cr3 st2 = cr3 st" "ipd st2 = ipd st"
    using st2(2) cr1(1,2) init(2,3) boot by (simp_all add: mapped_def boot_directory_def)
  ultimately show thesis using st2(1) reads unfolding st0_def by (intro that)
qed

section \<open>Properties\<close>

text \<open>
  Property C22: \<^verbatim>\<open>memMapPage\<close> updates the address space at one page. With the directory
  mapped into itself and separate page tables, mapping a page whose entry is empty returns, the
  page then translates to the frame, every other page outside the window of the tables translates
  as before, and the tables are still separate; a missing table is taken from the allocator.
\<close>

theorem memMapPage_maps:
  assumes "wf_tables st" and "drop_bit 22 v < 0x3FF" and "v < KERNEL_START \<or> cr3 st = ipd st"
    and "table_for v f fr st" and "page_of p = p" and "flags AND 0xFFFFFFFC = 0"
  shows "\<exists>st'. memMapPage v p flags st = ret st' \<and> wf_tables st' \<and>
    (\<forall>u. drop_bit 22 u \<noteq> 0x3FF \<longrightarrow> view st' u =
      (if drop_bit 12 u = drop_bit 12 v then Some (p OR (u AND 0xFFF)) else view st u))"
proof -
  obtain st' where "memMapPage v p flags st = ret st'" "mapped v p f fr st st'"
    using memMapPage_mapped [OF assms] by blast
  then show ?thesis unfolding mapped_def by blast
qed

text \<open>
  Property C24: at boot the first page of the heap becomes a page table. After \<^verbatim>\<open>initMemory\<close>
  and \<^verbatim>\<open>kmallocInit(0x1000)\<close> the heap starts at the frame 0x200000, and the mapping of the video
  memory at 0xB8000, which needs a table for the low 4 MB, is given the same frame: reading the
  heap page gives that table, cleared but for the entry of the video memory.
\<close>

theorem heap_page_becomes_table:
  assumes boot: "boot_directory st" and far: "ipd st \<noteq> 0x200000" "ipd st \<noteq> 0x201000"
    and size: "0x211000 \<le> memHigh"
  shows "\<exists>h' st1 st2. kmallocInit 0x1000 h (initMemory memHigh 0x200000 st) = ret (h', st1) \<and>
    memMapPage 0xB8000 0xB8000 3 st1 = ret st2 \<and> view st2 KERNEL_MALLOC = Some 0x200000 \<and>
    view st2 0xB8000 = Some 0xB8000 \<and> page_of (pde st2 0) = 0x200000 \<and>
    (\<forall>j < 1024. vread (KERNEL_MALLOC + 4 * j) st2 = ret (if j = 0xB8 then 0xB8003 else 0))"
proof -
  obtain h' st1 st2 where "kmallocInit 0x1000 h (initMemory memHigh 0x200000 st) = ret (h', st1)"
    "memMapPage 0xB8000 0xB8000 3 st1 = ret st2" "view st2 KERNEL_MALLOC = Some 0x200000"
    "view st2 0xB8000 = Some 0xB8000" "page_of (pde st2 0) = 0x200000"
    "wf_tables st2" "has_table st2 0" "cr3 st2 = cr3 st" "ipd st2 = ipd st"
    "\<forall>j < 1024. vread (KERNEL_MALLOC + 4 * j) st2 = ret (if j = 0xB8 then 0xB8003 else 0)"
    by (rule boot_memory [OF assms])
  then show ?thesis by blast
qed

text \<open>A machine to apply them to: an empty directory at 0x101000.\<close>

definition sample_memory :: mem_state where
  "sample_memory = \<lparr>phys = (\<lambda>_. 0), cr3 = 0x101000, ipd = 0x101000,
     frames = pmm_init 0 0, pageDirs = [], pageDirsUsed = [], mem_num_vpages = 0\<rparr>"

lemma sample_boot: "boot_directory sample_memory"
  by (simp add: boot_directory_def sample_memory_def)

theorem heap_page_becomes_table_witness:
  "\<exists>h' st1 st2. kmallocInit 0x1000 \<lparr>heapStart = 0, heapSize = 0, threshold = 0, kmallocInitialized = False\<rparr>
      (initMemory 0x1000000 0x200000 sample_memory) = ret (h', st1) \<and>
    memMapPage 0xB8000 0xB8000 3 st1 = ret st2 \<and> view st2 KERNEL_MALLOC = Some 0x200000 \<and>
    view st2 0xB8000 = Some 0xB8000 \<and> page_of (pde st2 0) = 0x200000 \<and>
    (\<forall>j < 1024. vread (KERNEL_MALLOC + 4 * j) st2 = ret (if j = 0xB8 then 0xB8003 else 0))"
  by (rule heap_page_becomes_table [OF sample_boot]) (simp_all add: sample_memory_def)

theorem memMapPage_maps_witness:
  "\<exists>st'. memMapPage 0xB8000 0xB8000 3 (initMemory 0x1000000 0x200000 sample_memory) = ret st' \<and>
    wf_tables st' \<and> (\<forall>u. drop_bit 22 u \<noteq> 0x3FF \<longrightarrow> view st' u =
      (if drop_bit 12 u = drop_bit 12 (0xB8000 :: u32) then Some (0xB8000 OR (u AND 0xFFF))
       else view (initMemory 0x1000000 0x200000 sample_memory) u))"
proof -
  define st where "st = initMemory 0x1000000 0x200000 sample_memory"
  note init = initMemory_directory [OF sample_boot, where memHigh = "0x1000000" and low = "0x200000", folded st_def]
  have "(0x211000 :: u32) \<le> 0x1000000" by simp
  note fr = boot_frames [OF this, folded init(4)]
  obtain fr1 where "pmmAllocPageFrame (frames st) = ret (0x200000, fr1)"
    using pmmAllocPageFrame_ready [OF fr(1)] fr(2,3) by metis
  moreover have "ipd st = 0x101000" using init(3) by (simp add: sample_memory_def)
  ultimately have "table_for 0xB8000 0x200000 fr1 st"
    using init(2,5,6) by (auto simp: table_for_def fresh_frame_def)
  then show ?thesis
    using memMapPage_maps [OF init(1), of "0xB8000" "0x200000" fr1 "0xB8000" 3]
    unfolding st_def [symmetric] by simp
qed

end
