(* ===== verification/Idt.thy ===== *)
theory Idt
  imports Ports Stdio
begin

unbundle bit_operations_syntax

text \<open>
  Interrupts, \<^verbatim>\<open>interrupts/idt.c\<close>: the descriptor table, the programming of the two interrupt
  controllers, the report of an exception, and the dispatch and acknowledgement of the
  hardware interrupts. The entry stubs are assembly; their addresses are the parameters
  \<open>isr\<close> and \<open>irq\<close>, and a handler gets the registers they have pushed.
\<close>

section \<open>The descriptor table\<close>

record idt_entry_struct =
  gate_low :: u16
  gate_sel :: u16
  gate_zero :: u8
  gate_flags :: u8
  gate_high :: u16

record idt_ptr_struct =
  idt_lim :: u16
  idt_base :: u32

text \<open>\<open>idtr\<close> is what \<^verbatim>\<open>idt_flush\<close> has loaded; it also enables interrupts.\<close>

record idt_state =
  idt_entries :: "idt_entry_struct list"
  idt_ptr :: idt_ptr_struct
  idtr :: "idt_ptr_struct option"

definition zero_gate :: idt_entry_struct where
  "zero_gate = \<lparr>gate_low = 0, gate_sel = 0, gate_zero = 0, gate_flags = 0, gate_high = 0\<rparr>"

definition setIDTGate :: "u8 \<Rightarrow> u32 \<Rightarrow> u16 \<Rightarrow> u8 \<Rightarrow> idt_entry_struct list \<Rightarrow> idt_entry_struct list" where
  "setIDTGate num base sel flags entries =
     entries[unat num := \<lparr>gate_low = ucast (base AND 0xFFFF), gate_sel = sel, gate_zero = 0,
       gate_flags = flags OR 0x60, gate_high = ucast (drop_bit 16 base AND 0xFFFF)\<rparr>]"

text \<open>Both controllers: start, vector offsets 32 and 40, cascade on line 2, 8086 mode, no mask.\<close>

definition pic_writes :: "(u16 \<times> u8) list" where
  "pic_writes = [(0x20, 0x11), (0xA0, 0x11), (0x21, 0x20), (0xA1, 0x28), (0x21, 0x04), (0xA1, 0x02),
     (0x21, 0x01), (0xA1, 0x01), (0x21, 0x00), (0xA1, 0x00)]"

definition gates :: "(nat \<Rightarrow> u32) \<Rightarrow> (nat \<Rightarrow> u32) \<Rightarrow> (u8 \<times> u32) list" where
  "gates isr irq =
     map (\<lambda>n. (of_nat n, isr n)) [0..<32] @ map (\<lambda>n. (of_nat (32 + n), irq n)) [0..<16] @
     [(128, isr 128), (177, isr 177)]"

fun set_gates :: "(u8 \<times> u32) list \<Rightarrow> idt_entry_struct list \<Rightarrow> idt_entry_struct list" where
  "set_gates [] entries = entries"
| "set_gates ((num, base) # gs) entries = set_gates gs (setIDTGate num base 0x08 0x8E entries)"

definition idt_flush :: "idt_state \<Rightarrow> idt_state" where
  "idt_flush t = t\<lparr>idtr := Some (idt_ptr t)\<rparr>"

definition initIDT ::
    "'m ports \<Rightarrow> u32 \<Rightarrow> (nat \<Rightarrow> u32) \<Rightarrow> (nat \<Rightarrow> u32) \<Rightarrow> idt_state \<times> 'm \<Rightarrow> idt_state \<times> 'm" where
  "initIDT P addr isr irq s =
     (case s of (t, m) \<Rightarrow>
      let t = t\<lparr>idt_ptr := \<lparr>idt_lim = 8 * 256 - 1, idt_base = addr\<rparr>, idt_entries := replicate 256 zero_gate\<rparr>;
          m = out_all P pic_writes m;
          t = t\<lparr>idt_entries := set_gates (gates isr irq) (idt_entries t)\<rparr>
      in (idt_flush t, m))"

section \<open>Exceptions\<close>

text \<open>What the entry stubs have pushed.\<close>

record InterruptRegisters =
  r_cr2 :: u32
  r_ds :: u32
  r_edi :: u32
  r_esi :: u32
  r_ebp :: u32
  r_esp :: u32
  r_ebx :: u32
  r_edx :: u32
  r_ecx :: u32
  r_eax :: u32
  int_no :: u32
  err_code :: u32
  r_eip :: u32
  r_csm :: u32
  r_eflags :: u32
  use_resp :: u32
  r_ss :: u32

definition exception_messages :: "u8 list list" where
  "exception_messages = map bytes
     [''Divison By Zero'', ''Debug'', ''Not Maskable Interrupt'', ''Breakpoint'',
      ''Into Detected Overflow'', ''Out of Bounds'', ''Invalid Opcode'', ''No Coprocessor'',
      ''Double fault'', ''Coprocessor Segment Overrun'', ''Bad TSS'', ''Segment not present'',
      ''Stack fault'', ''General protection fault'', ''Page fault'', ''Unknown Interrupt'',
      ''Coprocessor Fault'', ''Alignment Fault'', ''Machine Check'', ''Reserved'', ''Reserved'',
      ''Reserved'', ''Reserved'', ''Reserved'', ''Reserved'', ''Reserved'', ''Reserved'',
      ''Reserved'', ''Reserved'', ''Reserved'', ''Reserved'', ''Reserved'']"

text \<open>How \<^verbatim>\<open>isr_handler\<close> ends: it returns to the interrupted code or stays in its final loop.\<close>

datatype isr_outcome = Resumed console | Halted console

definition page_fault_report :: "InterruptRegisters \<Rightarrow> console \<Rightarrow> console run" where
  "page_fault_report regs c =
     bind_run (print (bytes ''Faulting address: '') c) (\<lambda>c.
     bind_run (printHex (r_cr2 regs) c) (\<lambda>c.
     bind_run (print [0x0A] c) (\<lambda>c.
     bind_run (print (bytes ''Error code: '') c) (\<lambda>c.
     bind_run (printHex (err_code regs) c) (\<lambda>c.
     bind_run (print (bytes ''  ('') c) (\<lambda>c.
     bind_run (if err_code regs AND 0x1 = 0 then print (bytes ''not-present '') c
               else print (bytes ''protection-violation '') c) (\<lambda>c.
     bind_run (if err_code regs AND 0x2 \<noteq> 0 then print (bytes ''write '') c
               else print (bytes ''read '') c) (\<lambda>c.
     bind_run (if err_code regs AND 0x4 \<noteq> 0 then print (bytes ''user-mode '') c
               else print (bytes ''kernel-mode '') c) (\<lambda>c.
     bind_run (print (bytes '')'' @ [0x0A]) c) (\<lambda>c.
     bind_run (print (bytes ''EIP: '') c) (\<lambda>c.
     bind_run (printHex (r_eip regs) c) (\<lambda>c.
       print [0x0A] c))))))))))))"

definition isr_handler :: "InterruptRegisters \<Rightarrow> console \<Rightarrow> isr_outcome run" where
  "isr_handler regs c =
     (if int_no regs < 32 then
        if unat (int_no regs) < length exception_messages then
          bind_run (print (exception_messages ! unat (int_no regs)) c) (\<lambda>c.
          bind_run (print [0x0A] c) (\<lambda>c.
          bind_run (if int_no regs = 14 then page_fault_report regs c else ret c) (\<lambda>c.
          bind_run (print (bytes ''Exception! System Halted'' @ [0x0A]) c) (\<lambda>c. ret (Halted c)))))
        else fail OutOfBounds
      else ret (Resumed c))"

section \<open>Hardware interrupts\<close>

text \<open>\<open>'h\<close> identifies the installed routines; \<open>None\<close> is the null pointer.\<close>

definition irq_routines :: "'h option list" where
  "irq_routines = replicate 16 None"

definition irq_install_handler :: "int \<Rightarrow> 'h option \<Rightarrow> 'h option list \<Rightarrow> 'h option list run" where
  "irq_install_handler irq handler routines =
     (if 0 \<le> irq \<and> irq < int (length routines) then ret (routines[nat irq := handler])
      else fail OutOfBounds)"

definition irq_uninstall_handler :: "int \<Rightarrow> 'h option list \<Rightarrow> 'h option list run" where
  "irq_uninstall_handler irq routines =
     (if 0 \<le> irq \<and> irq < int (length routines) then ret (routines[nat irq := None])
      else fail OutOfBounds)"

text \<open>\<open>call h regs\<close> is the effect of the routine \<open>h\<close>.\<close>

definition irq_handler ::
    "'m ports \<Rightarrow> ('h \<Rightarrow> InterruptRegisters \<Rightarrow> 's \<times> 'm \<Rightarrow> ('s \<times> 'm) run) \<Rightarrow> 'h option list \<Rightarrow>
     InterruptRegisters \<Rightarrow> 's \<times> 'm \<Rightarrow> ('s \<times> 'm) run" where
  "irq_handler P call routines regs st =
     (let i = unat (int_no regs - 32)
      in if i < length routines then
           bind_run (case routines ! i of None \<Rightarrow> ret st | Some h \<Rightarrow> call h regs st) (\<lambda>(s, m).
             let m = (if int_no regs \<ge> 40 then outPortB P 0xA0 0x20 m else m)
             in ret (s, outPortB P 0x20 0x20 m))
         else fail OutOfBounds)"

section \<open>How the processor reads a gate\<close>

text \<open>
  The fields of an 80386 interrupt gate: the entry point, the code segment, the present bit,
  the lowest privilege that may raise the vector with \<^verbatim>\<open>int\<close>, and the type, 14 for a 32-bit
  interrupt gate.
\<close>

definition gate_offset :: "idt_entry_struct \<Rightarrow> u32" where
  "gate_offset g = ucast (gate_low g) OR push_bit 16 (ucast (gate_high g))"

definition gate_present :: "idt_entry_struct \<Rightarrow> bool" where
  "gate_present g \<longleftrightarrow> gate_flags g AND 0x80 \<noteq> 0"

definition gate_dpl :: "idt_entry_struct \<Rightarrow> u8" where
  "gate_dpl g = drop_bit 5 (gate_flags g) AND 3"

definition gate_type :: "idt_entry_struct \<Rightarrow> u8" where
  "gate_type g = gate_flags g AND 0x1F"

text \<open>An open gate to \<open>addr\<close>: present, 32-bit interrupt gate, kernel code segment.\<close>

definition opens :: "idt_entry_struct \<Rightarrow> u32 \<Rightarrow> bool" where
  "opens g addr \<longleftrightarrow> gate_present g \<and> gate_type g = 14 \<and> gate_sel g = 0x08 \<and> gate_zero g = 0 \<and>
     gate_offset g = addr"

text \<open>The halves of an address join to the address.\<close>

lemma join_halves:
  "ucast (ucast (base AND 0xFFFF :: u32) :: u16) OR
     push_bit 16 (ucast (ucast (drop_bit 16 base AND 0xFFFF) :: u16)) = (base :: u32)"
proof -
  have m: "(0xFFFF :: u32) = mask 16" by (simp add: mask_eq_exp_minus_1)
  show ?thesis unfolding m
    by (rule bit_word_eqI) (auto simp: bit_ucast_iff bit_and_iff bit_or_iff bit_mask_iff bit_push_bit_iff bit_drop_bit_eq)
qed

lemma setIDTGate_opens:
  assumes "length entries = 256"
  shows "opens (setIDTGate num base 0x08 0x8E entries ! unat num) base"
    and "gate_dpl (setIDTGate num base 0x08 0x8E entries ! unat num) = 3"
    and "length (setIDTGate num base sel flags entries) = 256"
    and "n \<noteq> unat num \<Longrightarrow> setIDTGate num base sel flags entries ! n = entries ! n"
proof -
  have n: "unat num < 256" using unsigned_less [of num] by simp
  show "opens (setIDTGate num base 0x08 0x8E entries ! unat num) base"
    using n assms by (simp add: setIDTGate_def opens_def gate_present_def gate_type_def gate_offset_def join_halves)
  show "gate_dpl (setIDTGate num base 0x08 0x8E entries ! unat num) = 3"
    using n assms by (simp add: setIDTGate_def gate_dpl_def)
qed (simp_all add: setIDTGate_def assms)

lemma set_gates_result:
  assumes "length entries = 256" "distinct (map fst gs)"
  shows "length (set_gates gs entries) = 256 \<and>
    (\<forall>(n, a) \<in> set gs. opens (set_gates gs entries ! unat n) a \<and> gate_dpl (set_gates gs entries ! unat n) = 3) \<and>
    (\<forall>k. k \<notin> unat ` fst ` set gs \<longrightarrow> set_gates gs entries ! k = entries ! k)"
  using assms
proof (induction gs entries rule: set_gates.induct)
  case (2 num base gs entries)
  let ?e = "setIDTGate num base 0x08 0x8E entries"
  have IH: "length (set_gates gs ?e) = 256"
    "\<And>n a. (n, a) \<in> set gs \<Longrightarrow> opens (set_gates gs ?e ! unat n) a \<and> gate_dpl (set_gates gs ?e ! unat n) = 3"
    "\<And>k. k \<notin> unat ` fst ` set gs \<Longrightarrow> set_gates gs ?e ! k = ?e ! k"
    using 2 setIDTGate_opens(3) [OF "2.prems"(1)] by (auto split: prod.splits)
  have "unat num \<notin> unat ` fst ` set gs" using "2.prems"(2) by (auto dest: word_unat_eq_iff [THEN iffD2])
  then have "set_gates gs ?e ! unat num = ?e ! unat num" by (rule IH(3))
  then show ?case
    using IH setIDTGate_opens [OF "2.prems"(1), where num = num and base = base] by auto
qed simp

lemma gate_vectors: "map fst (gates isr irq) = map of_nat ([0..<48] @ [128, 177])"
proof -
  have "[0 ..< 48 :: nat] = [0..<32] @ map (\<lambda>n. 32 + n) [0..<16]"
    using upt_add_eq_append [of 0 32 16] map_add_upt [of 32 16] by (simp add: add.commute)
  then show ?thesis by (simp add: gates_def comp_def)
qed

lemma gates_distinct: "distinct (map fst (gates isr irq))"
proof -
  have "inj_on (of_nat :: nat \<Rightarrow> u8) (set ([0..<48] @ [128, 177]))"
    by (rule inj_on_subset [of _ "{..<256}"]) (auto simp: inj_on_def word_unat_eq_iff unsigned_of_nat take_bit_nat_eq_self)
  then show ?thesis unfolding gate_vectors by (subst distinct_map) auto
qed

text \<open>The writes that an interrupt is acknowledged with.\<close>

definition eoi :: "nat \<Rightarrow> (u16 \<times> u8) list" where
  "eoi n = (if n \<ge> 8 then [(0xA0, 0x20), (0x20, 0x20)] else [(0x20, 0x20)])"

text \<open>The registers at the entry of \<^verbatim>\<open>irq_handler\<close> for the line \<open>n\<close>.\<close>

definition on_line :: "nat \<Rightarrow> InterruptRegisters \<Rightarrow> bool" where
  "on_line n regs \<longleftrightarrow> n < 16 \<and> int_no regs = of_nat (32 + n)"

lemma irq_handler_line:
  assumes "on_line n regs" and "length routines = 16"
  shows "irq_handler P call routines regs st =
    bind_run (case routines ! n of None \<Rightarrow> ret st | Some h \<Rightarrow> call h regs st)
      (\<lambda>(s, m). ret (s, out_all P (eoi n) m))"
proof -
  have n: "n < 16" "int_no regs = of_nat (32 + n)" using assms(1) by (simp_all add: on_line_def)
  have u: "unat (of_nat n :: u32) = n" using n by (simp add: unsigned_of_nat take_bit_nat_eq_self)
  then have i: "unat (int_no regs - 32) = n" using n(2) by simp
  have "unat (int_no regs) = 32 + n"
    using n by (simp only: n(2)) (simp add: unsigned_of_nat take_bit_nat_eq_self del: of_nat_add)
  then have "int_no regs \<ge> 40 \<longleftrightarrow> n \<ge> 8" by (simp add: word_le_nat_alt)
  then show ?thesis
    using n(1) assms(2) by (simp add: irq_handler_def i eoi_def Let_def case_prod_beta cong: if_cong)
qed

text \<open>The text of a report.\<close>

definition hex_text :: "u32 \<Rightarrow> u8 list" where
  "hex_text n = bytes ''0x'' @ map (\<lambda>i. hex_chars ! unat (drop_bit (4 * (7 - i)) n AND 0xF)) [0..<8]"

definition exception_text :: "InterruptRegisters \<Rightarrow> u8 list" where
  "exception_text regs =
     exception_messages ! unat (int_no regs) @ [0x0A] @
     (if int_no regs = 14 then
        bytes ''Faulting address: '' @ hex_text (r_cr2 regs) @ [0x0A] @
        bytes ''Error code: '' @ hex_text (err_code regs) @ bytes ''  ('' @
        (if err_code regs AND 0x1 = 0 then bytes ''not-present '' else bytes ''protection-violation '') @
        (if err_code regs AND 0x2 \<noteq> 0 then bytes ''write '' else bytes ''read '') @
        (if err_code regs AND 0x4 \<noteq> 0 then bytes ''user-mode '' else bytes ''kernel-mode '') @
        bytes '')'' @ [0x0A] @ bytes ''EIP: '' @ hex_text (r_eip regs) @ [0x0A]
      else []) @
     bytes ''Exception! System Halted'' @ [0x0A]"

lemma printHex_text: "printHex n st = print (hex_text n) st"
proof -
  have "length (bytes ''0x00000000'') = 8 + 2" "take 2 (bytes ''0x00000000'') = bytes ''0x''"
    by (simp_all add: bytes_def)
  then show ?thesis using hex_fill_map [of "bytes ''0x00000000''" 8 0 n] by (simp add: printHex_def hex_text_def)
qed

lemma print_then: "bind_run (print xs st) (\<lambda>st. print ys st) = print (xs @ ys) st"
  by (simp add: print_append)

lemma print_then_more:
  "bind_run (print xs st) (\<lambda>st. bind_run (print ys st) f) = bind_run (print (xs @ ys) st) f"
  by (simp add: print_append bind_run_assoc)

lemma print_choice: "(if b then print xs st else print ys st) = print (if b then xs else ys) st"
  by simp

lemma page_fault_text:
  "page_fault_report regs c = print
     (bytes ''Faulting address: '' @ hex_text (r_cr2 regs) @ [0x0A] @
      bytes ''Error code: '' @ hex_text (err_code regs) @ bytes ''  ('' @
      (if err_code regs AND 0x1 = 0 then bytes ''not-present '' else bytes ''protection-violation '') @
      (if err_code regs AND 0x2 \<noteq> 0 then bytes ''write '' else bytes ''read '') @
      (if err_code regs AND 0x4 \<noteq> 0 then bytes ''user-mode '' else bytes ''kernel-mode '') @
      bytes '')'' @ [0x0A] @ bytes ''EIP: '' @ hex_text (r_eip regs) @ [0x0A]) c"
  unfolding page_fault_report_def printHex_text print_choice print_then print_then_more append_assoc ..

section \<open>Properties\<close>

text \<open>
  Property C30: the descriptor table. After \<^verbatim>\<open>initIDT\<close> the processor has a table of 256 entries in
  which the exceptions, the sixteen interrupt lines and the vectors 128 and 177 are open gates to
  their stubs, no other vector is present, and the interrupt controllers got their start
  sequence. Every gate has privilege 3: \<^verbatim>\<open>setIDTGate\<close> adds \<open>0x60\<close> to the flags it is given.
\<close>

theorem initIDT_opens:
  assumes "initIDT P addr isr irq (t, m) = (t', m')"
  shows "idtr t' = Some \<lparr>idt_lim = 2047, idt_base = addr\<rparr> \<and> m' = out_all P pic_writes m \<and>
    length (idt_entries t') = 256 \<and>
    (\<forall>n < 32. opens (idt_entries t' ! n) (isr n) \<and> gate_dpl (idt_entries t' ! n) = 3) \<and>
    (\<forall>n < 16. opens (idt_entries t' ! (32 + n)) (irq n) \<and> gate_dpl (idt_entries t' ! (32 + n)) = 3) \<and>
    opens (idt_entries t' ! 128) (isr 128) \<and> opens (idt_entries t' ! 177) (isr 177) \<and>
    (\<forall>n < 256. 48 \<le> n \<and> n \<noteq> 128 \<and> n \<noteq> 177 \<longrightarrow> \<not> gate_present (idt_entries t' ! n))"
proof -
  define e where "e = set_gates (gates isr irq) (replicate 256 zero_gate)"
  have t': "idtr t' = Some \<lparr>idt_lim = 2047, idt_base = addr\<rparr>" "idt_entries t' = e" "m' = out_all P pic_writes m"
    using assms by (auto simp: initIDT_def idt_flush_def Let_def e_def)
  have r: "length e = 256"
    "\<And>n a. (n, a) \<in> set (gates isr irq) \<Longrightarrow> opens (e ! unat n) a \<and> gate_dpl (e ! unat n) = 3"
    "\<And>k. k \<notin> unat ` set (map fst (gates isr irq)) \<Longrightarrow> e ! k = replicate 256 zero_gate ! k"
    using set_gates_result [OF _ gates_distinct, of "replicate 256 zero_gate" isr irq]
    by (auto simp: e_def)
  have small: "unat (of_nat n :: u8) = n" if "n < 256" for n
    using that by (simp add: unsigned_of_nat take_bit_nat_eq_self)
  have g: "(of_nat n, isr n) \<in> set (gates isr irq)" if "n < 32" for n
    using that by (auto simp: gates_def)
  have h: "(of_nat (32 + n), irq n) \<in> set (gates isr irq)" if "n < 16" for n
    using that unfolding gates_def by (auto simp del: of_nat_add)
  have "unat ` set (map fst (gates isr irq)) = {..<48} \<union> {128, 177}"
    unfolding gate_vectors by (auto simp: image_image small image_iff)
  then have "\<not> gate_present (e ! n)" if "n < 256" "48 \<le> n" "n \<noteq> 128" "n \<noteq> 177" for n
    using r(3) [of n] that by (simp add: zero_gate_def gate_present_def)
  moreover have "opens (e ! n) (isr n) \<and> gate_dpl (e ! n) = 3" if "n < 32" for n
    using r(2) [OF g [OF that]] that small [of n] by simp
  moreover have "opens (e ! (32 + n)) (irq n) \<and> gate_dpl (e ! (32 + n)) = 3" if "n < 16" for n
    using r(2) [OF h [OF that]] that small [of "32 + n"] by (simp del: of_nat_add)
  moreover have "opens (e ! 128) (isr 128)" "opens (e ! 177) (isr 177)"
    using r(2) [of 128 "isr 128"] r(2) [of 177 "isr 177"] by (simp_all add: gates_def)
  ultimately show ?thesis using t' r(1) by auto
qed

text \<open>
  The report of an exception. For a vector below 32 \<^verbatim>\<open>isr_handler\<close> prints the name
  of the exception, for a page fault also the faulting address, the decoded error code and the
  instruction pointer, and stops; for the vectors 128 and 177 it does nothing.
\<close>

lemma isr_handler_reports:
  "isr_handler regs c =
     (if int_no regs < 32 then bind_run (print (exception_text regs) c) (\<lambda>c. ret (Halted c))
      else ret (Resumed c))"
proof (cases "int_no regs < 32")
  case True
  have "length exception_messages = 32" by (simp add: exception_messages_def)
  then have "unat (int_no regs) < length exception_messages" using True by (simp add: word_less_nat_alt)
  then show ?thesis
    using True by (cases "int_no regs = 14")
      (simp_all only: isr_handler_def exception_text_def page_fault_text print_then print_then_more
        if_True if_False simp_thms bind_ret append_assoc append_Nil)
qed (simp add: isr_handler_def)

theorem initIDT_opens_witness:
  "\<exists>t'. initIDT log_ports 0x100000 (\<lambda>n. 0x200000 + 16 * of_nat n) (\<lambda>n. 0x300000 + 16 * of_nat n)
      (\<lparr>idt_entries = [], idt_ptr = \<lparr>idt_lim = 0, idt_base = 0\<rparr>, idtr = None\<rparr>, []) = (t', pic_writes) \<and>
    opens (idt_entries t' ! 33) 0x300010"
proof -
  obtain t' m' where i: "initIDT log_ports 0x100000 (\<lambda>n. 0x200000 + 16 * of_nat n) (\<lambda>n. 0x300000 + 16 * of_nat n)
      (\<lparr>idt_entries = [], idt_ptr = \<lparr>idt_lim = 0, idt_base = 0\<rparr>, idtr = None\<rparr>, []) = (t', m')"
    by (rule prod.exhaust)
  then show ?thesis using initIDT_opens [OF i] by (auto simp: out_all_log dest: spec [of _ 1])
qed

end
