(* ===== verification/Timer.thy ===== *)
theory Timer
  imports Idt
begin

unbundle bit_operations_syntax

text \<open>
  The timer, \<^verbatim>\<open>timer.c\<close>: the programming of the interval timer, the routine of interrupt line 0
  and the uptime in seconds. A routine of the interrupt table is the timer's or one of the
  others, whose effect is a parameter.
\<close>

datatype 'h routine = OnIrq0 | Other 'h

definition freq :: u32 where
  "freq = 100"

definition onIrq0 :: "u64 \<Rightarrow> u64" where
  "onIrq0 ticks = ticks + 1"

definition GUS :: "u64 \<Rightarrow> u32" where
  "GUS ticks = ucast (ticks div 100)"

definition initTimer ::
    "'m ports \<Rightarrow> 'h routine option list \<times> 'm \<Rightarrow> (u64 \<times> 'h routine option list \<times> 'm) run" where
  "initTimer P s =
     (case s of (routines, m) \<Rightarrow>
      bind_run (irq_install_handler 0 (Some OnIrq0) routines) (\<lambda>routines.
        let divisor = 1193180 div freq;
            m = outPortB P 0x43 0x36 m;
            m = outPortB P 0x40 (ucast (divisor AND 0xFF)) m;
            m = outPortB P 0x40 (ucast (drop_bit 8 divisor AND 0xFF)) m
        in ret (0, routines, m)))"

text \<open>How \<^verbatim>\<open>irq_handler\<close> calls a routine.\<close>

definition routine_call ::
    "('h \<Rightarrow> InterruptRegisters \<Rightarrow> 'm \<Rightarrow> 'm run) \<Rightarrow> 'h routine \<Rightarrow> InterruptRegisters \<Rightarrow> u64 \<times> 'm \<Rightarrow> (u64 \<times> 'm) run" where
  "routine_call other r regs s =
     (case s of (ticks, m) \<Rightarrow>
      case r of OnIrq0 \<Rightarrow> ret (onIrq0 ticks, m)
              | Other h \<Rightarrow> bind_run (other h regs m) (\<lambda>m. ret (ticks, m)))"

text \<open>A sequence of interrupts.\<close>

fun serve ::
    "'m ports \<Rightarrow> ('h \<Rightarrow> InterruptRegisters \<Rightarrow> 'm \<Rightarrow> 'm run) \<Rightarrow> 'h routine option list \<Rightarrow>
     InterruptRegisters list \<Rightarrow> u64 \<times> 'm \<Rightarrow> (u64 \<times> 'm) run" where
  "serve P other routines [] st = ret st"
| "serve P other routines (regs # rs) st =
     bind_run (irq_handler P (routine_call other) routines regs st) (serve P other routines rs)"

text \<open>The count-down value sent to the timer.\<close>

lemma divisor_bytes: "initTimer log_ports (routines, []) = ret (ticks, routines', m) \<Longrightarrow>
    m = [(0x43, 0x36), (0x40, 0x9B), (0x40, 0x2E)] \<and> 11931 = (0x2E9B :: nat)"
  by (auto simp: initTimer_def freq_def log_ports_def bind_run_eq_ret)

text \<open>The interrupts of the timer in a sequence.\<close>

definition timer_ticks :: "InterruptRegisters list \<Rightarrow> nat" where
  "timer_ticks rs = length (filter (\<lambda>r. int_no r = 32) rs)"

definition timer_routines :: "'h routine option list \<Rightarrow> bool" where
  "timer_routines routines \<longleftrightarrow> length routines = 16 \<and> routines ! 0 = Some OnIrq0 \<and>
     (\<forall>n. 0 < n \<and> n < 16 \<longrightarrow> routines ! n \<noteq> Some OnIrq0)"

lemma serve_one:
  assumes "timer_routines routines" "on_line n regs" "\<And>h m. returns (other h regs m)"
  shows "\<exists>m'. irq_handler P (routine_call other) routines regs (ticks, m) =
    ret (if n = 0 then ticks + 1 else ticks, m')"
proof -
  have r: "length routines = 16" "n < 16" "routines ! 0 = Some OnIrq0"
    "0 < n \<Longrightarrow> routines ! n \<noteq> Some OnIrq0"
    using assms(1,2) by (auto simp: timer_routines_def on_line_def)
  obtain m1 where "(case routines ! n of None \<Rightarrow> ret (ticks, m) | Some h \<Rightarrow> routine_call other h regs (ticks, m)) =
      ret (if n = 0 then ticks + 1 else ticks, m1)"
  proof (cases "routines ! n")
    case None
    then have "n \<noteq> 0" using r(3) by (cases n) auto
    then show thesis using that None by simp
  next
    case (Some h)
    show thesis
    proof (cases h)
      case OnIrq0
      then have "n = 0" using Some r(4) by auto
      then show thesis using that Some OnIrq0 by (simp add: routine_call_def onIrq0_def)
    next
      case (Other k)
      obtain m' where "other k regs m = ret m'" using assms(3) by (auto simp: returns_def)
      then show thesis using that Some Other r(3) by (cases "n = 0") (auto simp: routine_call_def)
    qed
  qed
  then show ?thesis by (simp add: irq_handler_line [OF assms(2) r(1)])
qed

lemma on_line_0: "on_line n regs \<Longrightarrow> int_no regs = 32 \<longleftrightarrow> n = 0"
  by (auto simp: on_line_def word_unat_eq_iff unsigned_of_nat take_bit_nat_eq_self simp del: of_nat_add)

lemma serve_ticks:
  assumes "timer_routines routines" "\<And>h regs m. returns (other h regs m)"
    and "list_all (\<lambda>r. \<exists>n. on_line n r) rs"
  shows "\<exists>m'. serve P other routines rs (ticks, m) = ret (ticks + of_nat (timer_ticks rs), m')"
  using assms(3)
proof (induction rs arbitrary: ticks m)
  case (Cons r rs)
  then obtain n where n: "on_line n r" by auto
  obtain m1 where "irq_handler P (routine_call other) routines r (ticks, m) =
      ret (if n = 0 then ticks + 1 else ticks, m1)"
    using serve_one [where other = other, OF assms(1) n assms(2)] by blast
  moreover have "list_all (\<lambda>r. \<exists>n. on_line n r) rs" using Cons.prems by simp
  ultimately show ?case
    using Cons.IH [of ticks m1] Cons.IH [of "ticks + 1" m1] on_line_0 [OF n]
    by (cases "n = 0") (auto simp: timer_ticks_def add.assoc)
qed (simp add: timer_ticks_def)

text \<open>
  Property C33: the uptime. After \<^verbatim>\<open>initTimer\<close>, whatever interrupts arrive on the sixteen lines and
  whatever the other routines do as long as they return, every interrupt returns, and
  \<^verbatim>\<open>GUS\<close> is the number of timer interrupts divided by 100 (as long as fewer than 2^64 have arrived,
  in the 32 bits of its result).
\<close>

theorem uptime_counts_interrupts:
  assumes "length routines0 = 16" and "list_all (\<lambda>r. r \<noteq> Some OnIrq0) routines0"
    and "initTimer P (routines0, m0) = ret (ticks, routines, m)"
    and "\<And>h regs m. returns (other h regs m)"
    and "list_all (\<lambda>r. \<exists>n. on_line n r) rs" and "timer_ticks rs < 2 ^ 64"
  shows "\<exists>ticks' m'. serve P other routines rs (ticks, m) = ret (ticks', m') \<and>
    unat ticks' = timer_ticks rs \<and> unat (GUS ticks') = (timer_ticks rs div 100) mod 2 ^ 32"
proof -
  have t: "ticks = 0" "routines = routines0[0 := Some OnIrq0]"
    using assms(3) assms(1) by (auto simp: initTimer_def irq_install_handler_def Let_def split: if_splits)
  have "timer_routines routines"
    using assms(1,2) unfolding t timer_routines_def by (auto simp: list_all_length)
  then obtain m' where "serve P other routines rs (ticks, m) = ret (of_nat (timer_ticks rs), m')"
    using serve_ticks [where other = other, OF _ assms(4,5), where routines = routines and P = P and ticks = ticks and m = m] t(1) by auto
  moreover have u: "unat (of_nat (timer_ticks rs) :: u64) = timer_ticks rs"
    using assms(6) by (simp add: unsigned_of_nat take_bit_nat_eq_self)
  then have "unat (GUS (of_nat (timer_ticks rs))) = (timer_ticks rs div 100) mod 2 ^ 32"
    by (simp add: GUS_def unsigned_ucast_eq take_bit_eq_mod unat_div)
  ultimately show ?thesis using u by blast
qed

definition line_regs :: "u32 \<Rightarrow> InterruptRegisters" where
  "line_regs n = \<lparr>r_cr2 = 0, r_ds = 0x10, r_edi = 0, r_esi = 0, r_ebp = 0, r_esp = 0, r_ebx = 0, r_edx = 0,
     r_ecx = 0, r_eax = 0, int_no = 32 + n, err_code = 0, r_eip = 0xC0100000, r_csm = 0x08,
     r_eflags = 0x202, use_resp = 0, r_ss = 0x10\<rparr>"

theorem uptime_counts_interrupts_witness:
  "\<exists>m ticks m'. initTimer log_ports (replicate 16 (None :: nat routine option), []) =
      ret (0, Some OnIrq0 # replicate 15 None, m) \<and>
    serve log_ports (\<lambda>h regs m. ret m) (Some OnIrq0 # replicate 15 (None :: nat routine option))
      (replicate 250 (line_regs 0) @ [line_regs 1]) (0, m) = ret (ticks, m') \<and> unat (GUS ticks) = 2"
proof -
  let ?r = "replicate 16 (None :: nat routine option)" and ?rs = "replicate 250 (line_regs 0) @ [line_regs 1]"
  let ?t = "Some OnIrq0 # replicate 15 (None :: nat routine option)"
  have "?r[0 := Some OnIrq0] = ?t" by (simp add: numeral_eq_Suc)
  then obtain m where init: "initTimer log_ports (?r, []) = ret (0, ?t, m)"
    by (simp add: initTimer_def irq_install_handler_def Let_def)
  have "on_line 0 (line_regs 0)" "on_line 1 (line_regs 1)" by (simp_all add: on_line_def line_regs_def)
  then have "list_all (\<lambda>r. \<exists>n. on_line n r) ?rs" by (auto simp: list_all_iff)
  moreover have ticks: "timer_ticks ?rs = 250" by (simp add: timer_ticks_def line_regs_def)
  moreover have "list_all (\<lambda>r. r \<noteq> Some OnIrq0) ?r" by (simp add: list_all_iff)
  moreover have "returns (ret m)" for m :: "(u16 \<times> u8) list" by (simp add: returns_def)
  ultimately have "\<exists>ticks m'. serve log_ports (\<lambda>h regs m. ret m) ?t ?rs (0, m) = ret (ticks, m') \<and>
      unat ticks = 250 \<and> unat (GUS ticks) = (250 div 100) mod 2 ^ 32"
    using uptime_counts_interrupts [of ?r log_ports "[]" 0 ?t m "\<lambda>h regs m. ret m" ?rs] init by simp
  then show ?thesis using init by auto
qed

end
