(* ===== verification/Keyboard.thy ===== *)
theory Keyboard
  imports Timer
begin

unbundle bit_operations_syntax

text \<open>
  The keyboard, \<^verbatim>\<open>drivers/device/keyboard.c\<close>: the two scan code tables, the shift and caps lock
  state, and the interrupt handler, which reads the controller's port and calls the character
  handler installed at the time. The call is the result of the model's handler: which function
  is called and with which character.
\<close>

section \<open>Scan codes\<close>

abbreviation UNKNOWN :: u32 where "UNKNOWN \<equiv> 0xFFFFFFFF"
abbreviation ESC :: u32 where "ESC \<equiv> 0xFFFFFFFF - 1"
abbreviation CTRL :: u32 where "CTRL \<equiv> 0xFFFFFFFF - 2"
abbreviation LSHFT :: u32 where "LSHFT \<equiv> 0xFFFFFFFF - 3"
abbreviation RSHFT :: u32 where "RSHFT \<equiv> 0xFFFFFFFF - 4"
abbreviation ALT :: u32 where "ALT \<equiv> 0xFFFFFFFF - 5"
abbreviation F1 :: u32 where "F1 \<equiv> 0xFFFFFFFF - 6"
abbreviation F2 :: u32 where "F2 \<equiv> 0xFFFFFFFF - 7"
abbreviation F3 :: u32 where "F3 \<equiv> 0xFFFFFFFF - 8"
abbreviation F4 :: u32 where "F4 \<equiv> 0xFFFFFFFF - 9"
abbreviation F5 :: u32 where "F5 \<equiv> 0xFFFFFFFF - 10"
abbreviation F6 :: u32 where "F6 \<equiv> 0xFFFFFFFF - 11"
abbreviation F7 :: u32 where "F7 \<equiv> 0xFFFFFFFF - 12"
abbreviation F8 :: u32 where "F8 \<equiv> 0xFFFFFFFF - 13"
abbreviation F9 :: u32 where "F9 \<equiv> 0xFFFFFFFF - 14"
abbreviation F10 :: u32 where "F10 \<equiv> 0xFFFFFFFF - 15"
abbreviation F11 :: u32 where "F11 \<equiv> 0xFFFFFFFF - 16"
abbreviation F12 :: u32 where "F12 \<equiv> 0xFFFFFFFF - 17"
abbreviation SCRLCK :: u32 where "SCRLCK \<equiv> 0xFFFFFFFF - 18"
abbreviation HOME :: u32 where "HOME \<equiv> 0xFFFFFFFF - 19"
abbreviation UP :: u32 where "UP \<equiv> 0xFFFFFFFF - 20"
abbreviation LEFT :: u32 where "LEFT \<equiv> 0xFFFFFFFF - 21"
abbreviation RIGHT :: u32 where "RIGHT \<equiv> 0xFFFFFFFF - 22"
abbreviation DOWN :: u32 where "DOWN \<equiv> 0xFFFFFFFF - 23"
abbreviation PGUP :: u32 where "PGUP \<equiv> 0xFFFFFFFF - 24"
abbreviation PGDOWN :: u32 where "PGDOWN \<equiv> 0xFFFFFFFF - 25"
abbreviation END :: u32 where "END \<equiv> 0xFFFFFFFF - 26"
abbreviation INS :: u32 where "INS \<equiv> 0xFFFFFFFF - 27"
abbreviation DEL :: u32 where "DEL \<equiv> 0xFFFFFFFF - 28"
abbreviation CAPS :: u32 where "CAPS \<equiv> 0xFFFFFFFF - 29"
abbreviation NUMLCK :: u32 where "NUMLCK \<equiv> 0xFFFFFFFF - 32"

definition chars :: "string \<Rightarrow> u32 list" where
  "chars s = map of_char s"

text \<open>The tables from scan code 58 on are the same.\<close>

definition function_keys :: "u32 list" where
  "function_keys = [CAPS, F1, F2, F3, F4, F5, F6, F7, F8, F9, F10, NUMLCK, SCRLCK, HOME, UP, PGUP] @
     chars ''-'' @ [LEFT, UNKNOWN, RIGHT] @ chars ''+'' @
     [END, DOWN, PGDOWN, INS, DEL, UNKNOWN, UNKNOWN, UNKNOWN, F11, F12] @ replicate 39 UNKNOWN"

definition lowercase :: "u32 list" where
  "lowercase = [UNKNOWN, ESC] @ chars ''1234567890-='' @ [0x08, 0x09] @ chars ''qwertyuiop[]'' @
     [0x0A, CTRL] @ chars ''asdfghjkl;'' @ [0x27, 0x60, LSHFT, 0x5C] @ chars ''zxcvbnm,./'' @
     [RSHFT] @ chars ''*'' @ [ALT] @ chars '' '' @ function_keys"

definition uppercase :: "u32 list" where
  "uppercase = [UNKNOWN, ESC] @ chars ''!@#$%^&*()_+'' @ [0x08, 0x09] @ chars ''QWERTYUIOP{}'' @
     [0x0A, CTRL] @ chars ''ASDFGHJKL:'' @ [0x22, 0x7E, LSHFT, 0x7C] @ chars ''ZXCVBNM<>?'' @
     [RSHFT] @ chars ''*'' @ [ALT] @ chars '' '' @ function_keys"

section \<open>The handler\<close>

text \<open>\<open>'h\<close> identifies the character handlers; \<open>None\<close> is the null pointer.\<close>

record 'h keyboard =
  capsOn :: bool
  capsLock :: bool
  char_handler :: "'h option"

definition keyboard_set_char_handler :: "'h option \<Rightarrow> 'h keyboard \<Rightarrow> 'h keyboard" where
  "keyboard_set_char_handler handler kb = kb\<lparr>char_handler := handler\<rparr>"

text \<open>\<open>keyb\<close> stands for \<^verbatim>\<open>&keybHandler\<close>.\<close>

definition initKeyb ::
    "'r \<Rightarrow> 'h keyboard \<times> 'r routine option list \<Rightarrow> ('h keyboard \<times> 'r routine option list) run" where
  "initKeyb keyb s =
     (case s of (kb, routines) \<Rightarrow>
      bind_run (irq_install_handler 1 (Some (Other keyb)) routines)
        (\<lambda>routines. ret (kb\<lparr>capsOn := False, capsLock := False\<rparr>, routines)))"

definition ignored :: "u8 set" where
  "ignored = {1, 29, 56, 59, 60, 61, 62, 63, 64, 65, 66, 67, 68, 87, 88}"

definition keybHandler ::
    "'m ports \<Rightarrow> 'h keyboard \<times> 'm \<Rightarrow> (('h \<times> u8) option \<times> 'h keyboard \<times> 'm) run" where
  "keybHandler P s =
     (case s of (kb, m) \<Rightarrow>
      case inPortB P 0x60 m of (b1, m) \<Rightarrow>
      case inPortB P 0x60 m of (b2, m) \<Rightarrow>
        let scanCode = b1 AND 0x7F; press = b2 AND 0x80
        in if scanCode \<in> ignored then ret (None, kb, m)
           else if scanCode = 42 then ret (None, kb\<lparr>capsOn := (press = 0)\<rparr>, m)
           else if scanCode = 58 then
             ret (None, (if press = 0 then kb\<lparr>capsLock := \<not> capsLock kb\<rparr> else kb), m)
           else if press = 0 then
             (let table = (if capsOn kb \<or> capsLock kb then uppercase else lowercase)
              in if unat scanCode < length table
                 then let key = table ! unat scanCode
                      in ret (if key < 0x80 \<or> key = 0x08 \<or> key = 0x0A
                              then map_option (\<lambda>h. (h, ucast key)) (char_handler kb) else None, kb, m)
                 else fail OutOfBounds)
           else ret (None, kb, m))"

section \<open>The tables\<close>

lemma lowercase_front: "take 58 lowercase =
     [0xFFFFFFFF, 0xFFFFFFFE, 49, 50, 51, 52, 53, 54, 55, 56, 57, 48, 45, 61, 8, 9, 113, 119,
     101, 114, 116, 121, 117, 105, 111, 112, 91, 93, 10, 0xFFFFFFFD, 97, 115, 100, 102, 103,
     104, 106, 107, 108, 59, 39, 96, 0xFFFFFFFC, 92, 122, 120, 99, 118, 98, 110, 109, 44, 46,
     47, 0xFFFFFFFB, 42, 0xFFFFFFFA, 32]"
  by (simp add: lowercase_def function_keys_def chars_def)

lemma uppercase_front: "take 58 uppercase =
     [0xFFFFFFFF, 0xFFFFFFFE, 33, 64, 35, 36, 37, 94, 38, 42, 40, 41, 95, 43, 8, 9, 81, 87, 69,
     82, 84, 89, 85, 73, 79, 80, 123, 125, 10, 0xFFFFFFFD, 65, 83, 68, 70, 71, 72, 74, 75, 76,
     58, 34, 126, 0xFFFFFFFC, 124, 90, 88, 67, 86, 66, 78, 77, 60, 62, 63, 0xFFFFFFFB, 42,
     0xFFFFFFFA, 32]"
  by (simp add: uppercase_def function_keys_def chars_def)

lemma function_keys_table: "function_keys =
     [0xFFFFFFE2, 0xFFFFFFF9, 0xFFFFFFF8, 0xFFFFFFF7, 0xFFFFFFF6, 0xFFFFFFF5, 0xFFFFFFF4,
     0xFFFFFFF3, 0xFFFFFFF2, 0xFFFFFFF1, 0xFFFFFFF0, 0xFFFFFFDF, 0xFFFFFFED, 0xFFFFFFEC,
     0xFFFFFFEB, 0xFFFFFFE7, 45, 0xFFFFFFEA, 0xFFFFFFFF, 0xFFFFFFE9, 43, 0xFFFFFFE5,
     0xFFFFFFE8, 0xFFFFFFE6, 0xFFFFFFE4, 0xFFFFFFE3, 0xFFFFFFFF, 0xFFFFFFFF, 0xFFFFFFFF,
     0xFFFFFFEF, 0xFFFFFFEE] @ replicate 39 UNKNOWN"
  by (simp add: function_keys_def chars_def)

lemma tables_split: "lowercase = take 58 lowercase @ function_keys" "uppercase = take 58 uppercase @ function_keys"
  by (simp_all add: lowercase_def uppercase_def chars_def)

lemma length_tables: "length lowercase = 128" "length uppercase = 128"
  by (simp_all add: lowercase_def uppercase_def function_keys_def chars_def)

lemma scan_code_bound: "unat ((b :: u8) AND 0x7F) < 128"
proof -
  have "(0x7F :: u8) = mask 7" by (simp add: mask_eq_exp_minus_1)
  then have "b AND 0x7F = take_bit 7 b" by (simp only: take_bit_eq_mask)
  then show ?thesis by (simp add: unsigned_take_bit_eq take_bit_nat_def)
qed

section \<open>The US layout\<close>

text \<open>
  The layout the tables are meant to be: rows of keys with consecutive scan codes, the first scan
  code, the characters of the keys and those of the keys with shift.
\<close>

definition us_rows :: "(nat \<times> string \<times> string) list" where
  "us_rows = [(2, ''1234567890-='', ''!@#$%^&*()_+''), (16, ''qwertyuiop[]'', ''QWERTYUIOP{}''),
     (30, ''asdfghjkl;'' @ [CHR 0x27, CHR 0x60], ''ASDFGHJKL:'' @ [CHR 0x22, CHR 0x7E]),
     (43, CHR 0x5C # ''zxcvbnm,./'', ''|ZXCVBNM<>?''), (57, '' '', '' ''),
     (14, [CHR 0x08, CHR 0x09], [CHR 0x08, CHR 0x09]), (28, [CHR 0x0A], [CHR 0x0A]),
     (55, ''*'', ''*''), (74, ''-'', ''-''), (78, ''+'', ''+'')]"

definition us_layout :: "bool \<Rightarrow> u8 \<Rightarrow> u8 option" where
  "us_layout shift b =
     (case List.find (\<lambda>(a, plain, shifted). a \<le> unat b \<and> unat b < a + length plain) us_rows of
        Some (a, plain, shifted) \<Rightarrow> Some (bytes (if shift then shifted else plain) ! (unat b - a))
      | None \<Rightarrow> None)"

text \<open>The key for a character, and what the keyboard sends when it is typed: pressed and released, inside shift if need be.\<close>

definition scan_key :: "u8 \<Rightarrow> (bool \<times> u8) option" where
  "scan_key c = List.find (\<lambda>(shift, b). us_layout shift b = Some c)
     (List.product [False, True] (map of_nat [0..<128]))"

definition scan_codes :: "u8 \<Rightarrow> u8 list" where
  "scan_codes c = (case scan_key c of
     Some (False, b) \<Rightarrow> [b, b + 0x80]
   | Some (True, b) \<Rightarrow> [42, b, b + 0x80, 42 + 0x80]
   | None \<Rightarrow> [])"

text \<open>The characters that can be shown, or edit the line.\<close>

definition typed :: "u8 \<Rightarrow> bool" where
  "typed c \<longleftrightarrow> c \<in> {0x08, 0x09, 0x0A} \<or> 0x20 \<le> c \<and> c \<le> 0x7E"

definition char_keys :: "u32 list \<Rightarrow> u8 option list" where
  "char_keys table = map (\<lambda>key. if key < 0x80 then Some (ucast key) else None) table"

lemma us_layout_front:
  "map (\<lambda>n. us_layout False (of_nat n)) [2..<58] = char_keys (drop 2 (take 58 lowercase))"
  "map (\<lambda>n. us_layout True (of_nat n)) [2..<58] = char_keys (drop 2 (take 58 uppercase))"
  unfolding lowercase_front uppercase_front
  by (simp_all add: char_keys_def upt_rec_numeral, simp_all add: us_layout_def us_rows_def bytes_def)

lemma us_layout_function:
  "map (\<lambda>n. us_layout shift (of_nat n)) [58..<89] = char_keys (take 31 function_keys)"
  unfolding function_keys_table
  by (simp add: char_keys_def upt_rec_numeral, cases shift, simp_all add: us_layout_def us_rows_def bytes_def)

lemma us_layout_outside:
  "us_layout shift 0 = None" "us_layout shift 1 = None" "89 \<le> b \<Longrightarrow> us_layout shift b = None"
  by (simp_all add: us_layout_def us_rows_def word_le_nat_alt)

text \<open>Where each of the characters \<open>typed\<close> is, in ascending order: shifted or not, and the scan code.\<close>

definition key_at :: "(bool \<times> nat) list" where
  "key_at = [(False, 14), (False, 15), (False, 28), (False, 57), (True, 2), (True, 40), (True, 4),
     (True, 5), (True, 6), (True, 8), (False, 40), (True, 10), (True, 11), (False, 55), (True,
     13), (False, 51), (False, 12), (False, 52), (False, 53), (False, 11), (False, 2), (False,
     3), (False, 4), (False, 5), (False, 6), (False, 7), (False, 8), (False, 9), (False, 10),
     (True, 39), (False, 39), (True, 51), (False, 13), (True, 52), (True, 53), (True, 3),
     (True, 30), (True, 48), (True, 46), (True, 32), (True, 18), (True, 33), (True, 34), (True,
     35), (True, 23), (True, 36), (True, 37), (True, 38), (True, 50), (True, 49), (True, 24),
     (True, 25), (True, 16), (True, 19), (True, 31), (True, 20), (True, 22), (True, 47), (True,
     17), (True, 45), (True, 21), (True, 44), (False, 26), (False, 43), (False, 27), (True, 7),
     (True, 12), (False, 41), (False, 30), (False, 48), (False, 46), (False, 32), (False, 18),
     (False, 33), (False, 34), (False, 35), (False, 23), (False, 36), (False, 37), (False, 38),
     (False, 50), (False, 49), (False, 24), (False, 25), (False, 16), (False, 19), (False, 31),
     (False, 20), (False, 22), (False, 47), (False, 17), (False, 45), (False, 21), (False, 44),
     (True, 26), (True, 43), (True, 27), (True, 41)]"

lemma key_at_characters:
  "map (\<lambda>(shift, n). unat (take 58 (if shift then uppercase else lowercase) ! n)) key_at =
     [0x08, 0x09, 0x0A] @ [0x20..<0x7F]"
  by (simp add: key_at_def lowercase_front uppercase_front upt_rec_numeral)

lemma key_at_codes: "list_all (\<lambda>(shift, n). 1 < n \<and> n < 58) key_at"
  by (simp add: key_at_def)

lemma typed_key:
  assumes "typed c"
  obtains shift n where "(shift, n) \<in> set key_at" "(if shift then uppercase else lowercase) ! n = ucast c"
proof -
  have "unat c \<in> set ([0x08, 0x09, 0x0A] @ [0x20..<0x7F])"
    using assms by (auto simp: typed_def word_le_nat_alt simp del: upt_rec_numeral)
  then obtain shift n where n: "(shift, n) \<in> set key_at"
    "unat c = unat (take 58 (if shift then uppercase else lowercase) ! n)"
    unfolding key_at_characters [symmetric] by auto
  have "1 < n" "n < 58" using key_at_codes n(1) by (auto simp: list_all_iff)
  then have "(if shift then uppercase else lowercase) ! n = ucast c"
    using n(2) by (simp add: word_unat_eq_iff unat_u8_u32 split: if_splits)
  with n(1) show thesis by (rule that)
qed


lemma char_keys_nth:
  assumes "map f [a..<b] = char_keys xs" and "a \<le> n" and "n < b"
  shows "f n = (if xs ! (n - a) < 0x80 then Some (ucast (xs ! (n - a))) else None)"
proof -
  have len: "length xs = b - a" using arg_cong [OF assms(1), of length] by (simp add: char_keys_def)
  have "f n = map f [a..<b] ! (n - a)" using assms(2,3) by simp
  then show ?thesis unfolding assms(1) using assms(2,3) len by (simp add: char_keys_def)
qed

lemma us_layout_table:
  assumes "n < 128"
  shows "us_layout shift (of_nat n) =
    (let key = (if shift then uppercase else lowercase) ! n in if key < 0x80 then Some (ucast key) else None)"
proof -
  have head: "(if shift then uppercase else lowercase) ! n =
      take 58 (if shift then uppercase else lowercase) ! n" if "n < 58"
    using that by simp
  have tail: "(if shift then uppercase else lowercase) ! n = function_keys ! (n - 58)" if "58 \<le> n"
    using that tables_split length_tables
      nth_append_right [of "take 58 (if shift then uppercase else lowercase)" n function_keys]
    by (cases shift) (simp_all del: append_take_drop_id)
  consider "n = 0" | "n = 1" | "2 \<le> n" "n < 58" | "58 \<le> n" "n < 89" | "89 \<le> n" by linarith
  then show ?thesis
  proof cases
    case 3
    then have "us_layout shift (of_nat n) = (let key = drop 2 (take 58 (if shift then uppercase else lowercase)) ! (n - 2)
        in if key < 0x80 then Some (ucast key) else None)"
      using char_keys_nth [OF us_layout_front(1) 3] char_keys_nth [OF us_layout_front(2) 3]
      by (cases shift) (simp_all add: Let_def)
    moreover have "drop 2 (take 58 t) ! (n - 2) = t ! n" if "length t = 128" for t :: "u32 list"
      using nth_drop [of 2 "take 58 t" "n - 2"] 3 that by (simp del: nth_drop add_2_eq_Suc)
    ultimately show ?thesis using length_tables by (cases shift) simp_all
  next
    case 4
    then show ?thesis
      using char_keys_nth [OF us_layout_function 4, of shift] tail by (simp add: Let_def)
  next
    case 5
    then have "(of_nat n :: u8) \<ge> 89"
      using assms by (simp add: word_le_nat_alt unsigned_of_nat take_bit_nat_eq_self)
    moreover have "function_keys ! (n - 58) = UNKNOWN"
      using 5 assms unfolding function_keys_table by (simp add: nth_append)
    ultimately show ?thesis using tail 5 by (simp add: us_layout_outside Let_def)
  qed (simp_all add: us_layout_outside lowercase_def uppercase_def Let_def)
qed

text \<open>A key of the layout is none of the keys the handler treats otherwise.\<close>

lemma us_layout_code:
  assumes "us_layout shift b = Some c"
  shows "b < 0x80" "b \<notin> ignored" "b \<noteq> 42" "b \<noteq> 58"
proof -
  show "b < 0x80"
    using assms us_layout_outside(3) [of b shift] by (cases "89 \<le> b") (simp_all add: word_less_nat_alt word_le_nat_alt)
  have "\<forall>k \<in> ignored \<union> {42, 58}. us_layout shift k = None"
    unfolding ignored_def us_layout_def us_rows_def by simp
  then show "b \<notin> ignored" "b \<noteq> 42" "b \<noteq> 58" using assms by force+
qed

lemma low_bits: "b < 0x80 \<Longrightarrow> b AND 0x7F = b" for b :: u8
proof -
  assume "b < 0x80"
  have "(0x7F :: u8) = mask 7" by (simp add: mask_eq_exp_minus_1)
  then have "b AND 0x7F = take_bit 7 b" by (simp only: take_bit_eq_mask)
  then show "b AND 0x7F = b"
    using \<open>b < 0x80\<close> by (simp add: word_unat_eq_iff unsigned_take_bit_eq take_bit_nat_eq_self word_less_nat_alt)
qed

lemma press_bit: "b AND 0x80 = 0 \<longleftrightarrow> b < 0x80" for b :: u8
proof
  assume "b < 0x80"
  then have "b AND 0x80 = (b AND 0x7F) AND 0x80" by (simp add: low_bits)
  then show "b AND 0x80 = 0" by (simp add: and.assoc)
next
  assume z: "b AND 0x80 = 0"
  have "b AND - 1 = (b AND 0x7F) OR (b AND 0x80)"
    unfolding bit.conj_disj_distrib [symmetric] by (rule arg_cong2 [where f = "(AND)"]) simp_all
  then have "b = b AND 0x7F" using z by simp
  then show "b < 0x80" by (rule ssubst) (simp add: word_less_nat_alt scan_code_bound)
qed

lemma released: "b < 0x80 \<Longrightarrow> (b + 0x80) AND 0x7F = b \<and> \<not> b + 0x80 < 0x80" for b :: u8
proof -
  assume b: "b < 0x80"
  then have n: "unat (b + 0x80) = unat b + 128"
    by (subst unat_add_lem [THEN iffD1]) (simp_all add: word_less_nat_alt)
  have "(0x7F :: u8) = mask 7" by (simp add: mask_eq_exp_minus_1)
  then have "(b + 0x80) AND 0x7F = take_bit 7 (b + 0x80)" by (simp only: take_bit_eq_mask)
  then have "(b + 0x80) AND 0x7F = b"
    using b n by (simp add: word_unat_eq_iff unsigned_take_bit_eq take_bit_nat_def word_less_nat_alt)
  then show ?thesis using n by (simp add: word_less_nat_alt)
qed

lemma released_key:
  assumes "us_layout shift b = Some c"
  shows "us_layout s (b + 0x80) = None" "b + 0x80 \<noteq> 42" "b + 0x80 \<noteq> 58" "b + 0x80 \<noteq> 170" "b \<noteq> 170"
proof -
  note code = us_layout_code [OF assms]
  have high: "\<not> b + 0x80 < 0x80" using released [OF code(1)] by simp
  then show "us_layout s (b + 0x80) = None"
    using us_layout_code(1) [of s "b + 0x80"] by (cases "us_layout s (b + 0x80)") auto
  have "b + 0x80 \<noteq> x" if "x < 0x80" for x using high that by blast
  from this [of 42] this [of 58] show "b + 0x80 \<noteq> 42" "b + 0x80 \<noteq> 58" by simp_all
  show "b \<noteq> 170" using code(1) by auto
  have "b + 0x80 = 42 + 0x80 \<longleftrightarrow> b = 42" by (rule add_right_cancel)
  then show "b + 0x80 \<noteq> 170" using code(3) by simp
qed

lemma scan_key_typed:
  assumes "typed c"
  obtains shift b where "scan_key c = Some (shift, b)" "us_layout shift b = Some c"
proof -
  obtain shift n where n: "(shift, n) \<in> set key_at" "(if shift then uppercase else lowercase) ! n = ucast c"
    by (rule typed_key [OF assms])
  have "(ucast c :: u32) < 0x80"
    using assms by (auto simp: typed_def word_less_nat_alt word_le_nat_alt unat_u8_u32)
  moreover have "(ucast (ucast c :: u32) :: u8) = c" by (simp add: bit_eq_iff bit_simps)
  moreover have "n < 128" using key_at_codes n(1) by (auto simp: list_all_iff)
  ultimately have "us_layout shift (of_nat n) = Some c" "n < 128"
    using us_layout_table [of n shift] n(2) by (auto simp: Let_def)
  then have "(\<lambda>(shift, b). us_layout shift b = Some c) (shift, of_nat n :: u8)"
    "(shift, of_nat n :: u8) \<in> set (List.product [False, True] (map of_nat [0..<128]))"
    by auto
  then have "scan_key c \<noteq> None" unfolding scan_key_def find_None_iff by blast
  then obtain s b where "scan_key c = Some (s, b)" by auto
  moreover from this have "us_layout s b = Some c"
    by (auto simp: scan_key_def find_Some_iff)
  ultimately show thesis by (rule that)
qed

section \<open>Properties\<close>

text \<open>The keyboard controller with one byte to read.\<close>

definition holds_byte :: "'m ports \<Rightarrow> u8 \<Rightarrow> 'm \<Rightarrow> bool" where
  "holds_byte P b m \<longleftrightarrow> inPortB P 0x60 m = (b, m)"

lemma keybHandler_reads:
  assumes "inPortB P 0x60 m = (b1, m1)" and "inPortB P 0x60 m1 = (b2, m2)"
  shows "keybHandler P (kb, m) =
    (let scanCode = b1 AND 0x7F; press = b2 AND 0x80
     in if scanCode \<in> ignored then ret (None, kb, m2)
        else if scanCode = 42 then ret (None, kb\<lparr>capsOn := (press = 0)\<rparr>, m2)
        else if scanCode = 58 then
          ret (None, (if press = 0 then kb\<lparr>capsLock := \<not> capsLock kb\<rparr> else kb), m2)
        else if press = 0 then
          (let key = (if capsOn kb \<or> capsLock kb then uppercase else lowercase) ! unat scanCode
           in ret (if key < 0x80 then map_option (\<lambda>h. (h, ucast key)) (char_handler kb) else None, kb, m2))
        else ret (None, kb, m2))"
proof -
  have "key < 0x80 \<or> key = 0x08 \<or> key = 0x0A \<longleftrightarrow> key < 0x80" for key :: u32 by auto
  then show ?thesis
    using assms scan_code_bound [of b1] length_tables by (simp add: keybHandler_def Let_def)
qed

lemmas keybHandler_byte = keybHandler_reads [of P m b m b m for P m b, folded holds_byte_def]

text \<open>Whatever the controller answers, the handler returns, and it calls the installed function or none.\<close>

lemma keybHandler_total:
  obtains call kb' m' where "keybHandler P (kb, m) = ret (call, kb', m')" "char_handler kb' = char_handler kb"
    "\<forall>h c. call = Some (h, c) \<longrightarrow> char_handler kb = Some h \<and> kb' = kb"
proof -
  obtain b1 m1 b2 m2 where "inPortB P 0x60 m = (b1, m1)" "inPortB P 0x60 m1 = (b2, m2)" by (metis surj_pair)
  note k = keybHandler_reads [OF this, of kb]
  have "\<exists>call kb' m'. keybHandler P (kb, m) = ret (call, kb', m') \<and> char_handler kb' = char_handler kb \<and>
    (\<forall>h c. call = Some (h, c) \<longrightarrow> char_handler kb = Some h \<and> kb' = kb)"
    unfolding k Let_def by auto
  then show thesis using that by blast
qed

text \<open>What an interrupt with the byte \<open>b\<close> does, over the layout.\<close>

definition key_call :: "'h keyboard \<Rightarrow> u8 \<Rightarrow> ('h \<times> u8) option" where
  "key_call kb b = (case us_layout (capsOn kb \<or> capsLock kb) b of
     Some c \<Rightarrow> map_option (\<lambda>h. (h, c)) (char_handler kb)
   | None \<Rightarrow> None)"

definition key_state :: "u8 \<Rightarrow> 'h keyboard \<Rightarrow> 'h keyboard" where
  "key_state b kb = kb\<lparr>capsOn := b = 42 \<or> capsOn kb \<and> b \<noteq> 42 + 0x80, capsLock := capsLock kb \<noteq> (b = 58)\<rparr>"

lemma keybHandler_us:
  assumes "holds_byte P b m"
  shows "keybHandler P (kb, m) = ret (key_call kb b, key_state b kb, m)"
proof (cases "b < 0x80")
  case True
  have n: "unat b < 128" "of_nat (unat b) = b" using True by (simp_all add: word_less_nat_alt)
  have k: "us_layout s b = (if ((if s then uppercase else lowercase) ! unat b) < 0x80
      then Some (ucast ((if s then uppercase else lowercase) ! unat b)) else None)" for s
    using us_layout_table [OF n(1), of s] n(2) by (simp add: Let_def)
  have special: "us_layout s b = None" if "b \<in> ignored \<or> b = 42 \<or> b = 58" for s
    using us_layout_code [of s b] that by (cases "us_layout s b") auto
  have press: "b AND 0x7F = b" "b AND 0x80 = 0" "b \<noteq> 42 + 0x80"
    using True by (auto simp: low_bits press_bit)
  consider "b \<in> ignored" | "b = 42" | "b = 58" | "b \<notin> ignored" "b \<noteq> 42" "b \<noteq> 58" by blast
  then show ?thesis
  proof cases
    case 1
    then have "b \<noteq> 42" "b \<noteq> 58" by (auto simp: ignored_def)
    then show ?thesis unfolding keybHandler_byte [OF assms assms] Let_def press
      using 1 special press(3) by (simp add: key_call_def key_state_def)
  next
    case 4
    then show ?thesis unfolding keybHandler_byte [OF assms assms] Let_def press
      using press(3) by (simp add: key_call_def key_state_def k)
  qed (unfold keybHandler_byte [OF assms assms] Let_def press,
      use special in \<open>simp_all add: key_call_def key_state_def ignored_def\<close>)
next
  case False
  then have "us_layout s b = None" for s using us_layout_code(1) [of s b] by (cases "us_layout s b") auto
  moreover have "b AND 0x7F = 42 \<longleftrightarrow> b = 42 + 0x80"
  proof -
    have "b - 0x80 < 0x80"
      using False unsigned_less [where ?'a = nat, of b] by (simp add: word_less_nat_alt word_le_nat_alt unat_sub)
    from released [OF this] show ?thesis by auto
  qed
  ultimately show ?thesis
    using False unfolding keybHandler_byte [OF assms assms] Let_def
    by (cases "b = 42"; cases "b = 58"; simp add: key_call_def key_state_def press_bit ignored_def)
qed

text \<open>The interrupts of a sequence of bytes; \<open>present\<close> is the controller receiving the next one.\<close>

fun keystrokes ::
    "'m ports \<Rightarrow> (u8 \<Rightarrow> 'm \<Rightarrow> 'm) \<Rightarrow> u8 list \<Rightarrow> 'h keyboard \<times> 'm \<Rightarrow> (('h \<times> u8) list \<times> 'h keyboard \<times> 'm) run" where
  "keystrokes P present [] s = ret ([], s)"
| "keystrokes P present (b # bs) (kb, m) =
     bind_run (keybHandler P (kb, present b m)) (\<lambda>(call, s).
     bind_run (keystrokes P present bs s) (\<lambda>(calls, s).
       ret ((case call of None \<Rightarrow> [] | Some x \<Rightarrow> [x]) @ calls, s)))"

lemma keystrokes_append:
  "keystrokes P present (bs @ bs') s =
     bind_run (keystrokes P present bs s) (\<lambda>(calls, s).
     bind_run (keystrokes P present bs' s) (\<lambda>(calls', s). ret (calls @ calls', s)))"
proof (induction bs arbitrary: s)
  case Nil
  show ?case by (cases "keystrokes P present bs' s") (auto simp: bind_run_def split: sum.split)
next
  case (Cons b bs)
  obtain kb m where s: "s = (kb, m)" by (cases s)
  show ?case
    unfolding s by (simp add: Cons bind_run_assoc case_prod_beta' cong: bind_run_cong)
qed

lemma keystrokes_char:
  assumes "\<forall>b m. holds_byte P b (present b m)" and "typed c" and "char_handler kb = Some h"
    and "\<not> capsOn kb" and "\<not> capsLock kb"
  shows "keystrokes P present (scan_codes c) (kb, m) = ret ([(h, c)], kb, fold present (scan_codes c) m)"
proof -
  obtain shift b where k: "scan_key c = Some (shift, b)" "us_layout shift b = Some c"
    by (rule scan_key_typed [OF assms(2)])
  note code = us_layout_code [OF k(2)] and up = released_key [OF k(2)]
  have none: "us_layout s 42 = None" "us_layout s (42 + 0x80) = None" for s
    by (simp_all add: us_layout_def us_rows_def)
  have step: "keybHandler P (kb', present x m) = ret (key_call kb' x, key_state x kb', present x m)" for kb' x m
    using assms(1) by (intro keybHandler_us) simp
  show ?thesis
    using k code up none assms(3-5)
    by (cases shift) (simp_all add: scan_codes_def step key_call_def key_state_def)
qed

section \<open>Properties\<close>

text \<open>
  Property C25: what the keyboard does with a byte of the controller. It is, exactly, what the US
  layout and the modifier keys say: if the byte is the press of a key of the layout, the installed
  handler is called with the character of that key, the shifted one when shift is down or caps
  lock on; any other byte calls nothing. Shift is down between the press (42) and the release
  (170) of the left shift key, caps lock changes on its press (58). Nothing else changes, and the
  handler always returns.
\<close>

theorem keybHandler_result:
  assumes "holds_byte P b m"
  shows "keybHandler P (kb, m) = ret
    (case us_layout (capsOn kb \<or> capsLock kb) b of
       Some c \<Rightarrow> map_option (\<lambda>h. (h, c)) (char_handler kb)
     | None \<Rightarrow> None,
     kb\<lparr>capsOn := b = 42 \<or> capsOn kb \<and> b \<noteq> 170, capsLock := capsLock kb \<noteq> (b = 58)\<rparr>, m)"
  using keybHandler_us [OF assms, of kb] by (simp add: key_call_def key_state_def)

text \<open>
  Property C26: every text can be typed. The bytes the keyboard sends when the keys of the US
  layout for the characters of a text are pressed and released one after the other, inside
  a press of the left shift key where the layout needs it, make the interrupt handler call the
  installed character handler with exactly the characters of the text, in order, and leave the
  state of the keyboard as it was. The text may contain every printable character, tab,
  backspace and line feed.
\<close>

theorem text_typable:
  assumes "\<forall>b m. holds_byte P b (present b m)" and "list_all typed s" and "char_handler kb = Some h"
    and "\<not> capsOn kb" and "\<not> capsLock kb"
  shows "keystrokes P present (concat (map scan_codes s)) (kb, m) =
    ret (map (\<lambda>c. (h, c)) s, kb, fold present (concat (map scan_codes s)) m)"
  using assms(2)
proof (induction s arbitrary: m)
  case (Cons c s)
  then show ?case
    using keystrokes_char [OF assms(1) _ assms(3-5), of c] by (simp add: keystrokes_append)
qed simp

text \<open>A controller whose state is the byte it holds.\<close>

definition byte_port :: "u8 ports" where
  "byte_port = \<lparr>inPortB = (\<lambda>p m. (m, m)), outPortB = (\<lambda>p v m. m), inPortW = (\<lambda>p m. (0, m)),
     outPortW = (\<lambda>p v m. m)\<rparr>"

lemma byte_port_holds: "holds_byte byte_port b b"
  by (simp add: holds_byte_def byte_port_def)

theorem keybHandler_result_witness:
  "keybHandler byte_port (\<lparr>capsOn = True, capsLock = False, char_handler = Some ()\<rparr>, 0x1E) =
     ret (Some ((), 0x41), \<lparr>capsOn = True, capsLock = False, char_handler = Some ()\<rparr>, 0x1E)"
  using keybHandler_result [OF byte_port_holds, of "\<lparr>capsOn = True, capsLock = False, char_handler = Some ()\<rparr>" "0x1E"]
  by (simp add: us_layout_def us_rows_def bytes_def)

theorem text_typable_witness:
  "\<exists>m. keystrokes byte_port (\<lambda>b m. b) (concat (map scan_codes (bytes ''Hi!'')))
     (\<lparr>capsOn = False, capsLock = False, char_handler = Some ()\<rparr>, 0) =
     ret (map (\<lambda>c. ((), c)) (bytes ''Hi!''), \<lparr>capsOn = False, capsLock = False, char_handler = Some ()\<rparr>, m)"
  using text_typable [of byte_port "\<lambda>b m. b" "bytes ''Hi!''"
    "\<lparr>capsOn = False, capsLock = False, char_handler = Some ()\<rparr>" "()" 0] byte_port_holds
  by (auto simp: typed_def bytes_def)

end
