(* ===== verification/Line_Edit.thy ===== *)
theory Line_Edit
  imports Prelude
begin

text \<open>
  What the three character handlers of the kernel (two of \<^verbatim>\<open>login.c\<close>, one of \<^verbatim>\<open>shell.c\<close>) have in
  common: they collect a line in a bounded buffer. The contract says how one key changes the
  line; the locale lifts it to a sequence of keys.
\<close>

section \<open>Editing a line\<close>

definition edit_char :: "nat \<Rightarrow> u8 list \<Rightarrow> u8 \<Rightarrow> u8 list" where
  "edit_char room l c =
     (if c = 0x08 then butlast l else if length l < room then l @ [c] else l)"

definition edited :: "nat \<Rightarrow> u8 list \<Rightarrow> u8 list" where
  "edited room keys = foldl (edit_char room) [] keys"

lemma length_edit_char: "length l \<le> room \<Longrightarrow> length (edit_char room l c) \<le> room"
  by (auto simp: edit_char_def)

lemma foldl_edit_plain:
  "0x08 \<notin> set keys \<Longrightarrow> length l + length keys \<le> room \<Longrightarrow> foldl (edit_char room) l keys = l @ keys"
  by (induction keys arbitrary: l) (auto simp: edit_char_def)

lemma edited_plain: "0x08 \<notin> set keys \<Longrightarrow> length keys \<le> room \<Longrightarrow> edited room keys = keys"
  unfolding edited_def by (subst foldl_edit_plain) simp_all

lemma edited_bound: "length (edited room keys) \<le> room"
proof -
  have "length l \<le> room \<Longrightarrow> length (foldl (edit_char room) l keys) \<le> room" for l
    by (induction keys arbitrary: l) (simp_all add: length_edit_char)
  then show ?thesis by (simp add: edited_def)
qed

lemma set_edited: "set (edited room keys) \<subseteq> set keys - {0x08}"
proof -
  have step: "set (edit_char room l c) \<subseteq> set l \<union> ({c} - {0x08})" for l c
    by (auto simp: edit_char_def dest: in_set_butlastD)
  have "set (foldl (edit_char room) l keys) \<subseteq> set l \<union> (set keys - {0x08})" for l
  proof (induction keys arbitrary: l)
    case (Cons c keys)
    show ?case using Cons.IH [of "edit_char room l c"] step [of l c] by auto
  qed simp
  then show ?thesis by (fastforce simp: edited_def)
qed

section \<open>Keys in sequence\<close>

fun feed :: "(u8 \<Rightarrow> 's \<Rightarrow> 's run) \<Rightarrow> u8 list \<Rightarrow> 's \<Rightarrow> 's run" where
  "feed key [] s = ret s"
| "feed key (c # cs) s = bind_run (key c s) (feed key cs)"

lemma feed_append: "feed key (xs @ ys) s = bind_run (feed key xs s) (feed key ys)"
  by (induction key xs s rule: feed.induct) (simp_all add: bind_run_assoc cong: bind_run_cong)

locale line_editor =
  fixes key :: "u8 \<Rightarrow> 's \<Rightarrow> 's run"
    and line :: "'s \<Rightarrow> u8 list"
    and good :: "'s \<Rightarrow> bool"
    and room :: nat
  assumes key_edits: "good s \<Longrightarrow> c \<noteq> 0x0A \<Longrightarrow>
    \<exists>s'. key c s = ret s' \<and> good s' \<and> line s' = edit_char room (line s) c"
begin

lemma feed_edits:
  assumes "good s" and "0x0A \<notin> set keys"
  shows "\<exists>s'. feed key keys s = ret s' \<and> good s' \<and> line s' = foldl (edit_char room) (line s) keys"
  using assms
proof (induction keys arbitrary: s)
  case (Cons c keys)
  then obtain s1 where "key c s = ret s1" "good s1" "line s1 = edit_char room (line s) c"
    using key_edits [of s c] by auto
  then show ?case using Cons.IH [of s1] Cons.prems by auto
qed simp

lemma feed_line:
  assumes "good s" and "line s = []" and "0x0A \<notin> set keys"
  shows "\<exists>s'. feed key keys s = ret s' \<and> good s' \<and> line s' = edited room keys"
  using feed_edits [OF assms(1,3)] assms(2) by (simp add: edited_def)

end

end
