(* ===== verification/Login.thy ===== *)
theory Login
  imports Console Line_Edit
begin

unbundle bit_operations_syntax

text \<open>
  The login prompt, \<^verbatim>\<open>login.c\<close>. The main thread waits in a loop while the keyboard interrupt
  calls the installed character handler, so the model has two transitions: a key (the handler
  runs to its end) and a turn of the main thread, which between two waits is one transition
  because no handler is installed then. The main thread runs at any time: several keys may
  arrive before it sees that \<^verbatim>\<open>input_done\<close> is set.
\<close>

section \<open>State\<close>

datatype login_handler = HandleChar | HandlePass

text \<open>Where the main thread is: in one of the two wait loops, returned, or in the final loop.\<close>

datatype login_pc = ReadInput | ReadPassword | LoggedIn | Locked

record login_state =
  screen :: console
  input_buf :: "u8 list"
  input_len :: nat
  input_done :: bool
  handler :: "login_handler option"
  attempts :: nat
  pc :: login_pc

definition VALID_USER :: "u8 list" where "VALID_USER = bytes ''gtaha''"
definition VALID_PASS :: "u8 list" where "VALID_PASS = bytes ''135''"

abbreviation MAX_INPUT :: nat where "MAX_INPUT \<equiv> 32"
abbreviation MAX_ATTEMPTS :: nat where "MAX_ATTEMPTS \<equiv> 3"

definition say :: "u8 list \<Rightarrow> login_state \<Rightarrow> login_state run" where
  "say s st = bind_run (print s (screen st)) (\<lambda>c. ret (st\<lparr>screen := c\<rparr>))"

section \<open>The character handlers\<close>

definition put_input :: "u8 \<Rightarrow> login_state \<Rightarrow> login_state run" where
  "put_input c st =
     (if input_len st < length (input_buf st) then ret (st\<lparr>input_buf := (input_buf st)[input_len st := c]\<rparr>)
      else fail OutOfBounds)"

definition login_handle_char :: "u8 \<Rightarrow> login_state \<Rightarrow> login_state run" where
  "login_handle_char c st =
     (if c = 0x0A then bind_run (put_input 0 st) (\<lambda>st. ret (st\<lparr>input_done := True\<rparr>))
      else if c = 0x08 then
        (if input_len st > 0 then say [0x08, 0x20, 0x08] (st\<lparr>input_len := input_len st - 1\<rparr>) else ret st)
      else if input_len st < MAX_INPUT - 1 then
        bind_run (put_input c st) (\<lambda>st.
          say (if c = 0 then [] else [c]) (st\<lparr>input_len := input_len st + 1\<rparr>))
      else ret st)"

definition login_handle_pass :: "u8 \<Rightarrow> login_state \<Rightarrow> login_state run" where
  "login_handle_pass c st =
     (if c = 0x0A then bind_run (put_input 0 st) (\<lambda>st. ret (st\<lparr>input_done := True\<rparr>))
      else if c = 0x08 then
        (if input_len st > 0 then say [0x08, 0x20, 0x08] (st\<lparr>input_len := input_len st - 1\<rparr>) else ret st)
      else if input_len st < MAX_INPUT - 1 then
        bind_run (put_input c st) (\<lambda>st. say (bytes ''*'') (st\<lparr>input_len := input_len st + 1\<rparr>))
      else ret st)"

text \<open>A character from the keyboard goes to the installed handler.\<close>

definition login_key :: "u8 \<Rightarrow> login_state \<Rightarrow> login_state run" where
  "login_key c st =
     (case handler st of
        None \<Rightarrow> ret st
      | Some HandleChar \<Rightarrow> login_handle_char c st
      | Some HandlePass \<Rightarrow> login_handle_pass c st)"

section \<open>The main thread\<close>

definition read_input :: "login_state \<Rightarrow> login_state" where
  "read_input st = st\<lparr>input_len := 0, input_done := False, handler := Some HandleChar, pc := ReadInput\<rparr>"

definition read_password :: "login_state \<Rightarrow> login_state" where
  "read_password st = st\<lparr>input_len := 0, input_done := False, handler := Some HandlePass, pc := ReadPassword\<rparr>"

text \<open>
  \<^verbatim>\<open>k_strcmp\<close> of a buffer and a literal (without its NUL); reading past the buffer is a fault.
\<close>

fun k_strcmp :: "u8 list \<Rightarrow> u8 list \<Rightarrow> int run" where
  "k_strcmp [] b = fail OutOfBounds"
| "k_strcmp (c # a) [] = ret (sint c)"
| "k_strcmp (c # a) (d # b) =
     (if c \<noteq> 0 \<and> d \<noteq> 0 \<and> c = d then k_strcmp a b else ret (sint c - sint d))"

text \<open>The head of the loop in \<^verbatim>\<open>login\<close>, up to the wait for a user name or to the final loop.\<close>

definition login_loop :: "login_state \<Rightarrow> login_state run" where
  "login_loop st =
     (if attempts st < MAX_ATTEMPTS
      then bind_run (say (bytes ''Username: '') st) (\<lambda>st. ret (read_input st))
      else bind_run (say ([0x0D, 0x0A] @ bytes ''Too many failed attempts. System locked.'' @ [0x0D, 0x0A]) st)
             (\<lambda>st. ret (st\<lparr>pc := Locked\<rparr>)))"

definition login_start :: "login_state \<Rightarrow> login_state run" where
  "login_start st =
     bind_run (say (bytes ''Welcome to MasterOS!'' @ [0x0D, 0x0A]) st) (\<lambda>st.
     bind_run (say (bytes ''<------------------>'' @ [0x0D, 0x0A]) st) (\<lambda>st.
       login_loop (st\<lparr>attempts := 0\<rparr>)))"

text \<open>One turn of the main thread: to its next wait, if its wait is over.\<close>

definition login_turn :: "login_state \<Rightarrow> login_state run" where
  "login_turn st =
     (case pc st of
        ReadInput \<Rightarrow>
          if \<not> input_done st then ret st
          else let st = st\<lparr>handler := None\<rparr>
               in bind_run (k_strcmp (input_buf st) VALID_USER) (\<lambda>r.
                  if r \<noteq> 0
                  then bind_run (say ([0x0D, 0x0A] @ bytes ''Invalid username.'' @ [0x0D, 0x0A]) st)
                         (\<lambda>st. login_loop (st\<lparr>attempts := attempts st + 1\<rparr>))
                  else bind_run (say ([0x0D, 0x0A] @ bytes ''Password: '') st)
                         (\<lambda>st. ret (read_password st)))
      | ReadPassword \<Rightarrow>
          if \<not> input_done st then ret st
          else let st = st\<lparr>handler := None\<rparr>
               in bind_run (k_strcmp (input_buf st) VALID_PASS) (\<lambda>r.
                  if r \<noteq> 0
                  then bind_run (say ([0x0D, 0x0A] @ bytes ''Invalid password.'' @ [0x0D, 0x0A]) st)
                         (\<lambda>st. login_loop (st\<lparr>attempts := attempts st + 1\<rparr>))
                  else bind_run (say ([0x0D, 0x0A] @ bytes ''Login successful!'' @ [0x0D, 0x0A]) st)
                         (\<lambda>st. ret (st\<lparr>pc := LoggedIn\<rparr>)))
      | _ \<Rightarrow> ret st)"

section \<open>Interleavings\<close>

inductive login_step :: "login_state \<Rightarrow> login_state \<Rightarrow> bool" where
  key: "login_key c st = ret st' \<Longrightarrow> login_step st st'"
| turn: "login_turn st = ret st' \<Longrightarrow> login_step st st'"

inductive_cases login_stepE: "login_step st st'"

inductive login_reach :: "login_state \<Rightarrow> login_state \<Rightarrow> bool" for st0 where
  start: "login_start st0 = ret st \<Longrightarrow> login_reach st0 st"
| step: "login_reach st0 st \<Longrightarrow> login_step st st' \<Longrightarrow> login_reach st0 st'"

text \<open>
  The line is inside the buffer, whose last byte is never anything but NUL; the handler fits
  the place of the main thread; there are attempts left while it waits.
\<close>

definition login_ok :: "login_state \<Rightarrow> bool" where
  "login_ok st \<longleftrightarrow> console_ok (screen st) \<and> length (input_buf st) = MAX_INPUT \<and>
     input_len st < MAX_INPUT \<and> input_buf st ! (MAX_INPUT - 1) = 0 \<and> attempts st \<le> MAX_ATTEMPTS \<and>
     (pc st = ReadInput \<longrightarrow> handler st = Some HandleChar \<and> attempts st < MAX_ATTEMPTS) \<and>
     (pc st = ReadPassword \<longrightarrow> handler st = Some HandlePass \<and> attempts st < MAX_ATTEMPTS) \<and>
     (pc st = LoggedIn \<or> pc st = Locked \<longrightarrow> handler st = None)"

lemma say_ok:
  assumes "console_ok (screen st)"
  shows "\<exists>c. say s st = ret (st\<lparr>screen := c\<rparr>) \<and> console_ok c"
  using print_ok [OF assms, of s] by (auto simp: say_def)

lemma k_strcmp_nul:
  "0 \<in> set a \<Longrightarrow> 0 \<notin> set b \<Longrightarrow> \<exists>r. k_strcmp a b = ret r \<and> (r = 0 \<longleftrightarrow> cstr a = b)"
proof (induction a b rule: k_strcmp.induct)
  case (2 c a)
  then show ?case by (auto simp: cstr_def signed_eq_0_iff)
next
  case (3 c a d b)
  then show ?case by (cases "c = d") (auto simp: cstr_def signed_eq_0_iff dest: signed_word_eqI)
qed simp

text \<open>The buffer up to the cursor is the line typed so far.\<close>

definition line_of :: "login_state \<Rightarrow> u8 list" where
  "line_of st = take (input_len st) (input_buf st)"

lemma handle_key:
  assumes ok: "login_ok st" and h: "handler st = Some h"
  obtains cn b n where
    "login_key c st = ret (st\<lparr>input_buf := b, input_len := n, screen := cn, input_done := (input_done st \<or> c = 0x0A)\<rparr>)"
    "console_ok cn" "length b = MAX_INPUT" "n < MAX_INPUT" "b ! (MAX_INPUT - 1) = 0"
    "c \<noteq> 0x0A \<Longrightarrow> take n b = edit_char (MAX_INPUT - 1) (line_of st) c"
    "c = 0x0A \<Longrightarrow> n = input_len st \<and> b = (input_buf st)[n := 0]"
proof -
  let ?n = "input_len st" and ?b = "input_buf st"
  have b: "length ?b = MAX_INPUT" "?n < MAX_INPUT" "?b ! (MAX_INPUT - 1) = 0" "console_ok (screen st)"
    using ok by (simp_all add: login_ok_def)
  obtain echo where key: "login_key c st =
    (if c = 0x0A then bind_run (put_input 0 st) (\<lambda>st. ret (st\<lparr>input_done := True\<rparr>))
     else if c = 0x08 then
       (if ?n > 0 then say [0x08, 0x20, 0x08] (st\<lparr>input_len := ?n - 1\<rparr>) else ret st)
     else if ?n < MAX_INPUT - 1 then
       bind_run (put_input c st) (\<lambda>st. say echo (st\<lparr>input_len := input_len st + 1\<rparr>))
     else ret st)"
    using h by (cases h)
      (auto simp: login_key_def login_handle_char_def login_handle_pass_def intro!: that split del: if_split)
  have line: "length (line_of st) = ?n" using b by (simp add: line_of_def)
  have put: "put_input x st = ret (st\<lparr>input_buf := ?b[?n := x]\<rparr>)" for x
    using b by (simp add: put_input_def)
  consider "c = 0x0A" | "c = 0x08" "?n = 0" | "c = 0x08" "0 < ?n"
    | "c \<noteq> 0x0A" "c \<noteq> 0x08" "?n < MAX_INPUT - 1" | "c \<noteq> 0x0A" "c \<noteq> 0x08" "\<not> ?n < MAX_INPUT - 1"
    by blast
  then show thesis
  proof cases
    case 1
    then show thesis
      using b put by (intro that [where cn = "screen st" and b = "?b[?n := 0]" and n = ?n]) (simp_all add: key [unfolded 1] nth_list_update)
  next
    case 2
    then show thesis
      using b line by (intro that [where cn = "screen st" and b = ?b and n = ?n]) (simp_all add: key [unfolded 2(1)] edit_char_def line_of_def)
  next
    case 3
    obtain cn where cn: "say [0x08, 0x20, 0x08] (st\<lparr>input_len := ?n - 1\<rparr>) =
        ret (st\<lparr>input_len := ?n - 1, screen := cn\<rparr>)" "console_ok cn"
      using say_ok [of "st\<lparr>input_len := ?n - 1\<rparr>"] b(4) by auto
    show thesis
      using 3 b cn by (intro that [where cn = cn and b = ?b and n = "?n - 1"])
        (simp_all add: key [unfolded 3(1)] edit_char_def line_of_def butlast_take)
  next
    case 4
    let ?st = "st\<lparr>input_buf := ?b[?n := c], input_len := ?n + 1\<rparr>"
    obtain cn where cn: "say echo ?st = ret (?st\<lparr>screen := cn\<rparr>)" "console_ok cn"
      using say_ok [of ?st] b(4) by auto
    have "take (?n + 1) (?b[?n := c]) = take ?n ?b @ [c]"
      using b by (simp add: take_Suc_conv_app_nth)
    then show thesis
      using 4 b cn put line by (intro that [where cn = cn and b = "?b[?n := c]" and n = "?n + 1"])
        (simp_all add: key edit_char_def line_of_def)
  next
    case 5
    then show thesis
      using b line by (intro that [where cn = "screen st" and b = ?b and n = ?n]) (simp_all add: key edit_char_def line_of_def)
  qed
qed

lemma key_step:
  assumes "login_ok st"
  shows "\<exists>st'. login_key c st = ret st' \<and> login_ok st' \<and> pc st' = pc st"
proof (cases "handler st")
  case None
  then show ?thesis using assms by (simp add: login_key_def)
next
  case (Some h)
  show ?thesis
    by (rule handle_key [OF assms Some, of c]) (use assms in \<open>simp add: login_ok_def\<close>)
qed

lemma say_frame:
  assumes "login_ok st"
  obtains cn where "say s st = ret (st\<lparr>screen := cn\<rparr>)" "console_ok cn"
  using say_ok [of st s] assms by (auto simp: login_ok_def)

text \<open>What the main thread needs when no handler is installed.\<close>

definition quiet :: "login_state \<Rightarrow> bool" where
  "quiet st \<longleftrightarrow> console_ok (screen st) \<and> length (input_buf st) = MAX_INPUT \<and>
     input_buf st ! (MAX_INPUT - 1) = 0 \<and> input_len st < MAX_INPUT \<and> handler st = None"

lemma login_loop_ok:
  assumes "quiet st" and "attempts st \<le> MAX_ATTEMPTS"
  shows "\<exists>st'. login_loop st = ret st' \<and> login_ok st' \<and> attempts st' = attempts st \<and>
    (if attempts st < MAX_ATTEMPTS then pc st' = ReadInput \<and> \<not> input_done st' \<and> input_len st' = 0
     else pc st' = Locked)"
proof -
  have "console_ok (screen st)" using assms(1) by (simp add: quiet_def)
  then obtain f where f: "say s st = ret (st\<lparr>screen := f s\<rparr>)" "console_ok (f s)" for s
    using say_ok [of st] by metis
  show ?thesis
    using assms by (simp add: login_loop_def f login_ok_def read_input_def quiet_def)
qed

lemma buffer_nul: "login_ok st \<Longrightarrow> 0 \<in> set (input_buf st)"
  by (metis login_ok_def nth_mem lessI numeral_eq_Suc diff_Suc_1)

text \<open>The branches of a turn of the main thread when the line is complete.\<close>

lemma login_turn_ok:
  assumes ok: "login_ok st"
  shows "\<exists>st'. login_turn st = ret st' \<and> login_ok st' \<and>
    (if pc st = ReadInput \<and> input_done st then
       if cstr (input_buf st) = VALID_USER
       then pc st' = ReadPassword \<and> attempts st' = attempts st \<and> \<not> input_done st' \<and> input_len st' = 0
       else attempts st' = attempts st + 1 \<and>
         (if attempts st' < MAX_ATTEMPTS then pc st' = ReadInput \<and> \<not> input_done st' \<and> input_len st' = 0
          else pc st' = Locked)
     else if pc st = ReadPassword \<and> input_done st then
       if cstr (input_buf st) = VALID_PASS
       then pc st' = LoggedIn
       else attempts st' = attempts st + 1 \<and>
         (if attempts st' < MAX_ATTEMPTS then pc st' = ReadInput \<and> \<not> input_done st' \<and> input_len st' = 0
          else pc st' = Locked)
     else st' = st)"
proof -
  have nul: "0 \<notin> set VALID_USER" "0 \<notin> set VALID_PASS"
    by (simp_all add: VALID_USER_def VALID_PASS_def bytes_def)
  define st1 where "st1 = st\<lparr>handler := None\<rparr>"
  have q: "console_ok (screen st1)" "quiet st1" "attempts st1 = attempts st" "input_buf st1 = input_buf st"
    using ok by (simp_all add: st1_def login_ok_def quiet_def)
  have sayq: "\<exists>cn. say s st1 = ret (st1\<lparr>screen := cn\<rparr>) \<and> quiet (st1\<lparr>screen := cn\<rparr>)" for s
    using say_ok [OF q(1), of s] q(2) by (auto simp: quiet_def)
  have retry: "\<exists>st'. bind_run (say s st1) (\<lambda>st. login_loop (st\<lparr>attempts := attempts st + 1\<rparr>)) = ret st' \<and>
      login_ok st' \<and> attempts st' = attempts st + 1 \<and>
      (if attempts st' < MAX_ATTEMPTS then pc st' = ReadInput \<and> \<not> input_done st' \<and> input_len st' = 0
       else pc st' = Locked)" if "attempts st < MAX_ATTEMPTS" for s
  proof -
    obtain cn where cn: "say s st1 = ret (st1\<lparr>screen := cn\<rparr>)" "quiet (st1\<lparr>screen := cn\<rparr>)"
      using sayq by blast
    then have "quiet (st1\<lparr>screen := cn, attempts := attempts st1 + 1\<rparr>)" by (simp add: quiet_def)
    from login_loop_ok [OF this] that q(3) cn(1) show ?thesis by auto
  qed
  note cmp = k_strcmp_nul [OF buffer_nul [OF ok]]
  show ?thesis
  proof (cases "pc st")
    case ReadInput
    obtain r where r: "k_strcmp (input_buf st) VALID_USER = ret r" "r = 0 \<longleftrightarrow> cstr (input_buf st) = VALID_USER"
      using cmp [OF nul(1)] by blast
    have less: "attempts st < MAX_ATTEMPTS" using ok ReadInput by (simp add: login_ok_def)
    obtain cn where cn: "say ([0x0D, 0x0A] @ bytes ''Password: '') st1 = ret (st1\<lparr>screen := cn\<rparr>)"
      "quiet (st1\<lparr>screen := cn\<rparr>)" using sayq by blast
    show ?thesis
      using ReadInput ok r retry [OF less] cn less q
      by (auto simp: login_turn_def st1_def [symmetric] quiet_def read_password_def login_ok_def)
  next
    case ReadPassword
    obtain r where r: "k_strcmp (input_buf st) VALID_PASS = ret r" "r = 0 \<longleftrightarrow> cstr (input_buf st) = VALID_PASS"
      using cmp [OF nul(2)] by blast
    have less: "attempts st < MAX_ATTEMPTS" using ok ReadPassword by (simp add: login_ok_def)
    obtain cn where cn: "say ([0x0D, 0x0A] @ bytes ''Login successful!'' @ [0x0D, 0x0A]) st1 =
        ret (st1\<lparr>screen := cn\<rparr>)"
      "quiet (st1\<lparr>screen := cn\<rparr>)" using sayq by blast
    show ?thesis
      using ReadPassword ok r retry [OF less] cn less q
      by (auto simp: login_turn_def st1_def [symmetric] quiet_def login_ok_def)
  qed (simp_all add: login_turn_def ok)
qed

lemma login_step_ok:
  assumes "login_ok st" and "login_step st st'"
  shows "login_ok st'"
  using assms(2)
proof cases
  case (key c)
  then show ?thesis using key_step [OF assms(1), of c] by auto
next
  case turn
  then show ?thesis using login_turn_ok [OF assms(1)] by auto
qed

text \<open>The screen is good and the buffer is cleared, as static storage is at boot.\<close>

definition login_boot :: "login_state \<Rightarrow> bool" where
  "login_boot st \<longleftrightarrow> console_ok (screen st) \<and> input_buf st = replicate MAX_INPUT 0 \<and>
     input_len st = 0 \<and> handler st = None"

lemma login_start_ok:
  assumes "login_boot st"
  shows "\<exists>st'. login_start st = ret st' \<and> login_ok st' \<and> attempts st' = 0 \<and> pc st' = ReadInput \<and>
    \<not> input_done st' \<and> input_len st' = 0"
proof -
  have c: "console_ok (screen st)" using assms by (simp add: login_boot_def)
  obtain c1 where c1: "say (bytes ''Welcome to MasterOS!'' @ [0x0D, 0x0A]) st = ret (st\<lparr>screen := c1\<rparr>)"
    "console_ok c1" using say_ok [OF c] by blast
  obtain c2 where c2: "say (bytes ''<------------------>'' @ [0x0D, 0x0A]) (st\<lparr>screen := c1\<rparr>) =
      ret (st\<lparr>screen := c2\<rparr>)" "console_ok c2"
    using say_ok [of "st\<lparr>screen := c1\<rparr>"] c1(2) by auto
  have "login_start st = login_loop (st\<lparr>screen := c2, attempts := 0\<rparr>)"
    using c1 c2 by (simp add: login_start_def)
  moreover have "quiet (st\<lparr>screen := c2, attempts := 0\<rparr>)"
    using assms c2 by (simp add: login_boot_def quiet_def)
  ultimately show ?thesis using login_loop_ok [of "st\<lparr>screen := c2, attempts := 0\<rparr>"] by auto
qed

lemma login_reach_ok: "login_reach st0 st \<Longrightarrow> login_boot st0 \<Longrightarrow> login_ok st"
proof (induction rule: login_reach.induct)
  case (start st)
  then show ?case using login_start_ok [of st0] by auto
qed (rule login_step_ok)

section \<open>Typing a line\<close>

text \<open>The handlers satisfy the line editor contract, at any number of attempts.\<close>

definition typing :: "login_handler \<Rightarrow> nat \<Rightarrow> login_state \<Rightarrow> bool" where
  "typing h n st \<longleftrightarrow> login_ok st \<and> handler st = Some h \<and> \<not> input_done st \<and> attempts st = n \<and>
     pc st = (case h of HandleChar \<Rightarrow> ReadInput | HandlePass \<Rightarrow> ReadPassword)"

interpretation typed: line_editor login_key line_of "typing h n" "MAX_INPUT - 1" for h n
proof unfold_locales
  fix st and c :: u8
  assume st: "typing h n st" and c: "c \<noteq> 0x0A"
  then have "login_ok st" "handler st = Some h" by (simp_all add: typing_def)
  then show "\<exists>st'. login_key c st = ret st' \<and> typing h n st' \<and>
      line_of st' = edit_char (MAX_INPUT - 1) (line_of st) c"
    by (rule handle_key [of st h c]) (use st c in \<open>auto simp: typing_def login_ok_def line_of_def\<close>)
qed

text \<open>The turns of the main thread between the keys change nothing until the line is complete.\<close>

definition login_type :: "u8 list \<Rightarrow> login_state \<Rightarrow> login_state run" where
  "login_type s st =
     bind_run (feed login_key s st) (\<lambda>st. bind_run (login_key 0x0A st) login_turn)"

lemma enter_key:
  assumes "typing h n st"
  obtains st' where "login_key 0x0A st = ret st'" "login_ok st'" "input_done st'"
    "cstr (input_buf st') = cstr (line_of st)" "attempts st' = n" "pc st' = pc st"
proof -
  have st: "login_ok st" "handler st = Some h" using assms by (simp_all add: typing_def)
  show thesis
  proof (rule handle_key [OF st, of "0x0A"])
    fix cn b k
    assume key: "login_key 0x0A st = ret (st\<lparr>input_buf := b, input_len := k, screen := cn,
        input_done := (input_done st \<or> (0x0A :: u8) = 0x0A)\<rparr>)"
      and ok: "console_ok cn" "length b = MAX_INPUT" "k < MAX_INPUT" "b ! (MAX_INPUT - 1) = 0"
      and nl: "(0x0A :: u8) = 0x0A \<Longrightarrow> k = input_len st \<and> b = (input_buf st)[k := 0]"
    have b: "b = take k (input_buf st) @ 0 # drop (Suc k) (input_buf st)"
      using nl ok(3) st(1) by (simp add: upd_conv_take_nth_drop login_ok_def)
    have "cstr b = cstr (take k (input_buf st))" unfolding b
      by (simp add: cstr_def takeWhile_tail)
    then show thesis
      using key ok nl st assms by (intro that) (auto simp: login_ok_def typing_def line_of_def)
  qed
qed

lemma login_type_line:
  assumes "typing h n st" "input_len st = 0" "0x0A \<notin> set s"
  obtains st1 where "login_type s st = login_turn st1" "login_ok st1" "input_done st1"
    "cstr (input_buf st1) = cstr (edited (MAX_INPUT - 1) s)" "attempts st1 = n" "pc st1 = pc st"
proof -
  obtain st0 where st0: "feed login_key s st = ret st0" "typing h n st0"
    "line_of st0 = edited (MAX_INPUT - 1) s"
    using typed.feed_line [OF assms(1) _ assms(3)] assms(2) by (auto simp: line_of_def)
  obtain st1 where "login_key 0x0A st0 = ret st1" "login_ok st1" "input_done st1"
    "cstr (input_buf st1) = cstr (line_of st0)" "attempts st1 = n" "pc st1 = pc st0"
    by (rule enter_key [OF st0(2)])
  then show thesis
    using st0 assms(1) by (intro that [of st1]) (auto simp: login_type_def typing_def split: login_handler.splits)
qed

section \<open>The dialogue\<close>

text \<open>What the user is asked next, with the number of failed attempts.\<close>

datatype prompt = AskUser nat | AskPass nat | Admitted | Refused

definition entered :: "u8 list \<Rightarrow> u8 list" where
  "entered s = cstr (edited (MAX_INPUT - 1) s)"

definition failed :: "nat \<Rightarrow> prompt" where
  "failed n = (if n + 1 < MAX_ATTEMPTS then AskUser (n + 1) else Refused)"

fun answer :: "prompt \<Rightarrow> u8 list \<Rightarrow> prompt" where
  "answer (AskUser n) s = (if entered s = VALID_USER then AskPass n else failed n)"
| "answer (AskPass n) s = (if entered s = VALID_PASS then Admitted else failed n)"
| "answer Admitted s = Admitted"
| "answer Refused s = Refused"

fun prompting :: "prompt \<Rightarrow> login_state \<Rightarrow> bool" where
  "prompting (AskUser n) st \<longleftrightarrow> typing HandleChar n st \<and> input_len st = 0"
| "prompting (AskPass n) st \<longleftrightarrow> typing HandlePass n st \<and> input_len st = 0"
| "prompting Admitted st \<longleftrightarrow> login_ok st \<and> pc st = LoggedIn"
| "prompting Refused st \<longleftrightarrow> login_ok st \<and> pc st = Locked"

fun login_lines :: "u8 list list \<Rightarrow> login_state \<Rightarrow> login_state run" where
  "login_lines [] st = ret st"
| "login_lines (s # ss) st = bind_run (login_type s st) (login_lines ss)"

lemma feed_ignored: "handler st = None \<Longrightarrow> feed login_key s st = ret st"
  by (induction s) (simp_all add: login_key_def)

lemma prompting_fresh:
  assumes "login_ok st" "\<not> input_done st" "input_len st = 0" "attempts st = n"
  shows "pc st = ReadInput \<Longrightarrow> prompting (AskUser n) st"
    and "pc st = ReadPassword \<Longrightarrow> prompting (AskPass n) st"
  using assms by (simp_all add: typing_def login_ok_def)

lemma answer_line:
  assumes "prompting p st" and "0x0A \<notin> set s"
  shows "\<exists>st'. login_type s st = ret st' \<and> prompting (answer p s) st'"
proof -
  have wait: "\<exists>st'. login_type s st = ret st' \<and> prompting (answer p s) st'"
    if h: "typing h n st" "input_len st = 0" and p: "p = (case h of HandleChar \<Rightarrow> AskUser n | HandlePass \<Rightarrow> AskPass n)"
    for h n
  proof -
    obtain st1 where st1: "login_type s st = login_turn st1" "login_ok st1" "input_done st1"
      "cstr (input_buf st1) = entered s" "attempts st1 = n" "pc st1 = pc st"
      unfolding entered_def by (rule login_type_line [OF h assms(2)])
    have pc: "pc st = (case h of HandleChar \<Rightarrow> ReadInput | HandlePass \<Rightarrow> ReadPassword)"
      using h(1) by (simp add: typing_def)
    obtain st' where st': "login_turn st1 = ret st'" "login_ok st'"
      "if pc st = ReadInput then
         if entered s = VALID_USER
         then pc st' = ReadPassword \<and> attempts st' = n \<and> \<not> input_done st' \<and> input_len st' = 0
         else attempts st' = n + 1 \<and>
           (if attempts st' < MAX_ATTEMPTS then pc st' = ReadInput \<and> \<not> input_done st' \<and> input_len st' = 0
            else pc st' = Locked)
       else if entered s = VALID_PASS then pc st' = LoggedIn
       else attempts st' = n + 1 \<and>
         (if attempts st' < MAX_ATTEMPTS then pc st' = ReadInput \<and> \<not> input_done st' \<and> input_len st' = 0
          else pc st' = Locked)"
      using login_turn_ok [OF st1(2)] st1(3-6) pc by (cases h) auto
    note fresh = prompting_fresh [OF st'(2)]
    have lost: "prompting (failed n) st'"
      if "attempts st' = n + 1 \<and> (if attempts st' < MAX_ATTEMPTS
         then pc st' = ReadInput \<and> \<not> input_done st' \<and> input_len st' = 0 else pc st' = Locked)"
    proof (cases "n + 1 < MAX_ATTEMPTS")
      case True
      then show ?thesis unfolding failed_def using that fresh(1) [of "n + 1"] by (simp only: if_True simp_thms)
    next
      case False
      then show ?thesis unfolding failed_def using that st'(2) by (simp only: if_False prompting.simps simp_thms)
    qed
    have "prompting (answer p s) st'"
    proof (cases h)
      case HandleChar
      then have p': "p = AskUser n" and "pc st = ReadInput" using p pc by simp_all
      then show ?thesis
        using st'(3) lost fresh(2) [of n] unfolding p' answer.simps by (metis (full_types))
    next
      case HandlePass
      then have p': "p = AskPass n" and "pc st \<noteq> ReadInput" using p pc by simp_all
      then show ?thesis
        using st'(2,3) lost unfolding p' answer.simps by (metis (full_types) prompting.simps(3))
    qed
    then show ?thesis using st1(1) st'(1) by auto
  qed
  show ?thesis
  proof (cases p)
    case (AskUser n)
    then show ?thesis using wait [of HandleChar n] assms(1) by simp
  next
    case (AskPass n)
    then show ?thesis using wait [of HandlePass n] assms(1) by simp
  next
    case Admitted
    then have "handler st = None" "pc st = LoggedIn" using assms(1) by (simp_all add: login_ok_def)
    then show ?thesis
      using Admitted assms(1) by (simp add: login_type_def feed_ignored login_key_def login_turn_def)
  next
    case Refused
    then have "handler st = None" "pc st = Locked" using assms(1) by (simp_all add: login_ok_def)
    then show ?thesis
      using Refused assms(1) by (simp add: login_type_def feed_ignored login_key_def login_turn_def)
  qed
qed

lemma answer_lines:
  "prompting p st \<Longrightarrow> list_all (\<lambda>s. 0x0A \<notin> set s) ss \<Longrightarrow>
     \<exists>st'. login_lines ss st = ret st' \<and> prompting (foldl answer p ss) st'"
proof (induction ss arbitrary: p st)
  case (Cons s ss)
  then obtain st1 where "login_type s st = ret st1" "prompting (answer p s) st1"
    using answer_line [of p st s] by auto
  then show ?case using Cons by auto
qed simp

section \<open>Properties\<close>

text \<open>
  Property C29: no interleaving breaks the login. Whenever keys arrive and whenever the main
  thread runs, every transition returns (no store outside \<^verbatim>\<open>input_buf\<close> or the video memory, and
  \<^verbatim>\<open>k_strcmp\<close> always meets a NUL in the buffer), and there are never more than three failed attempts.
\<close>

theorem login_never_faults:
  assumes "login_boot st0" and "login_reach st0 st"
  shows "(\<forall>c. returns (login_key c st)) \<and> returns (login_turn st) \<and> input_len st < MAX_INPUT \<and>
    attempts st \<le> MAX_ATTEMPTS"
proof -
  have ok: "login_ok st" by (rule login_reach_ok [OF assms(2,1)])
  have "returns (login_key c st)" for c using key_step [OF ok, of c] by (elim exE conjE) (simp add: returns_def)
  moreover have "returns (login_turn st)" using login_turn_ok [OF ok] by (elim exE conjE) (simp add: returns_def)
  ultimately show ?thesis using ok by (simp add: login_ok_def)
qed

text \<open>
  Property C27: who gets in. In every interleaving, the only transition into the logged-in
  state is from the password prompt with the valid password in the buffer, the only one to the
  password prompt is from the user prompt with the valid name in the buffer, and nothing leaves
  the locked state.
\<close>

theorem login_admits_only:
  assumes "login_boot st0" and "login_reach st0 st" and "login_step st st'"
  shows "(pc st' = LoggedIn \<and> pc st \<noteq> LoggedIn \<longrightarrow>
      pc st = ReadPassword \<and> input_done st \<and> cstr (input_buf st) = VALID_PASS) \<and>
    (pc st' = ReadPassword \<and> pc st \<noteq> ReadPassword \<longrightarrow>
      pc st = ReadInput \<and> input_done st \<and> cstr (input_buf st) = VALID_USER) \<and>
    (pc st = Locked \<longrightarrow> st' = st)"
proof -
  have ok: "login_ok st" by (rule login_reach_ok [OF assms(2,1)])
  from assms(3) show ?thesis
  proof cases
    case (key c)
    then have "pc st' = pc st" using key_step [OF ok, of c] by auto
    moreover have "st' = st" if "pc st = Locked"
      using ok key that by (simp add: login_ok_def login_key_def)
    ultimately show ?thesis by auto
  next
    case turn
    then show ?thesis using login_turn_ok [OF ok] by (auto split: if_splits)
  qed
qed

text \<open>
  Property C28: the dialogue. When the main thread keeps up with the keys, a sequence of typed
  lines (with backspaces, cut at 31 characters) takes the login through exactly the prompts of
  \<open>answer\<close>: the valid name asks for the password, the valid password admits, anything else
  is a failed attempt, and the third one locks the system.
\<close>

theorem login_dialogue:
  assumes "login_boot st0" and "list_all (\<lambda>s. 0x0A \<notin> set s) ss"
  shows "\<exists>st. bind_run (login_start st0) (login_lines ss) = ret st \<and>
    prompting (foldl answer (AskUser 0) ss) st"
proof -
  obtain st where "login_start st0 = ret st" "prompting (AskUser 0) st"
    using login_start_ok [OF assms(1)] prompting_fresh(1) by metis
  then show ?thesis using answer_lines [OF _ assms(2)] by auto
qed

definition login_sample :: login_state where
  "login_sample = \<lparr>screen = blank_screen, input_buf = replicate MAX_INPUT 0, input_len = 0,
     input_done = False, handler = None, attempts = 0, pc = ReadInput\<rparr>"

lemma login_sample_boot: "login_boot login_sample"
  by (simp add: login_boot_def login_sample_def blank_screen_ok)

theorem login_never_faults_witness:
  "\<exists>st. login_start login_sample = ret st \<and> (\<forall>c. returns (login_key c st)) \<and> returns (login_turn st)"
proof -
  obtain st where st: "login_start login_sample = ret st" using login_start_ok [OF login_sample_boot] by auto
  have "login_reach login_sample st" using st by (rule login_reach.start)
  from login_never_faults [OF login_sample_boot this] st show ?thesis by blast
qed

theorem login_admits_only_witness:
  "\<exists>st st'. login_reach login_sample st \<and> login_step st st' \<and> pc st' \<noteq> LoggedIn"
proof -
  obtain st where st: "login_start login_sample = ret st" "pc st = ReadInput" "\<not> input_done st"
    using login_start_ok [OF login_sample_boot] by auto
  have r: "login_reach login_sample st" using st(1) by (rule login_reach.start)
  have s: "login_step st st" using st(2,3) by (intro login_step.turn) (simp add: login_turn_def)
  have "pc st \<noteq> LoggedIn \<and> pc st \<noteq> Locked" using st(2) by simp
  with login_admits_only [OF login_sample_boot r s] r s show ?thesis by blast
qed

theorem login_dialogue_witness:
  "\<exists>st. bind_run (login_start login_sample)
      (login_lines [bytes ''root'', bytes ''gtx'' @ [0x08] @ bytes ''aha'', bytes ''135'']) = ret st \<and>
    login_ok st \<and> pc st = LoggedIn"
proof -
  let ?ss = "[bytes ''root'', bytes ''gtx'' @ [0x08] @ bytes ''aha'', bytes ''135'']"
  have "foldl answer (AskUser 0) ?ss = Admitted"
    by (simp add: entered_def edited_def edit_char_def bytes_def cstr_def VALID_USER_def VALID_PASS_def
      failed_def)
  moreover have "list_all (\<lambda>s. 0x0A \<notin> set s) ?ss" by (simp add: bytes_def)
  ultimately show ?thesis using login_dialogue [OF login_sample_boot, of ?ss] by simp
qed

end
