(* ===== verification/Gdt.thy ===== *)
theory Gdt
  imports Ports
begin

unbundle bit_operations_syntax

text \<open>
  Segment descriptors and the task state segment, \<^verbatim>\<open>drivers/gdt.c\<close>. \<open>gdt_flush\<close> and \<open>tss_flush\<close>
  are the loads of the two registers (the reload of the segment registers is not modelled).
  The addresses of the tables are parameters.
\<close>

record gdt_entry_struct =
  seg_limit :: u16
  seg_base_low :: u16
  seg_base_middle :: u8
  seg_access :: u8
  seg_flags :: u8
  seg_base_high :: u8

record gdt_ptr_struct =
  gdt_limit :: u16
  gdt_base :: u32

text \<open>The fields that \<^verbatim>\<open>writeTSS\<close> sets; all the others are cleared and stay so.\<close>

record tss_entry_struct =
  tss_others :: "u32 list"
  tss_esp0 :: u32
  tss_ss0 :: u32
  tss_es :: u32
  tss_cs :: u32
  tss_ss :: u32
  tss_fs :: u32
  tss_ds :: u32
  tss_gs :: u32

record gdt_state =
  gdt_entries :: "gdt_entry_struct list"
  gdt_ptr :: gdt_ptr_struct
  tss_entry :: tss_entry_struct
  gdtr :: "gdt_ptr_struct option"
  task_register :: u16

definition setGDTGate ::
    "u32 \<Rightarrow> u32 \<Rightarrow> u32 \<Rightarrow> u8 \<Rightarrow> u8 \<Rightarrow> gdt_state \<Rightarrow> gdt_state run" where
  "setGDTGate num base limit access gran st =
     (if unat num < length (gdt_entries st) then
        let flags = ucast (drop_bit 16 limit AND 0x0F) :: u8
        in ret (st\<lparr>gdt_entries := (gdt_entries st)[unat num :=
             \<lparr>seg_limit = ucast (limit AND 0xFFFF), seg_base_low = ucast (base AND 0xFFFF),
              seg_base_middle = ucast (drop_bit 16 base AND 0xFF), seg_access = access,
              seg_flags = flags OR (gran AND 0xF0), seg_base_high = ucast (drop_bit 24 base AND 0xFF)\<rparr>]\<rparr>)
      else fail OutOfBounds)"

text \<open>The structure has 28 words of four bytes.\<close>

definition tss_size :: u32 where
  "tss_size = 112"

definition writeTSS :: "u32 \<Rightarrow> u32 \<Rightarrow> u16 \<Rightarrow> u32 \<Rightarrow> gdt_state \<Rightarrow> gdt_state run" where
  "writeTSS tss_addr num ss0 esp0 st =
     (let base = tss_addr; limit = base + tss_size
      in bind_run (setGDTGate num base limit 0xE9 0x00 st) (\<lambda>st.
           ret (st\<lparr>tss_entry := \<lparr>tss_others = replicate 20 0, tss_esp0 = esp0, tss_ss0 = ucast ss0,
             tss_es = 0x10 OR 0x3, tss_cs = 0x08 OR 0x3, tss_ss = 0x10 OR 0x3, tss_fs = 0x10 OR 0x3,
             tss_ds = 0x10 OR 0x3, tss_gs = 0x10 OR 0x3\<rparr>\<rparr>)))"

definition gdt_flush :: "gdt_state \<Rightarrow> gdt_state" where
  "gdt_flush st = st\<lparr>gdtr := Some (gdt_ptr st)\<rparr>"

definition tss_flush :: "gdt_state \<Rightarrow> gdt_state" where
  "tss_flush st = st\<lparr>task_register := 0x2B\<rparr>"

definition initGDT :: "u32 \<Rightarrow> u32 \<Rightarrow> gdt_state \<Rightarrow> gdt_state run" where
  "initGDT gdt_addr tss_addr st =
     (let st = st\<lparr>gdt_ptr := \<lparr>gdt_limit = 8 * 6 - 1, gdt_base = gdt_addr\<rparr>\<rparr>
      in bind_run (setGDTGate 0 0 0 0 0 st) (\<lambda>st.
         bind_run (setGDTGate 1 0 0xFFFFFFF 0x9A 0xCF st) (\<lambda>st.
         bind_run (setGDTGate 2 0 0xFFFFFFF 0x92 0xCF st) (\<lambda>st.
         bind_run (setGDTGate 3 0 0xFFFFFFF 0xFA 0xCF st) (\<lambda>st.
         bind_run (setGDTGate 4 0 0xFFFFFFF 0xF2 0xCF st) (\<lambda>st.
         bind_run (writeTSS tss_addr 5 0x10 0x0 st) (\<lambda>st.
           ret (tss_flush (gdt_flush st)))))))))"

section \<open>How the processor reads a descriptor\<close>

definition seg_base :: "gdt_entry_struct \<Rightarrow> u32" where
  "seg_base d = ucast (seg_base_low d) OR push_bit 16 (ucast (seg_base_middle d)) OR
     push_bit 24 (ucast (seg_base_high d))"

definition raw_limit :: "gdt_entry_struct \<Rightarrow> u32" where
  "raw_limit d = ucast (seg_limit d) OR push_bit 16 (ucast (seg_flags d AND 0x0F))"

text \<open>With the granularity bit the limit counts pages.\<close>

definition last_offset :: "gdt_entry_struct \<Rightarrow> u32" where
  "last_offset d = (if seg_flags d AND 0x80 \<noteq> 0 then push_bit 12 (raw_limit d) OR 0xFFF else raw_limit d)"

definition seg_dpl :: "gdt_entry_struct \<Rightarrow> u8" where
  "seg_dpl d = drop_bit 5 (seg_access d) AND 3"

text \<open>A flat 32-bit segment of all of memory: present, code or data, pages, 32 bits.\<close>

definition flat :: "bool \<Rightarrow> u8 \<Rightarrow> gdt_entry_struct \<Rightarrow> bool" where
  "flat code dpl d \<longleftrightarrow> seg_base d = 0 \<and> last_offset d = 0xFFFFFFFF \<and> seg_access d AND 0x80 \<noteq> 0 \<and>
     seg_access d AND 0x10 \<noteq> 0 \<and> (seg_access d AND 0x08 \<noteq> 0 \<longleftrightarrow> code) \<and> seg_dpl d = dpl \<and>
     seg_flags d AND 0x40 \<noteq> 0"

text \<open>An available 32-bit task state segment.\<close>

definition is_tss :: "gdt_entry_struct \<Rightarrow> bool" where
  "is_tss d \<longleftrightarrow> seg_access d AND 0x9F = 0x89"

lemma low_mask: "(0xFFFF :: u32) = mask 16" "(0xFF :: u32) = mask 8" "(0x0F :: u32) = mask 4"
  "(0xF :: u8) = mask 4" "(0xF0 :: u8) = push_bit 4 (mask 4)" "(0xFFFFF :: u32) = mask 20"
  by (simp_all add: mask_eq_exp_minus_1)

text \<open>Base, limit and flags of a descriptor survive the split into fields.\<close>

lemma setGDTGate_fields:
  assumes "unat num < length (gdt_entries st)" and "setGDTGate num base limit access gran st = ret st'"
  shows "seg_base (gdt_entries st' ! unat num) = base"
    and "raw_limit (gdt_entries st' ! unat num) = limit AND 0xFFFFF"
    and "seg_access (gdt_entries st' ! unat num) = access"
    and "seg_flags (gdt_entries st' ! unat num) AND 0xF0 = gran AND 0xF0"
proof -
  define d where "d = \<lparr>seg_limit = ucast (limit AND 0xFFFF), seg_base_low = ucast (base AND 0xFFFF),
              seg_base_middle = ucast (drop_bit 16 base AND 0xFF), seg_access = access,
              seg_flags = ucast (drop_bit 16 limit AND 0x0F) OR (gran AND 0xF0), seg_base_high = ucast (drop_bit 24 base AND 0xFF)\<rparr>"
  have key: "bit base n \<Longrightarrow> \<not> bit base (24 + (n - 24)) \<Longrightarrow> n - 16 < 8" for n by (cases "n < 24") auto
  have "gdt_entries st' ! unat num = d"
    using assms by (auto simp: setGDTGate_def d_def Let_def)
  moreover have "seg_base d = base"
    unfolding seg_base_def d_def low_mask gdt_entry_struct.simps
    by (rule bit_word_eqI) (auto simp: bit_ucast_iff bit_and_iff bit_or_iff bit_mask_iff bit_push_bit_iff bit_drop_bit_eq intro: key)
  moreover have "raw_limit d = limit AND 0xFFFFF"
    unfolding raw_limit_def d_def low_mask gdt_entry_struct.simps
    by (rule bit_word_eqI) (auto simp: bit_ucast_iff bit_and_iff bit_or_iff bit_mask_iff bit_push_bit_iff bit_drop_bit_eq)
  moreover have "seg_flags d AND 0xF0 = gran AND 0xF0"
    unfolding d_def low_mask gdt_entry_struct.simps
    by (rule bit_word_eqI) (auto simp: bit_ucast_iff bit_and_iff bit_or_iff bit_mask_iff bit_push_bit_iff bit_drop_bit_eq)
  ultimately show "seg_base (gdt_entries st' ! unat num) = base"
    "raw_limit (gdt_entries st' ! unat num) = limit AND 0xFFFFF"
    "seg_access (gdt_entries st' ! unat num) = access"
    "seg_flags (gdt_entries st' ! unat num) AND 0xF0 = gran AND 0xF0"
    by (simp_all add: d_def)
qed

lemma setGDTGate_frame:
  assumes "unat num < length (gdt_entries st)"
  obtains e where "setGDTGate num base limit access gran st = ret (st\<lparr>gdt_entries := (gdt_entries st)[unat num := e]\<rparr>)"
    "seg_base e = base" "raw_limit e = limit AND 0xFFFFF" "seg_access e = access" "seg_flags e AND 0xF0 = gran AND 0xF0"
proof -
  obtain e where e: "setGDTGate num base limit access gran st =
      ret (st\<lparr>gdt_entries := (gdt_entries st)[unat num := e]\<rparr>)"
    using assms unfolding setGDTGate_def Let_def by (simp only: if_True)
  then show thesis using setGDTGate_fields [OF assms e] assms by (intro that [OF e]) simp_all
qed

lemma flags_split:
  fixes f g :: u8
  assumes "f AND 0xF0 = g AND 0xF0" and "m AND 0xF0 = m"
  shows "f AND m = g AND m"
proof -
  have "x AND m = (x AND 0xF0) AND m" for x :: u8
    by (simp add: and.assoc and.commute [of "0xF0" m] assms(2))
  then show ?thesis using assms(1) by metis
qed

lemma flat_segment:
  assumes "seg_base e = 0" "raw_limit e = 0xFFFFFFF AND 0xFFFFF" "seg_access e = a" "seg_flags e AND 0xF0 = 0xCF AND 0xF0"
    and "a = 0x92 OR (if code then 0x08 else 0) OR push_bit 5 dpl" "dpl = 0 \<or> dpl = 3"
  shows "flat code dpl e"
proof -
  have "seg_flags e AND 0x80 = 0xCF AND 0x80" "seg_flags e AND 0x40 = 0xCF AND 0x40"
    by (rule flags_split [OF assms(4)]; simp)+
  then show ?thesis
    using assms(1-3,5,6) by (auto simp: flat_def last_offset_def seg_dpl_def)
qed

lemma initGDT_returns:
  assumes "length (gdt_entries st) = 6"
  shows "returns (initGDT gdt_addr tss_addr st)"
proof -
  define f where "f num base limit access gran s = (case setGDTGate num base limit access gran s of Some (Inr s') \<Rightarrow> s' | _ \<Rightarrow> s)"
    for num base limit :: u32 and access gran :: u8 and s
  have f: "setGDTGate num base limit access gran s = ret (f num base limit access gran s)"
    "length (gdt_entries (f num base limit access gran s)) = 6"
    if "length (gdt_entries s) = 6" "unat num < 6" for num base limit access gran s
    using that by (simp_all add: f_def setGDTGate_def Let_def)
  show ?thesis using assms by (simp add: initGDT_def writeTSS_def returns_def f)
qed

section \<open>Properties\<close>

text \<open>
  Property C32: the segments. After \<^verbatim>\<open>initGDT\<close> the table in use has six descriptors: flat code and
  data segments of all 4 GB for the kernel (privilege 0) and for programs (privilege 3), and
  a task state segment at the address of \<^verbatim>\<open>tss_entry\<close> whose stack for the kernel is the kernel data
  segment. The limit of the last one is not its size: it is the low 20 bits of the
  address of the end of \<^verbatim>\<open>tss_entry\<close>.
\<close>

theorem initGDT_segments:
  assumes "length (gdt_entries st) = 6"
  shows "\<exists>st'. initGDT gdt_addr tss_addr st = ret st' \<and> gdtr st' = Some \<lparr>gdt_limit = 47, gdt_base = gdt_addr\<rparr> \<and>
    length (gdt_entries st') = 6 \<and> seg_access (gdt_entries st' ! 0) = 0 \<and>
    flat True 0 (gdt_entries st' ! 1) \<and> flat False 0 (gdt_entries st' ! 2) \<and>
    flat True 3 (gdt_entries st' ! 3) \<and> flat False 3 (gdt_entries st' ! 4) \<and>
    is_tss (gdt_entries st' ! 5) \<and> seg_base (gdt_entries st' ! 5) = tss_addr \<and>
    last_offset (gdt_entries st' ! 5) = (tss_addr + tss_size) AND 0xFFFFF \<and>
    task_register st' = push_bit 3 5 OR 3 \<and> tss_ss0 (tss_entry st') = push_bit 3 2 \<and> tss_esp0 (tss_entry st') = 0"
proof -
  define s0 where "s0 = st\<lparr>gdt_ptr := \<lparr>gdt_limit = 8 * 6 - 1, gdt_base = gdt_addr\<rparr>\<rparr>"
  define up where "up es = s0\<lparr>gdt_entries := es\<rparr>" for es
  have g: "\<exists>e. setGDTGate num base limit access gran (up es) = ret (up (es[unat num := e])) \<and>
      seg_base e = base \<and> raw_limit e = limit AND 0xFFFFF \<and> seg_access e = access \<and> seg_flags e AND 0xF0 = gran AND 0xF0"
    if "unat num < length es" for num base limit access gran es
    by (rule setGDTGate_frame [of num "up es" base limit access gran]) (use that in \<open>auto simp: up_def\<close>)
  obtain es where es: "gdt_entries st = es" "length es = 6" using assms by simp
  have s0: "s0 = up es" using es by (simp add: up_def s0_def)
  obtain e0 where e0: "setGDTGate 0 0 0 0 0 (up es) = ret (up (es[0 := e0]))" "seg_access e0 = 0"
    using g [of 0 es 0 0 0 0] es by auto
  obtain e1 where e1: "setGDTGate 1 0 0xFFFFFFF 0x9A 0xCF (up (es[0 := e0])) = ret (up (es[0 := e0, 1 := e1]))"
      "flat True 0 e1"
    using g [of 1 "es[0 := e0]" 0 "0xFFFFFFF" "0x9A" "0xCF"] es flat_segment [of _ _ True 0] by auto
  obtain e2 where e2: "setGDTGate 2 0 0xFFFFFFF 0x92 0xCF (up (es[0 := e0, 1 := e1])) =
      ret (up (es[0 := e0, 1 := e1, 2 := e2]))" "flat False 0 e2"
    using g [of 2 "es[0 := e0, 1 := e1]" 0 "0xFFFFFFF" "0x92" "0xCF"] es flat_segment [of _ _ False 0] by auto
  obtain e3 where e3: "setGDTGate 3 0 0xFFFFFFF 0xFA 0xCF (up (es[0 := e0, 1 := e1, 2 := e2])) =
      ret (up (es[0 := e0, 1 := e1, 2 := e2, 3 := e3]))" "flat True 3 e3"
    using g [of 3 "es[0 := e0, 1 := e1, 2 := e2]" 0 "0xFFFFFFF" "0xFA" "0xCF"] es flat_segment [of _ _ True 3] by auto
  obtain e4 where e4: "setGDTGate 4 0 0xFFFFFFF 0xF2 0xCF (up (es[0 := e0, 1 := e1, 2 := e2, 3 := e3])) =
      ret (up (es[0 := e0, 1 := e1, 2 := e2, 3 := e3, 4 := e4]))" "flat False 3 e4"
    using g [of 4 "es[0 := e0, 1 := e1, 2 := e2, 3 := e3]" 0 "0xFFFFFFF" "0xF2" "0xCF"] es flat_segment [of _ _ False 3] by auto
  let ?es = "es[0 := e0, 1 := e1, 2 := e2, 3 := e3, 4 := e4]"
  obtain e5 where e5: "setGDTGate 5 tss_addr (tss_addr + tss_size) 0xE9 0x00 (up ?es) = ret (up (?es[5 := e5]))"
      "seg_base e5 = tss_addr" "raw_limit e5 = (tss_addr + tss_size) AND 0xFFFFF" "seg_access e5 = 0xE9"
      "seg_flags e5 AND 0xF0 = 0"
    using g [of 5 ?es tss_addr "tss_addr + tss_size" "0xE9" 0] es by auto
  have "seg_flags e5 AND 0x80 = 0" using flags_split [of "seg_flags e5" 0 "0x80"] e5(5) by simp
  then have "is_tss e5" "last_offset e5 = (tss_addr + tss_size) AND 0xFFFFF"
    using e5 by (simp_all add: is_tss_def last_offset_def)
  moreover have "initGDT gdt_addr tss_addr st = ret (tss_flush (gdt_flush ((up (?es[5 := e5]))\<lparr>tss_entry :=
      \<lparr>tss_others = replicate 20 0, tss_esp0 = 0, tss_ss0 = ucast (0x10 :: u16),
       tss_es = 0x10 OR 0x3, tss_cs = 0x08 OR 0x3, tss_ss = 0x10 OR 0x3, tss_fs = 0x10 OR 0x3,
       tss_ds = 0x10 OR 0x3, tss_gs = 0x10 OR 0x3\<rparr>\<rparr>)))"
    unfolding initGDT_def Let_def s0_def [symmetric] s0 writeTSS_def
    by (simp only: e0(1) e1(1) e2(1) e3(1) e4(1) e5(1) bind_ret)
  ultimately show ?thesis
    using e0(2) e1(2) e2(2) e3(2) e4(2) e5(2) es(2)
    by (simp add: gdt_flush_def tss_flush_def up_def s0_def)
qed

definition blank_gdt :: gdt_state where
  "blank_gdt = \<lparr>gdt_entries = replicate 6 \<lparr>seg_limit = 0, seg_base_low = 0, seg_base_middle = 0,
       seg_access = 0, seg_flags = 0, seg_base_high = 0\<rparr>, gdt_ptr = \<lparr>gdt_limit = 0, gdt_base = 0\<rparr>,
     tss_entry = \<lparr>tss_others = [], tss_esp0 = 0, tss_ss0 = 0, tss_es = 0, tss_cs = 0, tss_ss = 0,
       tss_fs = 0, tss_ds = 0, tss_gs = 0\<rparr>, gdtr = None, task_register = 0\<rparr>"

theorem initGDT_segments_witness:
  "\<exists>st'. initGDT 0xC0110000 0xC01FFFA0 blank_gdt = ret st' \<and> flat True 3 (gdt_entries st' ! 3) \<and>
    last_offset (gdt_entries st' ! 5) = 0x10"
proof -
  have "length (gdt_entries blank_gdt) = 6" by (simp add: blank_gdt_def)
  from initGDT_segments [OF this, of "0xC0110000" "0xC01FFFA0"] show ?thesis
    by (elim exE conjE) (simp add: tss_size_def)
qed

end
