(* ===== verification/Rtc.thy ===== *)
theory Rtc
  imports Ports
begin

unbundle bit_operations_syntax

text \<open>
  The real time clock, \<^verbatim>\<open>rtc.c\<close>: reading the registers until two readings agree and converting
  them from the format the chip is set to (12 or 24 hours, BCD or binary).
\<close>

record RTCTime =
  rtc_seconds :: u8
  rtc_minutes :: u8
  rtc_hours :: u8
  rtc_day :: u8
  rtc_month :: u8
  rtc_year :: u8

definition rtc_read_reg :: "'m ports \<Rightarrow> u8 \<Rightarrow> 'm \<Rightarrow> u8 \<times> 'm" where
  "rtc_read_reg P reg m = inPortB P 0x71 (outPortB P 0x70 reg m)"

definition bcd_to_bin :: "u8 \<Rightarrow> u8" where
  "bcd_to_bin bcd = drop_bit 4 bcd * 10 + (bcd AND 0x0F)"

text \<open>The wait for the end of an update.\<close>

partial_function (option) rtc_wait :: "'m ports \<Rightarrow> 'm \<Rightarrow> 'm run" where
  "rtc_wait P m =
     (case rtc_read_reg P 0x0A m of (b, m) \<Rightarrow> if b AND 0x80 \<noteq> 0 then rtc_wait P m else ret m)"

definition rtc_read_raw :: "'m ports \<Rightarrow> 'm \<Rightarrow> (RTCTime \<times> 'm) run" where
  "rtc_read_raw P m =
     bind_run (rtc_wait P m) (\<lambda>m.
       case rtc_read_reg P 0x00 m of (s, m) \<Rightarrow>
       case rtc_read_reg P 0x02 m of (mi, m) \<Rightarrow>
       case rtc_read_reg P 0x04 m of (h, m) \<Rightarrow>
       case rtc_read_reg P 0x07 m of (d, m) \<Rightarrow>
       case rtc_read_reg P 0x08 m of (mo, m) \<Rightarrow>
       case rtc_read_reg P 0x09 m of (y, m) \<Rightarrow>
         ret (\<lparr>rtc_seconds = s, rtc_minutes = mi, rtc_hours = h, rtc_day = d, rtc_month = mo, rtc_year = y\<rparr>, m))"

text \<open>Readings until two in a row agree.\<close>

partial_function (option) rtc_settle :: "'m ports \<Rightarrow> RTCTime \<Rightarrow> 'm \<Rightarrow> (RTCTime \<times> 'm) run" where
  "rtc_settle P prev m =
     bind_run (rtc_read_raw P m) (\<lambda>s.
       case s of (t, m) \<Rightarrow> if t \<noteq> prev then rtc_settle P t m else ret (t, m))"

definition rtc_convert :: "u8 \<Rightarrow> RTCTime \<Rightarrow> RTCTime" where
  "rtc_convert stat_b t =
     (let t = (if stat_b AND 0x02 = 0 then
                 let pm = rtc_hours t AND 0x80;
                     t = t\<lparr>rtc_hours := rtc_hours t AND 0x7F\<rparr>;
                     t = (if stat_b AND 0x04 = 0 then t\<lparr>rtc_hours := bcd_to_bin (rtc_hours t)\<rparr> else t);
                     t = (if pm \<noteq> 0 \<and> rtc_hours t < 12 then t\<lparr>rtc_hours := rtc_hours t + 12\<rparr> else t);
                     t = (if pm = 0 \<and> rtc_hours t = 12 then t\<lparr>rtc_hours := 0\<rparr> else t)
                 in t
               else if stat_b AND 0x04 = 0 then t\<lparr>rtc_hours := bcd_to_bin (rtc_hours t)\<rparr> else t)
      in if stat_b AND 0x04 = 0 then
           t\<lparr>rtc_seconds := bcd_to_bin (rtc_seconds t), rtc_minutes := bcd_to_bin (rtc_minutes t),
             rtc_day := bcd_to_bin (rtc_day t), rtc_month := bcd_to_bin (rtc_month t),
             rtc_year := bcd_to_bin (rtc_year t)\<rparr>
         else t)"

definition rtc_read :: "'m ports \<Rightarrow> 'm \<Rightarrow> (RTCTime \<times> 'm) run" where
  "rtc_read P m =
     bind_run (rtc_read_raw P m) (\<lambda>(t, m).
     bind_run (rtc_settle P t m) (\<lambda>(t, m).
       case rtc_read_reg P 0x0B m of (stat_b, m) \<Rightarrow> ret (rtc_convert stat_b t, m)))"

section \<open>The chip\<close>

text \<open>
  A clock chip that holds its registers still for a while: \<open>calm m\<close> register reads from \<open>m\<close> on give
  the registers \<open>value m\<close>.
\<close>

locale rtc_chip =
  fixes P :: "'m ports" and reg :: "'m \<Rightarrow> u8 \<Rightarrow> u8" and calm :: "'m \<Rightarrow> nat"
  assumes read: "0 < calm m \<Longrightarrow>
    \<exists>m'. inPortB P 0x71 (outPortB P 0x70 r m) = (reg m r, m') \<and> reg m' = reg m \<and> calm m' = calm m - 1"

definition raw_time :: "(u8 \<Rightarrow> u8) \<Rightarrow> RTCTime" where
  "raw_time v = \<lparr>rtc_seconds = v 0x00, rtc_minutes = v 0x02, rtc_hours = v 0x04, rtc_day = v 0x07,
     rtc_month = v 0x08, rtc_year = v 0x09\<rparr>"

context rtc_chip
begin

lemma reg_read:
  assumes "calm m = Suc n"
  obtains m' where "rtc_read_reg P r m = (reg m r, m')" "reg m' = reg m" "calm m' = n"
  using read [of m r] assms by (auto simp: rtc_read_reg_def)

lemma raw_read:
  assumes "calm m = Suc (Suc (Suc (Suc (Suc (Suc (Suc n))))))" and "reg m 0x0A AND 0x80 = 0"
  obtains m' where "rtc_read_raw P m = ret (raw_time (reg m), m')" "reg m' = reg m" "calm m' = n"
proof -
  obtain m0 where m0: "rtc_read_reg P 0x0A m = (reg m 0x0A, m0)" "reg m0 = reg m"
    and c0: "calm m0 = Suc (Suc (Suc (Suc (Suc (Suc n)))))" by (rule reg_read [OF assms(1)])
  obtain m1 where m1: "rtc_read_reg P 0x00 m0 = (reg m0 0x00, m1)" "reg m1 = reg m0"
    and c1: "calm m1 = Suc (Suc (Suc (Suc (Suc n))))" by (rule reg_read [OF c0])
  obtain m2 where m2: "rtc_read_reg P 0x02 m1 = (reg m1 0x02, m2)" "reg m2 = reg m1"
    and c2: "calm m2 = Suc (Suc (Suc (Suc n)))" by (rule reg_read [OF c1])
  obtain m3 where m3: "rtc_read_reg P 0x04 m2 = (reg m2 0x04, m3)" "reg m3 = reg m2"
    and c3: "calm m3 = Suc (Suc (Suc n))" by (rule reg_read [OF c2])
  obtain m4 where m4: "rtc_read_reg P 0x07 m3 = (reg m3 0x07, m4)" "reg m4 = reg m3"
    and c4: "calm m4 = Suc (Suc n)" by (rule reg_read [OF c3])
  obtain m5 where m5: "rtc_read_reg P 0x08 m4 = (reg m4 0x08, m5)" "reg m5 = reg m4"
    and c5: "calm m5 = Suc n" by (rule reg_read [OF c4])
  obtain m6 where m6: "rtc_read_reg P 0x09 m5 = (reg m5 0x09, m6)" "reg m6 = reg m5"
    and c6: "calm m6 = n" by (rule reg_read [OF c5])
  have "rtc_wait P m = ret m0" using m0 assms(2) by (simp add: rtc_wait.simps [of P m])
  then have "rtc_read_raw P m = ret (raw_time (reg m), m6)"
    by (simp add: rtc_read_raw_def raw_time_def m0 m1 m2 m3 m4 m5 m6)
  then show thesis using that [OF _ _ c6] m1(2) m2(2) m3(2) m4(2) m5(2) m6(2) m0(2) by simp
qed

lemma read_calm:
  assumes "15 \<le> calm m" and "reg m 0x0A AND 0x80 = 0"
  shows "\<exists>m'. rtc_read P m = ret (rtc_convert (reg m 0x0B) (raw_time (reg m)), m')"
proof -
  obtain n where n: "calm m = Suc (Suc (Suc (Suc (Suc (Suc (Suc (Suc (Suc (Suc (Suc (Suc (Suc (Suc (Suc n))))))))))))))"
    using assms(1) by (auto simp: numeral_eq_Suc dest!: le_Suc_ex)
  obtain m1 where m1: "rtc_read_raw P m = ret (raw_time (reg m), m1)" "reg m1 = reg m"
    and c1: "calm m1 = Suc (Suc (Suc (Suc (Suc (Suc (Suc (Suc n)))))))" by (rule raw_read [OF n assms(2)])
  have "reg m1 0x0A AND 0x80 = 0" using assms(2) m1(2) by simp
  then obtain m2 where m2: "rtc_read_raw P m1 = ret (raw_time (reg m1), m2)" "reg m2 = reg m1"
    and c2: "calm m2 = Suc n" by (rule raw_read [OF c1])
  obtain m3 where m3: "rtc_read_reg P 0x0B m2 = (reg m2 0x0B, m3)" by (rule reg_read [OF c2])
  have "rtc_settle P (raw_time (reg m)) m1 = ret (raw_time (reg m), m2)"
    using m2(1) m1(2) by (subst rtc_settle.simps) simp
  then show ?thesis
    using m1 m2(2) m3 by (simp add: rtc_read_def)
qed

end

section \<open>Formats\<close>

text \<open>How the chip stores a number and an hour, by the two format bits of register B.\<close>

definition bcd :: "nat \<Rightarrow> u8" where
  "bcd n = of_nat (16 * (n div 10) + n mod 10)"

definition stored :: "u8 \<Rightarrow> nat \<Rightarrow> u8" where
  "stored stat_b n = (if stat_b AND 0x04 = 0 then bcd n else of_nat n)"

definition stored_hour :: "u8 \<Rightarrow> nat \<Rightarrow> u8" where
  "stored_hour stat_b h =
     (if stat_b AND 0x02 \<noteq> 0 then stored stat_b h
      else stored stat_b (if h mod 12 = 0 then 12 else h mod 12) OR (if h \<ge> 12 then 0x80 else 0))"

text \<open>The registers of a chip showing a moment.\<close>

definition shows_time :: "(u8 \<Rightarrow> u8) \<Rightarrow> nat \<Rightarrow> nat \<Rightarrow> nat \<Rightarrow> nat \<Rightarrow> nat \<Rightarrow> nat \<Rightarrow> bool" where
  "shows_time v s mi h d mo y \<longleftrightarrow>
     s < 60 \<and> mi < 60 \<and> h < 24 \<and> d < 32 \<and> mo < 13 \<and> y < 100 \<and>
     v 0x00 = stored (v 0x0B) s \<and> v 0x02 = stored (v 0x0B) mi \<and> v 0x04 = stored_hour (v 0x0B) h \<and>
     v 0x07 = stored (v 0x0B) d \<and> v 0x08 = stored (v 0x0B) mo \<and> v 0x09 = stored (v 0x0B) y"

lemma bcd_round:
  assumes "n < 100"
  shows "bcd_to_bin (bcd n) = of_nat n"
proof -
  let ?q = "n div 10" and ?r = "n mod 10"
  have u: "unat (bcd n) = 16 * ?q + ?r"
    unfolding bcd_def using assms by (simp add: unsigned_of_nat take_bit_nat_eq_self del: of_nat_add of_nat_mult)
  have "drop_bit 4 (bcd n) = of_nat ?q"
    by (rule word_unat_eq_iff [THEN iffD2])
      (use assms in \<open>simp add: unsigned_drop_bit_eq unat_div u drop_bit_eq_div unsigned_of_nat take_bit_nat_eq_self\<close>)
  moreover have "bcd n AND 0x0F = take_bit 4 (bcd n)" by (simp add: take_bit_eq_mask mask_eq_exp_minus_1)
  moreover have "take_bit 4 (bcd n) = of_nat ?r"
    by (rule word_unat_eq_iff [THEN iffD2])
      (simp add: unsigned_take_bit_eq u take_bit_eq_mod unat_mod unsigned_of_nat)
  ultimately have "bcd_to_bin (bcd n) = of_nat ?q * 10 + of_nat ?r" by (simp add: bcd_to_bin_def)
  also have "\<dots> = of_nat (?q * 10 + ?r)" by (simp only: of_nat_add of_nat_mult of_nat_numeral)
  also have "?q * 10 + ?r = n" by simp
  finally show ?thesis .
qed

lemma hour_values:
  fixes b :: u8 and t :: RTCTime
  assumes "b \<in> set [0, 2, 4, 6]" and "h \<in> set [0, 1, 2, 3, 4, 5, 6, 7, 8, 9, 10, 11, 12, 13, 14, 15, 16, 17, 18, 19, 20, 21, 22, 23]"
  shows "rtc_hours (rtc_convert b (t\<lparr>rtc_hours := stored_hour b h\<rparr>)) = of_nat h"
  using assms unfolding list.set insert_iff empty_iff
  by (elim disjE FalseE; hypsubst; simp add: rtc_convert_def stored_hour_def stored_def bcd_def bcd_to_bin_def Let_def)

text \<open>Only two bits of register B matter.\<close>

lemma format_bits:
  obtains b0 where "b0 \<in> set [0, 2, 4, 6 :: u8]" "b AND 0x02 = 0 \<longleftrightarrow> b0 AND 0x02 = 0" "b AND 0x04 = 0 \<longleftrightarrow> b0 AND 0x04 = 0"
proof -
  let ?b = "(if b AND 0x02 = 0 then 0 else 2) OR (if b AND 0x04 = 0 then 0 else 4) :: u8"
  show thesis by (rule that [of ?b]) auto
qed

lemma hour_round:
  assumes "h < 24"
  shows "rtc_hours (rtc_convert b (t\<lparr>rtc_hours := stored_hour b h\<rparr>)) = of_nat h"
proof -
  obtain b0 where b0: "b0 \<in> set [0, 2, 4, 6 :: u8]" "b AND 0x02 = 0 \<longleftrightarrow> b0 AND 0x02 = 0" "b AND 0x04 = 0 \<longleftrightarrow> b0 AND 0x04 = 0"
    by (rule format_bits)
  have "stored_hour b h = stored_hour b0 h" by (simp add: stored_hour_def stored_def b0(2,3))
  then have "rtc_hours (rtc_convert b (t\<lparr>rtc_hours := stored_hour b h\<rparr>)) =
      rtc_hours (rtc_convert b0 (t\<lparr>rtc_hours := stored_hour b0 h\<rparr>))"
    by (simp add: rtc_convert_def b0(2,3) Let_def)
  moreover have "h \<in> set [0, 1, 2, 3, 4, 5, 6, 7, 8, 9, 10, 11, 12, 13, 14, 15, 16, 17, 18, 19, 20, 21, 22, 23]"
    using assms by (simp; presburger)
  ultimately show ?thesis using hour_values [OF b0(1)] by metis
qed

definition unstored :: "u8 \<Rightarrow> u8 \<Rightarrow> u8" where
  "unstored stat_b x = (if stat_b AND 0x04 = 0 then bcd_to_bin x else x)"

lemma convert_fields:
  "rtc_seconds (rtc_convert b t) = unstored b (rtc_seconds t)"
  "rtc_minutes (rtc_convert b t) = unstored b (rtc_minutes t)"
  "rtc_day (rtc_convert b t) = unstored b (rtc_day t)"
  "rtc_month (rtc_convert b t) = unstored b (rtc_month t)"
  "rtc_year (rtc_convert b t) = unstored b (rtc_year t)"
  by (simp_all add: rtc_convert_def unstored_def Let_def)

lemma stored_round: "n < 100 \<Longrightarrow> unstored b (stored b n) = of_nat n"
  by (simp add: stored_def unstored_def bcd_round)

lemma convert_round:
  assumes "shows_time v s mi h d mo y"
  shows "rtc_convert (v 0x0B) (raw_time v) = \<lparr>rtc_seconds = of_nat s, rtc_minutes = of_nat mi,
    rtc_hours = of_nat h, rtc_day = of_nat d, rtc_month = of_nat mo, rtc_year = of_nat y\<rparr>"
proof (rule RTCTime.equality)
  have "raw_time v = (raw_time v)\<lparr>rtc_hours := stored_hour (v 0x0B) h\<rparr>"
    using assms by (simp add: raw_time_def shows_time_def)
  then have "rtc_hours (rtc_convert (v 0x0B) (raw_time v)) = of_nat h"
    using hour_round [of h "v 0x0B" "raw_time v"] assms by (simp add: shows_time_def)
  then show "rtc_hours (rtc_convert (v 0x0B) (raw_time v)) = rtc_hours \<lparr>rtc_seconds = of_nat s, rtc_minutes = of_nat mi,
    rtc_hours = of_nat h, rtc_day = of_nat d, rtc_month = of_nat mo, rtc_year = of_nat y\<rparr>" by simp
qed (use assms in \<open>simp_all add: convert_fields raw_time_def shows_time_def stored_round\<close>)

section \<open>Properties\<close>

text \<open>
  Property C34: reading the clock. In each of the four formats of the chip, and for every moment
  of a day, \<^verbatim>\<open>rtc_read\<close> returns that moment in binary and 24 hours, if the chip is not
  updating and keeps still for the fifteen register reads of the routine.
\<close>

theorem rtc_read_decodes:
  assumes "rtc_chip P reg calm" and "15 \<le> calm m" and "reg m 0x0A AND 0x80 = 0"
    and "shows_time (reg m) s mi h d mo y"
  shows "\<exists>m'. rtc_read P m = ret (\<lparr>rtc_seconds = of_nat s, rtc_minutes = of_nat mi,
    rtc_hours = of_nat h, rtc_day = of_nat d, rtc_month = of_nat mo, rtc_year = of_nat y\<rparr>, m')"
  using rtc_chip.read_calm [OF assms(1-3)] unfolding convert_round [OF assms(4)] .

text \<open>
  A chip with its registers, the selected register and the number of reads left until the seconds
  advance.
\<close>

definition clock_read :: "(u8 \<Rightarrow> u8) \<times> u8 \<times> nat \<Rightarrow> u8 \<times> (u8 \<Rightarrow> u8) \<times> u8 \<times> nat" where
  "clock_read m =
     (case m of (v, r, n) \<Rightarrow>
        (v r, if n = 0 then (v(0x00 := (if v 0x00 = 59 then 0 else v 0x00 + 1)), r, 100000) else (v, r, n - 1)))"

definition clock_ports :: "((u8 \<Rightarrow> u8) \<times> u8 \<times> nat) ports" where
  "clock_ports = \<lparr>inPortB = (\<lambda>p m. if p = 0x71 then clock_read m else (0, m)),
     outPortB = (\<lambda>p b (v, r, n). if p = 0x70 then (v, b, n) else (v, r, n)),
     inPortW = (\<lambda>p m. (0, m)), outPortW = (\<lambda>p b m. m)\<rparr>"

interpretation clock: rtc_chip clock_ports "\<lambda>(v, r, n). v" "\<lambda>(v, r, n). n"
  by unfold_locales (auto simp: clock_ports_def clock_read_def)

definition quarter_past_eleven :: "u8 \<Rightarrow> u8" where
  "quarter_past_eleven r = (if r = 0x02 then 0x15 else if r = 0x04 then 0x91 else if r = 0x07 then 0x29
     else if r = 0x08 then 0x02 else if r = 0x09 then 0x24 else 0)"

theorem rtc_read_decodes_witness:
  "\<exists>m'. rtc_read clock_ports (quarter_past_eleven, 0, 20) = ret (\<lparr>rtc_seconds = 0, rtc_minutes = 15,
    rtc_hours = 23, rtc_day = 29, rtc_month = 2, rtc_year = 24\<rparr>, m')"
proof -
  have "shows_time quarter_past_eleven 0 15 23 29 2 24"
    by (simp add: shows_time_def quarter_past_eleven_def stored_hour_def stored_def bcd_def)
  then show ?thesis
    using rtc_read_decodes [OF clock.rtc_chip_axioms, of "(quarter_past_eleven, 0, 20)" 0 15 23 29 2 24]
    by (simp add: quarter_past_eleven_def)
qed

end
