(* ===== verification/Devices.thy ===== *)
theory Devices
  imports Ports
begin

unbundle bit_operations_syntax

text \<open>
  The small drivers: the speaker (\<^verbatim>\<open>drivers/device/speaker.c\<close>), power (\<^verbatim>\<open>power.c\<close>) and the
  vendor string of the processor (\<^verbatim>\<open>drivers/device/cpu.c\<close>).
\<close>

section \<open>Speaker\<close>

definition speaker_play :: "'m ports \<Rightarrow> u32 \<Rightarrow> 'm \<Rightarrow> 'm run" where
  "speaker_play P freq m =
     (if freq = 0 then fail DivideError
      else let divisor = 1193180 div freq;
               m = outPortB P 0x43 0xB6 m;
               m = outPortB P 0x42 (ucast divisor) m;
               m = outPortB P 0x42 (ucast (drop_bit 8 divisor)) m
           in case inPortB P 0x61 m of (temp, m) \<Rightarrow>
                ret (if temp \<noteq> (temp OR 3) then outPortB P 0x61 (temp OR 3) m else m))"

definition speaker_stop :: "'m ports \<Rightarrow> 'm \<Rightarrow> 'm" where
  "speaker_stop P m = (case inPortB P 0x61 m of (b, m) \<Rightarrow> outPortB P 0x61 (b AND 0xFC) m)"

text \<open>
  The machine as far as the speaker is concerned: the gate register of port 0x61, whose two low
  bits let channel 2 of the timer through, and the bytes of the count of channel 2, which
  arrive low byte first after the mode byte 0xB6.
\<close>

definition speaker_hw :: "'m ports \<Rightarrow> ('m \<Rightarrow> u8) \<Rightarrow> ('m \<Rightarrow> u8 list) \<Rightarrow> bool" where
  "speaker_hw P gate count \<longleftrightarrow>
     (\<forall>m. \<exists>m'. inPortB P 0x61 m = (gate m, m') \<and> gate m' = gate m \<and> count m' = count m) \<and>
     (\<forall>b m. gate (outPortB P 0x61 b m) = b \<and> count (outPortB P 0x61 b m) = count m) \<and>
     (\<forall>m. gate (outPortB P 0x43 0xB6 m) = gate m \<and> count (outPortB P 0x43 0xB6 m) = []) \<and>
     (\<forall>b m. gate (outPortB P 0x42 b m) = gate m \<and> count (outPortB P 0x42 b m) = count m @ [b])"

lemma speaker_hw_read:
  assumes "speaker_hw P gate count"
  obtains m' where "inPortB P 0x61 m = (gate m, m')" "gate m' = gate m" "count m' = count m"
  using assms unfolding speaker_hw_def by blast

lemma speaker_hw_write:
  assumes "speaker_hw P gate count"
  shows "gate (outPortB P 0x61 b m) = b" "count (outPortB P 0x61 b m) = count m"
    "gate (outPortB P 0x43 0xB6 m) = gate m" "count (outPortB P 0x43 0xB6 m) = []"
    "gate (outPortB P 0x42 b m) = gate m" "count (outPortB P 0x42 b m) = count m @ [b]"
  using assms unfolding speaker_hw_def by blast+

text \<open>
  A note: the count 1193180 / frequency, low byte first, and the gate open. A frequency of zero
  is a division by zero.
\<close>

lemma speaker_play_note:
  assumes "speaker_hw P gate count" and "freq \<noteq> 0"
  obtains m' where "speaker_play P freq m = ret m'" "gate m' = gate m OR 3"
    "count m' = [ucast (1193180 div freq), ucast (drop_bit 8 (1193180 div freq))]"
proof -
  note w = speaker_hw_write [OF assms(1)]
  let ?m = "outPortB P 0x42 (ucast (drop_bit 8 (1193180 div freq)))
    (outPortB P 0x42 (ucast (1193180 div freq)) (outPortB P 0x43 0xB6 m))"
  obtain m1 where m1: "inPortB P 0x61 ?m = (gate ?m, m1)" "gate m1 = gate ?m" "count m1 = count ?m"
    by (rule speaker_hw_read [OF assms(1)])
  show thesis
  proof (cases "gate m = gate m OR 3")
    case True
    then show thesis using assms(2) m1 w by (intro that [of m1]) (simp_all add: speaker_play_def Let_def)
  next
    case False
    then show thesis
      using assms(2) m1 w by (intro that [of "outPortB P 0x61 (gate m OR 3) m1"])
        (simp_all add: speaker_play_def Let_def)
  qed
qed

lemma speaker_stop_closes:
  assumes "speaker_hw P gate count"
  shows "gate (speaker_stop P m) = gate m AND 0xFC" "count (speaker_stop P m) = count m"
proof -
  obtain m1 where "inPortB P 0x61 m = (gate m, m1)" "count m1 = count m" by (rule speaker_hw_read [OF assms])
  then show "gate (speaker_stop P m) = gate m AND 0xFC" "count (speaker_stop P m) = count m"
    by (simp_all add: speaker_stop_def speaker_hw_write [OF assms])
qed

section \<open>Power\<close>

definition reboot :: "'m ports \<Rightarrow> 'm \<Rightarrow> 'm" where
  "reboot P m = outPortB P 0x64 0xFE m"

definition shutdown :: "'m ports \<Rightarrow> 'm \<Rightarrow> 'm" where
  "shutdown P m = outPortW P 0x604 0x2000 m"

section \<open>Processor\<close>

text \<open>
  The processor answers \<^verbatim>\<open>cpuid\<close> with the words of the registers ebx, ecx and edx. \<open>out\<close> is the
  caller's buffer.
\<close>

definition CGV :: "u32 \<times> u32 \<times> u32 \<Rightarrow> u8 list \<Rightarrow> u8 list run" where
  "CGV regs out =
     (case regs of (ebx, ecx, edx) \<Rightarrow>
        if 16 \<le> length out
        then ret (splice out 0 (enc32 ebx @ enc32 edx @ enc32 ecx @ enc32 0))
        else fail OutOfBounds)"

text \<open>The vendor string and its end take 13 bytes, but a word is stored for the end.\<close>

lemma CGV_overruns: "CGV regs (replicate 13 0) = fail OutOfBounds"
  by (simp add: CGV_def split: prod.split)

end
