(* ===== verification/Vga.thy ===== *)
theory Vga
  imports Ports Console Font
begin

unbundle bit_operations_syntax

text \<open>
  The registers of the VGA, the loading of a font and the mode switch: \<^verbatim>\<open>drivers/vga/VGAR.c\<close>,
  \<^verbatim>\<open>VGAF.c\<close>, \<^verbatim>\<open>VGAM.c\<close> and the mode switch of \<^verbatim>\<open>vga.c\<close>. A store into the window of the video
  memory at \<^verbatim>\<open>0xA0000\<close> is the parameter \<open>poke\<close>, because where it goes depends on the registers.
\<close>

section \<open>Registers (VGAR.c)\<close>

record VGARegisters =
  r_misc :: u8
  CRTCR :: "u8 list"
  SR :: "u8 list"
  GCR :: "u8 list"
  ACR :: "u8 list"

definition VGAWmisc :: "'m ports \<Rightarrow> u8 \<Rightarrow> 'm \<Rightarrow> 'm" where
  "VGAWmisc P v m = outPortB P 0x3C2 v m"

definition VGAWSR :: "'m ports \<Rightarrow> u8 \<Rightarrow> u8 \<Rightarrow> 'm \<Rightarrow> 'm" where
  "VGAWSR P index v m = outPortB P 0x3C5 v (outPortB P 0x3C4 index m)"

definition VGAWGRAPH :: "'m ports \<Rightarrow> u8 \<Rightarrow> u8 \<Rightarrow> 'm \<Rightarrow> 'm" where
  "VGAWGRAPH P index v m = outPortB P 0x3CF v (outPortB P 0x3CE index m)"

definition VGAWCRTC :: "'m ports \<Rightarrow> u8 \<Rightarrow> u8 \<Rightarrow> 'm \<Rightarrow> 'm" where
  "VGAWCRTC P index v m = outPortB P 0x3D5 v (outPortB P 0x3D4 index m)"

definition VGARCRTC :: "'m ports \<Rightarrow> u8 \<Rightarrow> 'm \<Rightarrow> u8 \<times> 'm" where
  "VGARCRTC P index m = inPortB P 0x3D5 (outPortB P 0x3D4 index m)"

definition VGAWATTR :: "'m ports \<Rightarrow> u8 \<Rightarrow> u8 \<Rightarrow> 'm \<Rightarrow> 'm" where
  "VGAWATTR P index v m =
     (case inPortB P 0x3DA m of (_, m) \<Rightarrow> outPortB P 0x3C0 v (outPortB P 0x3C0 index m))"

text \<open>The loops over the register tables: \<open>n\<close> registers from \<open>i\<close>.\<close>

fun load_regs :: "(u8 \<Rightarrow> u8 \<Rightarrow> 'm \<Rightarrow> 'm) \<Rightarrow> u8 list \<Rightarrow> nat \<Rightarrow> nat \<Rightarrow> 'm \<Rightarrow> 'm run" where
  "load_regs wr vs i 0 m = ret m"
| "load_regs wr vs i (Suc n) m =
     (if i < length vs then load_regs wr vs (i + 1) n (wr (of_nat i) (vs ! i) m) else fail OutOfBounds)"

text \<open>Bit 7 of register 0x11 protects the first registers; the code clears it, twice.\<close>

definition unlock_crtc :: "'m ports \<Rightarrow> 'm \<Rightarrow> 'm" where
  "unlock_crtc P m = (case VGARCRTC P 0x11 m of (b, m) \<Rightarrow> VGAWCRTC P 0x11 (b AND 0x7F) m)"

definition VGALOADREG :: "'m ports \<Rightarrow> VGARegisters \<Rightarrow> 'm \<Rightarrow> 'm run" where
  "VGALOADREG P regs m =
     bind_run (load_regs (VGAWSR P) (SR regs) 0 5 (VGAWmisc P (r_misc regs) m)) (\<lambda>m.
     bind_run (load_regs (VGAWCRTC P) (CRTCR regs) 0 25 (unlock_crtc P (unlock_crtc P m))) (\<lambda>m.
     bind_run (load_regs (VGAWGRAPH P) (GCR regs) 0 9 m) (\<lambda>m.
     bind_run (load_regs (VGAWATTR P) (ACR regs) 0 21 m) (\<lambda>m.
       case inPortB P 0x3DA m of (_, m) \<Rightarrow> ret (outPortB P 0x3C0 0x20 m)))))"

section \<open>Fonts (VGAF.c)\<close>

definition VGAEFA :: "'m ports \<Rightarrow> 'm \<Rightarrow> 'm" where
  "VGAEFA P m = out_all P
     [(0x3C4, 0x02), (0x3C5, 0x04), (0x3C4, 0x04), (0x3C5, 0x06), (0x3CE, 0x04), (0x3CF, 0x02),
      (0x3CE, 0x05), (0x3CF, 0x00), (0x3CE, 0x06), (0x3CF, 0x00)] m"

definition VGADFA :: "'m ports \<Rightarrow> 'm \<Rightarrow> 'm" where
  "VGADFA P m = out_all P
     [(0x3C4, 0x02), (0x3C5, 0x03), (0x3C4, 0x04), (0x3C5, 0x02), (0x3CE, 0x04), (0x3CF, 0x00),
      (0x3CE, 0x05), (0x3CF, 0x10), (0x3CE, 0x06), (0x3CF, 0x0E)] m"

text \<open>The rows of a character: \<open>n\<close> bytes of the font from byte \<open>k\<close>, to address \<open>a\<close>.\<close>

fun copy_scan :: "(u32 \<Rightarrow> u8 \<Rightarrow> 'm \<Rightarrow> 'm) \<Rightarrow> u8 list \<Rightarrow> nat \<Rightarrow> u32 \<Rightarrow> nat \<Rightarrow> 'm \<Rightarrow> 'm run" where
  "copy_scan poke font k a 0 m = ret m"
| "copy_scan poke font k a (Suc n) m =
     (if k < length font then copy_scan poke font (k + 1) (a + 1) n (poke a (font ! k) m)
      else fail OutOfBounds)"

fun pad_scan :: "(u32 \<Rightarrow> u8 \<Rightarrow> 'm \<Rightarrow> 'm) \<Rightarrow> u32 \<Rightarrow> nat \<Rightarrow> 'm \<Rightarrow> 'm" where
  "pad_scan poke a 0 m = m"
| "pad_scan poke a (Suc n) m = pad_scan poke (a + 1) n (poke a 0 m)"

fun load_chars :: "(u32 \<Rightarrow> u8 \<Rightarrow> 'm \<Rightarrow> 'm) \<Rightarrow> u8 list \<Rightarrow> nat \<Rightarrow> nat \<Rightarrow> u32 \<Rightarrow> nat \<Rightarrow> 'm \<Rightarrow> 'm run" where
  "load_chars poke font height k a 0 m = ret m"
| "load_chars poke font height k a (Suc n) m =
     bind_run (copy_scan poke font k a height m) (\<lambda>m.
       load_chars poke font height (k + height) (a + of_nat (height + (32 - height))) n
         (pad_scan poke (a + of_nat height) (32 - height) m))"

text \<open>
  The first two assembly blocks make the accesses of \<^verbatim>\<open>VGAEFA\<close> and \<^verbatim>\<open>VGADFA\<close>; the third sets
  the number of scan lines of a character and switches the cursor off.
\<close>

definition VGALF :: "'m ports \<Rightarrow> (u32 \<Rightarrow> u8 \<Rightarrow> 'm \<Rightarrow> 'm) \<Rightarrow> u8 list \<Rightarrow> u32 \<Rightarrow> 'm \<Rightarrow> 'm run" where
  "VGALF P poke font height m =
     bind_run (load_chars poke font (unat height) 0 0xA0000 256
       (out_all P
         [(0x3C4, 0x02), (0x3C5, 0x04), (0x3C4, 0x04), (0x3C5, 0x06), (0x3CE, 0x04), (0x3CF, 0x02),
          (0x3CE, 0x05), (0x3CF, 0x00), (0x3CE, 0x06), (0x3CF, 0x00)] m)) (\<lambda>m.
       let m = out_all P
                 [(0x3C4, 0x02), (0x3C5, 0x03), (0x3C4, 0x04), (0x3C5, 0x02), (0x3CE, 0x04), (0x3CF, 0x00),
                  (0x3CE, 0x05), (0x3CF, 0x10), (0x3CE, 0x06), (0x3CF, 0x0E)] m;
           max_scan_line = ucast (height - 1) :: u8
       in case inPortB P 0x3D5 (outPortB P 0x3D4 0x09 m) of (b, m) \<Rightarrow>
            ret (out_all P [(0x3D5, (b AND 0xE0) OR max_scan_line), (0x3D4, 0x0A), (0x3D5, 0x20)] m))"

definition VGALF8X8F :: "'m ports \<Rightarrow> (u32 \<Rightarrow> u8 \<Rightarrow> 'm \<Rightarrow> 'm) \<Rightarrow> 'm \<Rightarrow> 'm run" where
  "VGALF8X8F P poke m = VGALF P poke IBM_VGA_8x8_bin 8 m"

text \<open>Clears 4000 cells of the text memory with a colour.\<close>

definition VGACLS :: "u8 \<Rightarrow> u16 list \<Rightarrow> u16 list run" where
  "VGACLS color v =
     (let blank_cell = 0x20 OR push_bit 8 (ucast color) in fill_cells 4000 0 blank_cell v)"

section \<open>Modes (VGAM.c)\<close>

definition vga_regs_80x50 :: VGARegisters where
  "vga_regs_80x50 = \<lparr>r_misc = 0x67,
     CRTCR = [0x5F, 0x4F, 0x50, 0x82, 0x55, 0x81, 0xBF, 0x1F, 0x00, 0x47, 0x06, 0x07,
        0x00, 0x00, 0x00, 0x00, 0x9C, 0x8E, 0x8F, 0x28, 0x1F, 0x96, 0xB9, 0xA3, 0xFF],
     SR = [0x03, 0x01, 0x03, 0x00, 0x02],
     GCR = [0x00, 0x00, 0x00, 0x00, 0x00, 0x10, 0x0E, 0x0F, 0xFF],
     ACR = [0x00, 0x01, 0x02, 0x03, 0x04, 0x05, 0x14, 0x07, 0x38, 0x39,
        0x3A, 0x3B, 0x3C, 0x3D, 0x3E, 0x3F, 0x04, 0x00, 0x0F, 0x00, 0x00]\<rparr>"

definition vga_regs_80x25 :: VGARegisters where
  "vga_regs_80x25 = \<lparr>r_misc = 0x67,
     CRTCR = [0x5F, 0x4F, 0x50, 0x82, 0x55, 0x81, 0xBF, 0x1F, 0x00, 0x4F, 0x0D, 0x0E,
        0x00, 0x00, 0x00, 0x00, 0x9C, 0x8E, 0x8F, 0x28, 0x1F, 0x96, 0xB9, 0xA3, 0xFF],
     SR = [0x03, 0x00, 0x03, 0x00, 0x02],
     GCR = [0x00, 0x00, 0x00, 0x00, 0x00, 0x10, 0x0E, 0x0F, 0xFF],
     ACR = [0x00, 0x01, 0x02, 0x03, 0x04, 0x05, 0x14, 0x07, 0x38, 0x39,
        0x3A, 0x3B, 0x3C, 0x3D, 0x3E, 0x3F, 0x0C, 0x00, 0x0F, 0x00, 0x00]\<rparr>"

datatype VGAMode = VGA_MODE_80X25 | VGA_MODE_80X50 | VGA_MODE_90X60

definition VGASM ::
    "'m ports \<Rightarrow> (u32 \<Rightarrow> u8 \<Rightarrow> 'm \<Rightarrow> 'm) \<Rightarrow> VGAMode \<Rightarrow> console \<times> 'm \<Rightarrow> (console \<times> 'm) run" where
  "VGASM P poke mode s =
     (case s of (c, m) \<Rightarrow>
      case mode of
        VGA_MODE_80X25 \<Rightarrow>
          bind_run (VGALOADREG P vga_regs_80x25 m) (\<lambda>m. ret (c\<lparr>VGAWidth := 80, VGAHeight := 25\<rparr>, m))
      | VGA_MODE_80X50 \<Rightarrow>
          bind_run (VGALOADREG P vga_regs_80x50 m) (\<lambda>m.
            let c = c\<lparr>VGAWidth := 80, VGAHeight := 50\<rparr>; m = VGAEFA P m
            in bind_run (VGALF8X8F P poke m) (\<lambda>m.
                 let m = VGADFA P m in bind_run (Reset c) (\<lambda>c. ret (c, m))))
      | VGA_MODE_90X60 \<Rightarrow> ret (c, m))"

text \<open>The older mode switch of \<^verbatim>\<open>vga.c\<close>.\<close>

definition VGASM80X50 ::
    "'m ports \<Rightarrow> (u32 \<Rightarrow> u8 \<Rightarrow> 'm \<Rightarrow> 'm) \<Rightarrow> console \<times> 'm \<Rightarrow> (console \<times> 'm) run" where
  "VGASM80X50 P poke s =
     (case s of (c, m) \<Rightarrow>
      bind_run (VGALF P poke IBM_VGA_8x8_bin 8 m) (\<lambda>m.
        let m = out_all P [(0x3D4, 0x09), (0x3D5, 0x07), (0x3D4, 0x12), (0x3D5, 0x9F), (0x3D4, 0x15), (0x3D5, 0xBF),
                  (0x3D4, 0x16), (0x3D5, 0x1F), (0x3D4, 0x07), (0x3D5, 0x1F)] m
        in bind_run (Reset (c\<lparr>VGAWidth := 80, VGAHeight := 50\<rparr>)) (\<lambda>c. ret (c, m))))"

section \<open>The adapter\<close>

text \<open>
  What the programmer sees of the adapter: the register files behind the index registers, and
  plane 2 of the video memory, which holds the font.
\<close>

record vga_view =
  v_misc :: u8
  v_seq :: "u8 \<Rightarrow> u8"
  v_crtc :: "u8 \<Rightarrow> u8"
  v_gc :: "u8 \<Rightarrow> u8"
  v_attr :: "u8 \<Rightarrow> u8"
  plane2 :: "nat \<Rightarrow> u8"

text \<open>
  The registers select plane 2 for writing, at consecutive addresses from \<open>0xA0000\<close>, and the
  bytes of the processor arrive unchanged.
\<close>

definition font_access :: "vga_view \<Rightarrow> bool" where
  "font_access w \<longleftrightarrow> v_seq w 0x02 = 0x04 \<and> v_seq w 0x04 = 0x06 \<and> v_gc w 0x05 = 0x00 \<and> v_gc w 0x06 = 0x00 \<and>
     v_gc w 0x01 = 0x00 \<and> v_gc w 0x03 = 0x00 \<and> v_gc w 0x08 = 0xFF"

text \<open>The graphics controller neither rotates nor masks the bytes of the processor.\<close>

definition plain_writes :: "vga_view \<Rightarrow> bool" where
  "plain_writes w \<longleftrightarrow> v_gc w 0x01 = 0x00 \<and> v_gc w 0x03 = 0x00 \<and> v_gc w 0x08 = 0xFF"

definition unlocked :: "vga_view \<Rightarrow> bool" where
  "unlocked w \<longleftrightarrow> v_crtc w 0x11 AND 0x80 = 0"

locale vga_adapter =
  fixes P :: "'m ports" and poke :: "u32 \<Rightarrow> u8 \<Rightarrow> 'm \<Rightarrow> 'm" and look :: "'m \<Rightarrow> vga_view"
  assumes misc_write: "look (outPortB P 0x3C2 b m) = (look m)\<lparr>v_misc := b\<rparr>"
    and seq_write: "look (outPortB P 0x3C5 b (outPortB P 0x3C4 i m)) = (look m)\<lparr>v_seq := (v_seq (look m))(i := b)\<rparr>"
    and gc_write: "look (outPortB P 0x3CF b (outPortB P 0x3CE i m)) = (look m)\<lparr>v_gc := (v_gc (look m))(i := b)\<rparr>"
    and crtc_write: "7 < i \<or> unlocked (look m) \<Longrightarrow>
      look (outPortB P 0x3D5 b (outPortB P 0x3D4 i m)) = (look m)\<lparr>v_crtc := (v_crtc (look m))(i := b)\<rparr>"
    and crtc_read: "\<exists>m'. inPortB P 0x3D5 (outPortB P 0x3D4 i m) = (v_crtc (look m) i, m') \<and> look m' = look m \<and>
      (7 < i \<longrightarrow> look (outPortB P 0x3D5 b m') = (look m)\<lparr>v_crtc := (v_crtc (look m))(i := b)\<rparr>)"
    and attr_write: "\<exists>x m'. inPortB P 0x3DA m = (x, m') \<and> look m' = look m \<and>
      look (outPortB P 0x3C0 b (outPortB P 0x3C0 i m')) = (look m)\<lparr>v_attr := (v_attr (look m))(i := b)\<rparr> \<and>
      look (outPortB P 0x3C0 0x20 m') = look m"
    and poke_font: "font_access (look m) \<Longrightarrow> 0xA0000 \<le> a \<Longrightarrow> a < 0xB0000 \<Longrightarrow>
      look (poke a b m) = (look m)\<lparr>plane2 := (plane2 (look m))(unat (a - 0xA0000) := b)\<rparr>"

text \<open>A table of registers is loaded, if every write has its effect.\<close>

lemma load_regs_table:
  assumes step: "\<And>i m. i < length vs \<Longrightarrow> ok i m \<Longrightarrow>
      ok (i + 1) (wr (of_nat i) (vs ! i) m) \<and> get (wr (of_nat i) (vs ! i) m) = (get m)(of_nat i := vs ! i)"
    and len: "length vs \<le> 256"
  shows "ok k m \<Longrightarrow> k + n = length vs \<Longrightarrow> \<exists>m'. load_regs wr vs k n m = ret m' \<and> ok (k + n) m' \<and>
    get m' = (\<lambda>j :: u8. if k \<le> unat j \<and> unat j < k + n then vs ! unat j else get m j)"
proof (induction n arbitrary: k m)
  case (Suc n)
  let ?m = "wr (of_nat k) (vs ! k) m"
  have k: "k < length vs" using Suc.prems(2) by simp
  have s: "ok (k + 1) ?m" "get ?m = (get m)(of_nat k := vs ! k)" using step [OF k Suc.prems(1)] by simp_all
  obtain m' where m': "load_regs wr vs (k + 1) n ?m = ret m'" "ok (k + 1 + n) m'"
    "get m' = (\<lambda>j. if k + 1 \<le> unat j \<and> unat j < k + 1 + n then vs ! unat j else get ?m j)"
    using Suc.IH [OF s(1)] Suc.prems(2) by auto
  have "get m' = (\<lambda>j. if k \<le> unat j \<and> unat j < k + Suc n then vs ! unat j else get m j)"
  proof
    fix j :: u8
    have u: "unat (of_nat k :: u8) = k" using k len by (simp add: unsigned_of_nat take_bit_nat_eq_self)
    consider "unat j = k" | "unat j \<noteq> k" by blast
    then show "get m' j = (if k \<le> unat j \<and> unat j < k + Suc n then vs ! unat j else get m j)"
    proof cases
      case 1
      then have "j = of_nat k" by (metis u word_unat_eq_iff)
      then show ?thesis using u by (simp add: m'(3) s(2))
    next
      case 2
      then have "j \<noteq> of_nat k" using u by metis
      then show ?thesis using 2 by (auto simp: m'(3) s(2))
    qed
  qed
  then show ?case using m'(1,2) k by simp
qed (auto simp: fun_eq_iff)

definition table :: "u8 list \<Rightarrow> (u8 \<Rightarrow> u8) \<Rightarrow> u8 \<Rightarrow> u8" where
  "table vs f = (\<lambda>j. if unat j < length vs then vs ! unat j else f j)"

lemma load_regs_all:
  assumes "\<And>i m. i < length vs \<Longrightarrow> ok i m \<Longrightarrow>
      ok (i + 1) (wr (of_nat i) (vs ! i) m) \<and> get (wr (of_nat i) (vs ! i) m) = (get m)(of_nat i := vs ! i)"
    and "length vs = n" "n \<le> 256" "ok 0 m"
  obtains m' where "load_regs wr vs 0 n m = ret m'" "ok n m'" "get m' = table vs (get m)"
  using load_regs_table [where ok = ok and wr = wr and get = get and vs = vs and k = 0 and n = n and m = m] assms
  by (auto simp: table_def)

text \<open>The loading of a font is a sequence of stores at consecutive addresses.\<close>

fun poke_all :: "(u32 \<Rightarrow> u8 \<Rightarrow> 'm \<Rightarrow> 'm) \<Rightarrow> u32 \<Rightarrow> u8 list \<Rightarrow> 'm \<Rightarrow> 'm" where
  "poke_all poke a [] m = m"
| "poke_all poke a (b # bs) m = poke_all poke (a + 1) bs (poke a b m)"

lemma poke_all_append:
  "poke_all poke a (xs @ ys) m = poke_all poke (a + of_nat (length xs)) ys (poke_all poke a xs m)"
  by (induction poke a xs m rule: poke_all.induct) (simp_all add: ac_simps)

lemma copy_scan_poke:
  "k + n \<le> length font \<Longrightarrow> copy_scan poke font k a n m = ret (poke_all poke a (take n (drop k font)) m)"
proof (induction n arbitrary: k a m)
  case (Suc n)
  then have "drop k font = font ! k # drop (k + 1) font" by (simp add: Cons_nth_drop_Suc)
  then show ?case using Suc by simp
qed simp

lemma pad_scan_poke: "pad_scan poke a n m = poke_all poke a (replicate n 0) m"
  by (induction n arbitrary: a m) simp_all

text \<open>\<open>n\<close> characters of \<open>h\<close> rows, each padded to 32 bytes.\<close>

fun glyphs :: "nat \<Rightarrow> nat \<Rightarrow> u8 list \<Rightarrow> u8 list" where
  "glyphs h 0 font = []"
| "glyphs h (Suc n) font = take h font @ replicate (32 - h) 0 @ glyphs h n (drop h font)"

lemma load_chars_poke:
  "k + h * n \<le> length font \<Longrightarrow>
     load_chars poke font h k a n m = ret (poke_all poke a (glyphs h n (drop k font)) m)"
proof (induction n arbitrary: k a m)
  case (Suc n)
  have "copy_scan poke font k a h m = ret (poke_all poke a (take h (drop k font)) m)"
    using Suc.prems by (intro copy_scan_poke) simp
  moreover have "length (take h (drop k font)) = h" using Suc.prems by simp
  ultimately show ?case
    using Suc.IH [of "k + h"] Suc.prems
    by (simp add: pad_scan_poke poke_all_append add.assoc add.commute [of h k])
qed simp

lemma length_glyphs: "h \<le> 32 \<Longrightarrow> h * n \<le> length font \<Longrightarrow> length (glyphs h n font) = 32 * n"
  by (induction h n font rule: glyphs.induct) simp_all

lemma nth_glyphs:
  "h \<le> 32 \<Longrightarrow> h * n \<le> length font \<Longrightarrow> c < n \<Longrightarrow> r < 32 \<Longrightarrow>
     glyphs h n font ! (32 * c + r) = (if r < h then font ! (h * c + r) else 0)"
proof (induction h n font arbitrary: c rule: glyphs.induct)
  case (2 h n font)
  show ?case
  proof (cases c)
    case 0
    then show ?thesis using 2 by (auto simp: nth_append)
  next
    case (Suc c')
    define xs where "xs = take h font @ replicate (32 - h) 0"
    have xs: "length xs = 32" using 2 by (simp add: xs_def)
    have "glyphs h (Suc n) font = xs @ glyphs h n (drop h font)" by (simp add: xs_def)
    moreover have "32 * c + r = length xs + (32 * c' + r)" using Suc xs by simp
    ultimately have "glyphs h (Suc n) font ! (32 * c + r) = glyphs h n (drop h font) ! (32 * c' + r)"
      by (simp only: nth_append_length_plus)
    then show ?thesis using 2 Suc by (simp add: add.assoc)
  qed
qed simp

definition overlay :: "nat \<Rightarrow> u8 list \<Rightarrow> (nat \<Rightarrow> u8) \<Rightarrow> nat \<Rightarrow> u8" where
  "overlay k bs f = (\<lambda>j. if k \<le> j \<and> j < k + length bs then bs ! (j - k) else f j)"

lemma overlay_Nil: "overlay k [] f = f"
  by (auto simp: overlay_def fun_eq_iff)

lemma overlay_Cons: "overlay k (b # bs) f = overlay (Suc k) bs (f(k := b))"
  by (auto simp: overlay_def fun_eq_iff nth_Cons')

context vga_adapter
begin

lemma load_seq:
  assumes "length vs = 5"
  obtains m' where "load_regs (VGAWSR P) vs 0 5 m = ret m'" "look m' = (look m)\<lparr>v_seq := table vs (v_seq (look m))\<rparr>"
proof (rule load_regs_all [where ok = "\<lambda>_ x. \<exists>f. look x = (look m)\<lparr>v_seq := f\<rparr>" and get = "\<lambda>x. v_seq (look x)"
      and wr = "VGAWSR P" and vs = vs and n = 5 and m = m])
  fix m' assume "load_regs (VGAWSR P) vs 0 5 m = ret m'" "\<exists>f. look m' = (look m)\<lparr>v_seq := f\<rparr>"
    "v_seq (look m') = table vs (v_seq (look m))"
  then show thesis using that by auto
qed (use assms in \<open>auto simp: VGAWSR_def seq_write intro: exI [of _ "v_seq (look m)"]\<close>)

lemma load_gc:
  assumes "length vs = 9"
  obtains m' where "load_regs (VGAWGRAPH P) vs 0 9 m = ret m'" "look m' = (look m)\<lparr>v_gc := table vs (v_gc (look m))\<rparr>"
proof (rule load_regs_all [where ok = "\<lambda>_ x. \<exists>f. look x = (look m)\<lparr>v_gc := f\<rparr>" and get = "\<lambda>x. v_gc (look x)"
      and wr = "VGAWGRAPH P" and vs = vs and n = 9 and m = m])
  fix m' assume "load_regs (VGAWGRAPH P) vs 0 9 m = ret m'" "\<exists>f. look m' = (look m)\<lparr>v_gc := f\<rparr>"
    "v_gc (look m') = table vs (v_gc (look m))"
  then show thesis using that by auto
qed (use assms in \<open>auto simp: VGAWGRAPH_def gc_write intro: exI [of _ "v_gc (look m)"]\<close>)

lemma attr_step: "look (VGAWATTR P i b m) = (look m)\<lparr>v_attr := (v_attr (look m))(i := b)\<rparr>"
  using attr_write [of m b i] by (auto simp: VGAWATTR_def)

lemma load_attr:
  assumes "length vs = 21"
  obtains m' where "load_regs (VGAWATTR P) vs 0 21 m = ret m'" "look m' = (look m)\<lparr>v_attr := table vs (v_attr (look m))\<rparr>"
proof (rule load_regs_all [where ok = "\<lambda>_ x. \<exists>f. look x = (look m)\<lparr>v_attr := f\<rparr>" and get = "\<lambda>x. v_attr (look x)"
      and wr = "VGAWATTR P" and vs = vs and n = 21 and m = m])
  fix m' assume "load_regs (VGAWATTR P) vs 0 21 m = ret m'" "\<exists>f. look m' = (look m)\<lparr>v_attr := f\<rparr>"
    "v_attr (look m') = table vs (v_attr (look m))"
  then show thesis using that by auto
qed (use assms in \<open>auto simp: attr_step intro: exI [of _ "v_attr (look m)"]\<close>)

lemma unlock_step:
  "look (unlock_crtc P m) = (look m)\<lparr>v_crtc := (v_crtc (look m))(0x11 := v_crtc (look m) 0x11 AND 0x7F)\<rparr>"
proof -
  obtain m1 where "inPortB P 0x3D5 (outPortB P 0x3D4 0x11 m) = (v_crtc (look m) 0x11, m1)" "look m1 = look m"
    using crtc_read [of "0x11" m] by blast
  then show ?thesis by (simp add: unlock_crtc_def VGARCRTC_def VGAWCRTC_def crtc_write)
qed

lemma load_crtc:
  assumes "length vs = 25" "unlocked (look m)"
  obtains m' where "load_regs (VGAWCRTC P) vs 0 25 m = ret m'" "look m' = (look m)\<lparr>v_crtc := table vs (v_crtc (look m))\<rparr>"
proof (rule load_regs_all [where ok = "\<lambda>i x. (\<exists>f. look x = (look m)\<lparr>v_crtc := f\<rparr>) \<and> (i \<le> 0x11 \<longrightarrow> unlocked (look x))"
      and get = "\<lambda>x. v_crtc (look x)" and wr = "VGAWCRTC P" and vs = vs and n = 25 and m = m])
  fix m' assume "load_regs (VGAWCRTC P) vs 0 25 m = ret m'"
    "(\<exists>f. look m' = (look m)\<lparr>v_crtc := f\<rparr>) \<and> (25 \<le> (0x11 :: nat) \<longrightarrow> unlocked (look m'))"
    "v_crtc (look m') = table vs (v_crtc (look m))"
  then show thesis using that by auto
next
  fix i x
  assume i: "i < length vs" and ok: "(\<exists>f. look x = (look m)\<lparr>v_crtc := f\<rparr>) \<and> (i \<le> 0x11 \<longrightarrow> unlocked (look x))"
  have u: "unat (of_nat i :: u8) = i" using i assms(1) by (simp add: unsigned_of_nat take_bit_nat_eq_self)
  have "7 < (of_nat i :: u8) \<or> unlocked (look x)" using ok u by (auto simp: word_less_nat_alt)
  note w = crtc_write [OF this, folded VGAWCRTC_def, of "vs ! i"]
  have "unlocked (look (VGAWCRTC P (of_nat i) (vs ! i) x))" if "i + 1 \<le> 0x11"
  proof -
    have "(of_nat i :: u8) \<noteq> 0x11" using u that by auto
    then show ?thesis using ok that unfolding w by (simp add: unlocked_def)
  qed
  then show "((\<exists>f. look (VGAWCRTC P (of_nat i) (vs ! i) x) = (look m)\<lparr>v_crtc := f\<rparr>) \<and>
      (i + 1 \<le> 0x11 \<longrightarrow> unlocked (look (VGAWCRTC P (of_nat i) (vs ! i) x)))) \<and>
      v_crtc (look (VGAWCRTC P (of_nat i) (vs ! i) x)) = (v_crtc (look x))(of_nat i := vs ! i)"
    using ok unfolding w by auto
qed (use assms in \<open>auto intro: exI [of _ "v_crtc (look m)"]\<close>)

lemma look_pairs:
  "look (out_all P ((0x3C4, i) # (0x3C5, b) # ws) m) = look (out_all P ws (VGAWSR P i b m))"
  "look (out_all P ((0x3CE, i) # (0x3CF, b) # ws) m) = look (out_all P ws (VGAWGRAPH P i b m))"
  "look (out_all P ((0x3D4, i) # (0x3D5, b) # ws) m) = look (out_all P ws (VGAWCRTC P i b m))"
  by (simp_all add: VGAWSR_def VGAWGRAPH_def VGAWCRTC_def)

lemma look_writes:
  "look (VGAWSR P i b m) = (look m)\<lparr>v_seq := (v_seq (look m))(i := b)\<rparr>"
  "look (VGAWGRAPH P i b m) = (look m)\<lparr>v_gc := (v_gc (look m))(i := b)\<rparr>"
  "7 < i \<Longrightarrow> look (VGAWCRTC P i b m) = (look m)\<lparr>v_crtc := (v_crtc (look m))(i := b)\<rparr>"
  by (simp_all add: VGAWSR_def VGAWGRAPH_def VGAWCRTC_def seq_write gc_write crtc_write)

lemma enable_view:
  "look (VGAEFA P m) = (look m)\<lparr>v_seq := (v_seq (look m))(2 := 4, 4 := 6),
     v_gc := (v_gc (look m))(4 := 2, 5 := 0, 6 := 0)\<rparr>"
  by (simp add: VGAEFA_def look_pairs look_writes del: out_all.simps(2))

lemma disable_view:
  "look (VGADFA P m) = (look m)\<lparr>v_seq := (v_seq (look m))(2 := 3, 4 := 2),
     v_gc := (v_gc (look m))(4 := 0, 5 := 0x10, 6 := 0x0E)\<rparr>"
  by (simp add: VGADFA_def look_pairs look_writes del: out_all.simps(2))

text \<open>Stores in font access mode fill plane 2.\<close>

lemma poke_all_view:
  "font_access (look m) \<Longrightarrow> k + length bs \<le> 0x10000 \<Longrightarrow>
     look (poke_all poke (0xA0000 + of_nat k) bs m) = (look m)\<lparr>plane2 := overlay k bs (plane2 (look m))\<rparr>"
proof (induction bs arbitrary: k m)
  case (Cons b bs)
  have u: "unat (of_nat k :: u32) = k" using Cons.prems(2) by (simp add: unsigned_of_nat take_bit_nat_eq_self)
  then have "unat (0xA0000 + of_nat k :: u32) = 0xA0000 + k"
    using Cons.prems(2) by (subst unat_plus_if') simp
  then have "0xA0000 \<le> (0xA0000 + of_nat k :: u32)" "(0xA0000 + of_nat k :: u32) < 0xB0000"
    using Cons.prems(2) by (simp_all add: word_le_nat_alt word_less_nat_alt)
  then have v: "look (poke (0xA0000 + of_nat k) b m) = (look m)\<lparr>plane2 := (plane2 (look m))(k := b)\<rparr>"
    using poke_font [OF Cons.prems(1)] u by simp
  have "font_access (look (poke (0xA0000 + of_nat k) b m))"
    using Cons.prems(1) unfolding v by (simp add: font_access_def)
  note IH = Cons.IH [OF this, of "k + 1"]
  show ?case using IH Cons.prems(2) unfolding v by (simp add: ac_simps overlay_Cons fun_upd_def)
qed (simp add: overlay_Nil)

lemma load_font:
  assumes "plain_writes (look m)" "length font = 256 * unat height" "unat height \<le> 32"
  obtains m' where "VGALF P poke font height m = ret m'"
    "look m' = (look m)\<lparr>v_seq := (v_seq (look m))(2 := 3, 4 := 2),
       v_gc := (v_gc (look m))(4 := 0, 5 := 0x10, 6 := 0x0E),
       v_crtc := (v_crtc (look m))(9 := (v_crtc (look m) 9 AND 0xE0) OR ucast (height - 1), 0x0A := 0x20),
       plane2 := overlay 0 (glyphs (unat height) 256 font) (plane2 (look m))\<rparr>"
proof -
  define m1 where "m1 = VGAEFA P m"
  have m1: "font_access (look m1)"
    using assms(1) by (simp add: m1_def enable_view font_access_def plain_writes_def)
  have len: "length (glyphs (unat height) 256 font) = 32 * 256"
    using assms(2,3) by (subst length_glyphs) simp_all
  define m2 where "m2 = poke_all poke 0xA0000 (glyphs (unat height) 256 font) m1"
  have l: "load_chars poke font (unat height) 0 0xA0000 256 m1 = ret m2"
    using load_chars_poke [of 0 "unat height" 256 font] assms(2) by (simp add: m2_def)
  have v2: "look m2 = (look m1)\<lparr>plane2 := overlay 0 (glyphs (unat height) 256 font) (plane2 (look m1))\<rparr>"
    using poke_all_view [OF m1, of 0 "glyphs (unat height) 256 font"] len by (simp add: m2_def)
  define b where "b = (v_crtc (look (VGADFA P m2)) 9 AND 0xE0) OR ucast (height - 1)"
  obtain m3 where m3: "inPortB P 0x3D5 (outPortB P 0x3D4 0x09 (VGADFA P m2)) = (v_crtc (look (VGADFA P m2)) 9, m3)"
    and v3: "look (outPortB P 0x3D5 b m3) = (look (VGADFA P m2))\<lparr>v_crtc := (v_crtc (look (VGADFA P m2)))(9 := b)\<rparr>"
    using crtc_read [of 9 "VGADFA P m2" b] by auto
  define m4 where "m4 = outPortB P 0x3D5 b m3"
  have v4: "look m4 = (look (VGADFA P m2))\<lparr>v_crtc := (v_crtc (look (VGADFA P m2)))(9 := b)\<rparr>"
    unfolding m4_def by (rule v3)
  have "VGALF P poke font height m = ret (VGAWCRTC P 0x0A 0x20 m4)"
    using l m3(1) unfolding VGALF_def VGAEFA_def [symmetric] VGADFA_def [symmetric] m1_def [symmetric]
    by (simp add: VGAWCRTC_def Let_def m4_def b_def)
  moreover have "b = (v_crtc (look m) 9 AND 0xE0) OR ucast (height - 1)"
    by (simp add: b_def disable_view v2 m1_def enable_view)
  then have "look (VGAWCRTC P 0x0A 0x20 m4) = (look m)\<lparr>v_seq := (v_seq (look m))(2 := 3, 4 := 2),
       v_gc := (v_gc (look m))(4 := 0, 5 := 0x10, 6 := 0x0E),
       v_crtc := (v_crtc (look m))(9 := (v_crtc (look m) 9 AND 0xE0) OR ucast (height - 1), 0x0A := 0x20),
       plane2 := overlay 0 (glyphs (unat height) 256 font) (plane2 (look m))\<rparr>"
    by (intro vga_view.equality) (auto simp: look_writes v4 disable_view v2 m1_def enable_view fun_eq_iff)
  ultimately show thesis by (rule that)
qed

lemma load_mode:
  assumes "length (SR r) = 5" "length (CRTCR r) = 25" "length (GCR r) = 9" "length (ACR r) = 21"
  obtains m' where "VGALOADREG P r m = ret m'"
    "look m' = \<lparr>v_misc = r_misc r, v_seq = table (SR r) (v_seq (look m)), v_crtc = table (CRTCR r) (v_crtc (look m)),
       v_gc = table (GCR r) (v_gc (look m)), v_attr = table (ACR r) (v_attr (look m)), plane2 = plane2 (look m)\<rparr>"
proof -
  obtain m1 where m1: "load_regs (VGAWSR P) (SR r) 0 5 (VGAWmisc P (r_misc r) m) = ret m1"
    and v1: "look m1 = (look (VGAWmisc P (r_misc r) m))\<lparr>v_seq := table (SR r) (v_seq (look (VGAWmisc P (r_misc r) m)))\<rparr>"
    by (rule load_seq [OF assms(1)])
  define mu where "mu = unlock_crtc P (unlock_crtc P m1)"
  have u: "look mu = (look m1)\<lparr>v_crtc := (v_crtc (look m1))(0x11 := v_crtc (look m1) 0x11 AND 0x7F)\<rparr>"
    by (simp add: mu_def unlock_step and.assoc)
  have "unlocked (look mu)" unfolding u by (simp add: unlocked_def and.assoc)
  then obtain m2 where m2: "load_regs (VGAWCRTC P) (CRTCR r) 0 25 mu = ret m2"
    and v2: "look m2 = (look mu)\<lparr>v_crtc := table (CRTCR r) (v_crtc (look mu))\<rparr>"
    by (rule load_crtc [OF assms(2)])
  obtain m3 where m3: "load_regs (VGAWGRAPH P) (GCR r) 0 9 m2 = ret m3"
    and v3: "look m3 = (look m2)\<lparr>v_gc := table (GCR r) (v_gc (look m2))\<rparr>"
    by (rule load_gc [OF assms(3)])
  obtain m4 where m4: "load_regs (VGAWATTR P) (ACR r) 0 21 m3 = ret m4"
    and v4: "look m4 = (look m3)\<lparr>v_attr := table (ACR r) (v_attr (look m3))\<rparr>"
    by (rule load_attr [OF assms(4)])
  obtain x m5 where m5: "inPortB P 0x3DA m4 = (x, m5)" "look (outPortB P 0x3C0 0x20 m5) = look m4"
    using attr_write [of m4] by blast
  have "VGALOADREG P r m = ret (outPortB P 0x3C0 0x20 m5)"
    by (simp add: VGALOADREG_def m1 m2 m3 m4 m5(1) mu_def [symmetric])
  moreover have "table (CRTCR r) ((v_crtc (look m))(0x11 := b)) = table (CRTCR r) (v_crtc (look m))" for b
    using assms(2) by (auto simp: table_def fun_eq_iff)
  then have "look m4 = \<lparr>v_misc = r_misc r, v_seq = table (SR r) (v_seq (look m)), v_crtc = table (CRTCR r) (v_crtc (look m)),
       v_gc = table (GCR r) (v_gc (look m)), v_attr = table (ACR r) (v_attr (look m)), plane2 = plane2 (look m)\<rparr>"
    by (intro vga_view.equality) (simp_all add: v4 v3 v2 u v1 VGAWmisc_def misc_write)
  ultimately show thesis using that m5(2) by simp
qed

end

section \<open>A concrete adapter\<close>

text \<open>
  The adapter with its index registers, the flip-flop of the attribute controller and the
  protection of the first CRT registers.
\<close>

record vga_hw =
  hw_view :: vga_view
  seq_index :: u8
  gc_index :: u8
  crtc_index :: u8
  attr_index :: u8
  attr_data :: bool

definition vga_out :: "u16 \<Rightarrow> u8 \<Rightarrow> vga_hw \<Rightarrow> vga_hw" where
  "vga_out p b m =
     (let w = hw_view m
      in if p = 0x3C2 then m\<lparr>hw_view := w\<lparr>v_misc := b\<rparr>\<rparr>
         else if p = 0x3C4 then m\<lparr>seq_index := b\<rparr>
         else if p = 0x3C5 then m\<lparr>hw_view := w\<lparr>v_seq := (v_seq w)(seq_index m := b)\<rparr>\<rparr>
         else if p = 0x3CE then m\<lparr>gc_index := b\<rparr>
         else if p = 0x3CF then m\<lparr>hw_view := w\<lparr>v_gc := (v_gc w)(gc_index m := b)\<rparr>\<rparr>
         else if p = 0x3D4 then m\<lparr>crtc_index := b\<rparr>
         else if p = 0x3D5 then
           (if 7 < crtc_index m \<or> unlocked w then m\<lparr>hw_view := w\<lparr>v_crtc := (v_crtc w)(crtc_index m := b)\<rparr>\<rparr> else m)
         else if p = 0x3C0 then
           (if attr_data m then m\<lparr>hw_view := w\<lparr>v_attr := (v_attr w)(attr_index m := b)\<rparr>, attr_data := False\<rparr>
            else m\<lparr>attr_index := b, attr_data := True\<rparr>)
         else m)"

definition vga_in :: "u16 \<Rightarrow> vga_hw \<Rightarrow> u8 \<times> vga_hw" where
  "vga_in p m =
     (if p = 0x3D5 then (v_crtc (hw_view m) (crtc_index m), m)
      else if p = 0x3DA then (0, m\<lparr>attr_data := False\<rparr>)
      else (0, m))"

definition vga_ports :: "vga_hw ports" where
  "vga_ports = \<lparr>inPortB = vga_in, outPortB = vga_out, inPortW = (\<lambda>p m. (0, m)), outPortW = (\<lambda>p b m. m)\<rparr>"

definition vga_poke :: "u32 \<Rightarrow> u8 \<Rightarrow> vga_hw \<Rightarrow> vga_hw" where
  "vga_poke a b m =
     (let w = hw_view m
      in if font_access w \<and> 0xA0000 \<le> a \<and> a < 0xB0000
         then m\<lparr>hw_view := w\<lparr>plane2 := (plane2 w)(unat (a - 0xA0000) := b)\<rparr>\<rparr> else m)"

interpretation adapter: vga_adapter vga_ports vga_poke hw_view
  by unfold_locales (auto simp: vga_ports_def vga_out_def vga_in_def vga_poke_def Let_def)

section \<open>Properties\<close>

lemma table_nth: "i < length vs \<Longrightarrow> length vs \<le> 256 \<Longrightarrow> table vs f (of_nat i) = vs ! i"
  by (simp add: table_def unsigned_of_nat take_bit_nat_eq_self)

lemma overlay_nth: "j < length bs \<Longrightarrow> overlay 0 bs f j = bs ! j"
  by (simp add: overlay_def)

text \<open>
  Property C35: the 80x50 mode. On an adapter with a locked or unlocked CRT controller, \<^verbatim>\<open>VGASM\<close>
  leaves every register of the table \<^verbatim>\<open>vga_regs_80x50\<close> at its value (the cursor start register
  excepted, which switches the cursor off), the 8x8 font in plane 2, each character padded to
  32 rows, and a blank screen of 80 by 50 cells with the cursor in its corner.
\<close>

theorem mode_80x50_set:
  assumes "vga_adapter P poke look" and "4000 \<le> length (vga c)"
  shows "\<exists>c' m'. VGASM P poke VGA_MODE_80X50 (c, m) = ret (c', m') \<and> v_misc (look m') = 0x67 \<and>
    (\<forall>i < 5. v_seq (look m') (of_nat i) = SR vga_regs_80x50 ! i) \<and>
    (\<forall>i < 25. v_crtc (look m') (of_nat i) = (if i = 10 then 0x20 else CRTCR vga_regs_80x50 ! i)) \<and>
    (\<forall>i < 9. v_gc (look m') (of_nat i) = GCR vga_regs_80x50 ! i) \<and>
    (\<forall>i < 21. v_attr (look m') (of_nat i) = ACR vga_regs_80x50 ! i) \<and>
    (\<forall>ch < 256. \<forall>row < 32. plane2 (look m') (32 * ch + row) =
      (if row < 8 then IBM_VGA_8x8_bin ! (8 * ch + row) else 0)) \<and>
    console_ok c' \<and> VGAWidth c' = 80 \<and> VGAHeight c' = 50 \<and> line c' = 0 \<and> column c' = 0 \<and>
    take 4000 (vga c') = replicate 4000 (0x20 OR currColor c)"
proof -
  let ?r = "vga_regs_80x50"
  have len: "length (SR ?r) = 5" "length (CRTCR ?r) = 25" "length (GCR ?r) = 9" "length (ACR ?r) = 21"
    by (simp_all add: vga_regs_80x50_def)
  obtain m1 where m1: "VGALOADREG P ?r m = ret m1"
    and v1: "look m1 = \<lparr>v_misc = r_misc ?r, v_seq = table (SR ?r) (v_seq (look m)), v_crtc = table (CRTCR ?r) (v_crtc (look m)),
       v_gc = table (GCR ?r) (v_gc (look m)), v_attr = table (ACR ?r) (v_attr (look m)), plane2 = plane2 (look m)\<rparr>"
    by (rule vga_adapter.load_mode [OF assms(1) len])
  define m2 where "m2 = VGAEFA P m1"
  note v2 = vga_adapter.enable_view [OF assms(1), of m1, folded m2_def]
  have plain: "plain_writes (look m2)"
    unfolding v2 v1 by (simp add: plain_writes_def table_def vga_regs_80x50_def)
  have font: "length IBM_VGA_8x8_bin = 256 * unat (8 :: u32)" "unat (8 :: u32) \<le> 32"
    using length_font by (simp_all add: IBM_VGA_8x8_bin_len_def)
  obtain m3 where m3: "VGALF P poke IBM_VGA_8x8_bin 8 m2 = ret m3"
    and v3: "look m3 = (look m2)\<lparr>v_seq := (v_seq (look m2))(2 := 3, 4 := 2),
       v_gc := (v_gc (look m2))(4 := 0, 5 := 0x10, 6 := 0x0E),
       v_crtc := (v_crtc (look m2))(9 := (v_crtc (look m2) 9 AND 0xE0) OR ucast ((8 :: u32) - 1), 0x0A := 0x20),
       plane2 := overlay 0 (glyphs (unat (8 :: u32)) 256 IBM_VGA_8x8_bin) (plane2 (look m2))\<rparr>"
    by (rule vga_adapter.load_font [OF assms(1) plain font])
  define m4 where "m4 = VGADFA P m3"
  note v4 = vga_adapter.disable_view [OF assms(1), of m3, folded m4_def]
  define c1 where "c1 = c\<lparr>VGAWidth := 80, VGAHeight := 50\<rparr>"
  have reset: "Reset c1 = ret (c1\<lparr>vga := splice (vga c) 0 (replicate 4000 (0x20 OR currColor c)), column := 0, line := 0\<rparr>)"
    using assms(2) by (simp add: Reset_def c1_def fill_cells_splice)
  have code: "VGASM P poke VGA_MODE_80X50 (c, m) = ret (c1\<lparr>vga := splice (vga c) 0 (replicate 4000 (0x20 OR currColor c)),
      column := 0, line := 0\<rparr>, m4)"
    by (simp add: VGASM_def m1 m2_def [symmetric] VGALF8X8F_def m3 m4_def [symmetric] c1_def [symmetric] reset Let_def)
  have "v_seq (look m4) = table (SR ?r) (v_seq (look m))"
    unfolding v4 v3 v2 v1 by (auto simp: fun_eq_iff table_def vga_regs_80x50_def)
  then have seq: "v_seq (look m4) (of_nat i) = SR ?r ! i" if "i < 5" for i
    using table_nth [of i "SR ?r"] that len by simp
  have "v_crtc (look m4) = (table (CRTCR ?r) (v_crtc (look m)))(0x0A := 0x20)"
    unfolding v4 v3 v2 v1 by (auto simp: fun_eq_iff table_def vga_regs_80x50_def)
  then have crtc: "v_crtc (look m4) (of_nat i) = (if i = 10 then 0x20 else CRTCR ?r ! i)" if "i < 25" for i
    using table_nth [of i "CRTCR ?r"] that len by (auto simp: word_unat_eq_iff unsigned_of_nat take_bit_nat_eq_self)
  have "v_gc (look m4) = table (GCR ?r) (v_gc (look m))"
    unfolding v4 v3 v2 v1 by (auto simp: fun_eq_iff table_def vga_regs_80x50_def)
  then have gc: "v_gc (look m4) (of_nat i) = GCR ?r ! i" if "i < 9" for i
    using table_nth [of i "GCR ?r"] that len by simp
  have attr: "v_attr (look m4) (of_nat i) = ACR ?r ! i" if "i < 21" for i
    unfolding v4 v3 v2 v1 using table_nth [of i "ACR ?r"] that len by simp
  have glyph: "plane2 (look m4) (32 * ch + row) = (if row < 8 then IBM_VGA_8x8_bin ! (8 * ch + row) else 0)"
    if "ch < 256" "row < 32" for ch row
  proof -
    have "length (glyphs 8 256 IBM_VGA_8x8_bin) = 32 * 256" using font by (intro length_glyphs) simp_all
    then show ?thesis
      unfolding v4 v3 using nth_glyphs [of 8 256 IBM_VGA_8x8_bin ch row] font that by (simp add: overlay_nth)
  qed
  have "v_misc (look m4) = 0x67" unfolding v4 v3 v2 v1 by (simp add: vga_regs_80x50_def)
  moreover have "console_ok (c1\<lparr>vga := splice (vga c) 0 (replicate 4000 (0x20 OR currColor c)), column := 0, line := 0\<rparr>)"
    using assms(2) by (simp add: console_ok_def c1_def)
  ultimately show ?thesis
    using seq crtc gc attr glyph assms(2) unfolding code by (auto simp: c1_def splice_def)
qed

definition locked_adapter :: vga_hw where
  "locked_adapter = \<lparr>hw_view = \<lparr>v_misc = 0, v_seq = (\<lambda>_. 0), v_crtc = (\<lambda>_. 0xFF), v_gc = (\<lambda>_. 0x55),
     v_attr = (\<lambda>_. 0), plane2 = (\<lambda>_. 0xAA)\<rparr>, seq_index = 0, gc_index = 0, crtc_index = 0, attr_index = 0,
     attr_data = True\<rparr>"

theorem mode_80x50_set_witness:
  "\<exists>c' m'. VGASM vga_ports vga_poke VGA_MODE_80X50 (blank_screen, locked_adapter) = ret (c', m') \<and>
    v_crtc (hw_view m') 1 = 0x4F \<and> plane2 (hw_view m') (32 * 65) = 0x30 \<and> console_ok c'"
proof -
  have "4000 \<le> length (vga blank_screen)" by (simp add: blank_screen_def)
  from mode_80x50_set [OF adapter.vga_adapter_axioms this, of locked_adapter]
  obtain c' m' where r: "VGASM vga_ports vga_poke VGA_MODE_80X50 (blank_screen, locked_adapter) = ret (c', m')"
    and crtc: "\<forall>i < 25. v_crtc (hw_view m') (of_nat i) = (if i = 10 then 0x20 else CRTCR vga_regs_80x50 ! i)"
    and font: "\<forall>ch < 256. \<forall>row < 32. plane2 (hw_view m') (32 * ch + row) = (if row < 8 then IBM_VGA_8x8_bin ! (8 * ch + row) else 0)"
    and ok: "console_ok c'" by blast
  have "v_crtc (hw_view m') 1 = 0x4F" using crtc [rule_format, of 1] by (simp add: vga_regs_80x50_def)
  moreover have "plane2 (hw_view m') (32 * 65) = IBM_VGA_8x8_bin ! (8 * 65)" using font [rule_format, of 65 0] by simp
  moreover have "IBM_VGA_8x8_bin ! (8 * 65) = font_block_2 ! (520 - 384)"
    by (simp add: IBM_VGA_8x8_bin_def nth_append length_font_blocks)
  moreover have "font_block_2 ! (520 - 384) = 0x30" by (simp add: font_block_2_def)
  ultimately show ?thesis using r ok by auto
qed

end
