(* ===== verification/Exec.thy ===== *)
theory Exec
  imports Fat Memory Console
begin

unbundle bit_operations_syntax

text \<open>
  The program loader, \<^verbatim>\<open>drivers/device/exec.c\<close>: read the file, map its pages one to one, copy it
  to the load address and call it. The program is data of the disk, so what the call does is a
  parameter.
\<close>

abbreviation LOAD_ADDRESS :: u32 where "LOAD_ADDRESS \<equiv> 0x00300000"
abbreviation MAX_PROGRAM_SIZE :: u32 where "MAX_PROGRAM_SIZE \<equiv> 64 * 1024"

text \<open>\<open>program_buf\<close> is the static buffer; the file system, the screen and the memory are shared with the rest of the kernel.\<close>

record 'd exec_state =
  ex_fs :: "'d fat_state"
  ex_con :: console
  ex_mem :: mem_state
  program_buf :: "u8 list"

text \<open>A byte store: the other bytes of its word stay.\<close>

definition put_byte :: "u32 \<Rightarrow> nat \<Rightarrow> u8 \<Rightarrow> u32" where
  "put_byte w k b = (w AND NOT (push_bit (8 * k) 0xFF)) OR push_bit (8 * k) (ucast b)"

definition vwrite_byte :: "u32 \<Rightarrow> u8 \<Rightarrow> mem_state \<Rightarrow> mem_state run" where
  "vwrite_byte v b st =
     (let a = v AND NOT 3
      in bind_run (vread a st) (\<lambda>w. vwrite a (put_byte w (unat (v AND 3)) b) st))"

fun map_pages :: "u32 \<Rightarrow> nat \<Rightarrow> mem_state \<Rightarrow> mem_state run" where
  "map_pages p 0 st = ret st"
| "map_pages p (Suc n) st =
     (let vaddr = LOAD_ADDRESS + p * 0x1000
      in bind_run (memMapPage vaddr vaddr (1 OR 2) st) (map_pages (p + 1) n))"

fun copy_program :: "u8 list \<Rightarrow> nat \<Rightarrow> nat \<Rightarrow> mem_state \<Rightarrow> mem_state run" where
  "copy_program buf i 0 st = ret st"
| "copy_program buf i (Suc n) st =
     (if i < length buf
      then bind_run (vwrite_byte (LOAD_ADDRESS + of_nat i) (buf ! i) st) (copy_program buf (i + 1) n)
      else fail OutOfBounds)"

definition exec_say :: "u8 list \<Rightarrow> 'd exec_state \<Rightarrow> 'd exec_state run" where
  "exec_say s st = bind_run (print s (ex_con st)) (\<lambda>c. ret (st\<lparr>ex_con := c\<rparr>))"

definition exec_run ::
    "'d block_io \<Rightarrow> ('d exec_state \<Rightarrow> 'd exec_state run) \<Rightarrow> u8 list \<Rightarrow> 'd exec_state \<Rightarrow>
     (int \<times> 'd exec_state) run" where
  "exec_run io program filename st =
     bind_run (fat_read io filename (program_buf st) MAX_PROGRAM_SIZE (ex_fs st)) (\<lambda>(size, buf, fs).
       let st = st\<lparr>program_buf := buf, ex_fs := fs\<rparr>
       in if size < 0 then
            bind_run (exec_say (bytes ''Program not found: '') st) (\<lambda>st.
            bind_run (exec_say filename st) (\<lambda>st.
            bind_run (exec_say [0x0D, 0x0A] st) (\<lambda>st. ret (-1, st))))
          else
            let numPages = CEIL_DIV (of_int size) 0x1000
            in bind_run (map_pages 0 (unat numPages) (ex_mem st)) (\<lambda>mem.
               bind_run (copy_program buf 0 (nat size) mem) (\<lambda>mem.
               bind_run (program (st\<lparr>ex_mem := mem\<rparr>)) (\<lambda>st. ret (0, st)))))"

end
