(* ===== verification/Shell.thy ===== *)
theory Shell
  imports Fat Console Stdio Line_Edit Rtc Devices Timer Exec
begin

unbundle bit_operations_syntax

text \<open>
  The shell, \<^verbatim>\<open>shell.c\<close>: the line buffer, the history, the parsing of a command line and all the
  commands. A C string is the list of the bytes before its NUL; a null pointer is \<open>None\<close>. The
  hardware is the device \<open>'d\<close> of the file system, reached through sector transfers and through ports.
\<close>

section \<open>State\<close>

record 'd shell_env =
  env_io :: "'d block_io"
  env_ports :: "'d ports"
  env_program :: "'d exec_state \<Rightarrow> 'd exec_state run"
  env_cpuid :: "u32 \<times> u32 \<times> u32"

abbreviation HISTORY_SIZE :: nat where "HISTORY_SIZE \<equiv> 10"
abbreviation SHELL_BUFFER_SIZE :: nat where "SHELL_BUFFER_SIZE \<equiv> 256"

record 'd shell_state =
  kern :: "'d exec_state"
  prompt_name :: "u8 list"
  history :: "u8 list list"
  history_count :: nat
  shell_buf :: "u8 list"
  shell_len :: nat
  file_buf :: "u8 list"
  ticks :: u64
  total_mem_kb :: u32

abbreviation crlf :: "u8 list" where "crlf \<equiv> [0x0D, 0x0A]"

definition OS_VER :: "u8 list" where
  "OS_VER = bytes ''MasterOS v0.6.9 '' @ [0x22] @ bytes ''OSIX'' @ [0x22]"

text \<open>Access to the screen, the file system and the hardware.\<close>

definition out :: "u8 list \<Rightarrow> 'd shell_state \<Rightarrow> 'd shell_state run" where
  "out s st = bind_run (print s (ex_con (kern st))) (\<lambda>c. ret (st\<lparr>kern := (kern st)\<lparr>ex_con := c\<rparr>\<rparr>))"

fun outs :: "u8 list list \<Rightarrow> 'd shell_state \<Rightarrow> 'd shell_state run" where
  "outs [] st = ret st"
| "outs (s # ss) st = bind_run (out s st) (outs ss)"

definition recolor :: "(console \<Rightarrow> console) \<Rightarrow> 'd shell_state \<Rightarrow> 'd shell_state" where
  "recolor f st = st\<lparr>kern := (kern st)\<lparr>ex_con := f (ex_con (kern st))\<rparr>\<rparr>"

definition on_fs ::
    "('d fat_state \<Rightarrow> ('r \<times> 'd fat_state) run) \<Rightarrow> 'd shell_state \<Rightarrow> ('r \<times> 'd shell_state) run" where
  "on_fs f st = bind_run (f (ex_fs (kern st))) (\<lambda>(r, fs). ret (r, st\<lparr>kern := (kern st)\<lparr>ex_fs := fs\<rparr>\<rparr>))"

definition hardware :: "'d shell_state \<Rightarrow> 'd" where
  "hardware st = dev (ex_fs (kern st))"

definition set_hardware :: "'d \<Rightarrow> 'd shell_state \<Rightarrow> 'd shell_state" where
  "set_hardware m st = st\<lparr>kern := (kern st)\<lparr>ex_fs := (ex_fs (kern st))\<lparr>dev := m\<rparr>\<rparr>\<rparr>"

section \<open>String helpers\<close>

fun k_strlen :: "u8 list \<Rightarrow> u32" where
  "k_strlen [] = 0"
| "k_strlen (c # s) = k_strlen s + 1"

fun shell_strcmp :: "u8 list \<Rightarrow> u8 list \<Rightarrow> int" where
  "shell_strcmp [] [] = 0"
| "shell_strcmp [] (d # b) = - sint d"
| "shell_strcmp (c # a) [] = sint c"
| "shell_strcmp (c # a) (d # b) = (if c = d then shell_strcmp a b else sint c - sint d)"

fun k_arg :: "u8 list \<Rightarrow> u8 list option" where
  "k_arg [] = None"
| "k_arg (c # s) = (if c = 0x20 then (if s = [] then None else Some s) else k_arg s)"

text \<open>Signed overflow wraps.\<close>

fun k_atoi_from :: "u32 \<Rightarrow> u8 list \<Rightarrow> u32" where
  "k_atoi_from result [] = result"
| "k_atoi_from result (c # s) =
     (if 0x30 \<le> c \<and> c \<le> 0x39 then k_atoi_from (result * 10 + ucast (c - 0x30)) s else result)"

definition k_atoi :: "u8 list option \<Rightarrow> u32 run" where
  "k_atoi s = (case s of None \<Rightarrow> fail NullPointer | Some s \<Rightarrow> ret (k_atoi_from 0 s))"

text \<open>\<open>n\<close> is the room left in the destination.\<close>

fun k_first_word :: "u8 list \<Rightarrow> nat \<Rightarrow> u8 list" where
  "k_first_word [] n = []"
| "k_first_word (c # src) n = (if c \<noteq> 0x20 \<and> 1 < n then c # k_first_word src (n - 1) else [])"

text \<open>The digits of a number, lowest first, into a buffer with \<open>room\<close> bytes left.\<close>

fun fill_uint :: "nat \<Rightarrow> u32 \<Rightarrow> u8 list run" where
  "fill_uint 0 n = (if n = 0 then ret [] else fail OutOfBounds)"
| "fill_uint (Suc room) n =
     (if n = 0 then ret []
      else bind_run (fill_uint room (n div 10)) (\<lambda>t. ret ((0x30 + ucast (n mod 10)) # t)))"

definition print_uint :: "u32 \<Rightarrow> 'd shell_state \<Rightarrow> 'd shell_state run" where
  "print_uint n st =
     (if n = 0 then out (bytes ''0'') st
      else bind_run (fill_uint 12 n) (\<lambda>tmp. outs (map (\<lambda>d. [d]) (rev tmp)) st))"

text \<open>A string in a buffer.\<close>

definition str_of :: "u8 list \<Rightarrow> u8 list run" where
  "str_of buf = (if 0 \<in> set buf then ret (cstr buf) else fail OutOfBounds)"

section \<open>Prompt and history\<close>

definition cmd_setprompt :: "u8 list option \<Rightarrow> 'd shell_state \<Rightarrow> 'd shell_state run" where
  "cmd_setprompt arg st =
     (case arg of
        None \<Rightarrow> out (bytes ''Usage: setprompt <name>'' @ crlf) st
      | Some arg \<Rightarrow> bind_run (k_strcpy (prompt_name st) 0 arg) (\<lambda>p. ret (st\<lparr>prompt_name := p\<rparr>)))"

definition colored :: "u8 \<Rightarrow> u8 list \<Rightarrow> 'd shell_state \<Rightarrow> 'd shell_state run" where
  "colored fg s st = out s (recolor (set_color fg 0) st)"

definition print_prompt :: "'d shell_state \<Rightarrow> 'd shell_state run" where
  "print_prompt st =
     (let saved = get_current_color (ex_con (kern st))
      in bind_run (str_of (prompt_name st)) (\<lambda>p.
         bind_run (colored 2 p st) (\<lambda>st.
         bind_run (colored 7 (bytes ''@'') st) (\<lambda>st.
         bind_run (colored 10 (bytes ''MasterOS'') st) (\<lambda>st.
         bind_run (colored 7 (bytes '':'') st) (\<lambda>st.
         bind_run (str_of (current_path (ex_fs (kern st)))) (\<lambda>path.
         bind_run (colored 14 path st) (\<lambda>st.
         bind_run (colored 7 (bytes ''> '') st) (\<lambda>st.
           ret (recolor (restore_color saved) st))))))))))"

text \<open>\<open>i\<close> counts down from \<^verbatim>\<open>history_count\<close>.\<close>

fun shift_history :: "nat \<Rightarrow> u8 list list \<Rightarrow> u8 list list run" where
  "shift_history 0 h = ret h"
| "shift_history (Suc i) h =
     (if Suc i < length h
      then bind_run (str_of (h ! i)) (\<lambda>s.
           bind_run (k_strcpy (h ! Suc i) 0 s) (\<lambda>b. shift_history i (h[Suc i := b])))
      else fail OutOfBounds)"

definition history_save :: "u8 list \<Rightarrow> 'd shell_state \<Rightarrow> 'd shell_state run" where
  "history_save cmd st =
     bind_run (shift_history (history_count st) (history st)) (\<lambda>h.
       if h = [] then fail OutOfBounds
       else bind_run (k_strcpy (h ! 0) 0 cmd) (\<lambda>b.
              ret (st\<lparr>history := h[0 := b],
                history_count := (if history_count st < HISTORY_SIZE then history_count st + 1
                                  else history_count st)\<rparr>)))"

fun show_history :: "nat \<Rightarrow> nat \<Rightarrow> 'd shell_state \<Rightarrow> 'd shell_state run" where
  "show_history x 0 st = ret st"
| "show_history x (Suc n) st =
     bind_run (print_uint (of_nat x) st) (\<lambda>st.
     bind_run (out (bytes '' '') st) (\<lambda>st.
       if x < length (history st)
       then bind_run (str_of (history st ! x)) (\<lambda>s.
            bind_run (out s st) (\<lambda>st. bind_run (out crlf st) (show_history (x + 1) n)))
       else fail OutOfBounds))"

definition cmd_history :: "'d shell_state \<Rightarrow> 'd shell_state run" where
  "cmd_history st =
     (if history_count st < 1 then out (bytes ''No history yet...'' @ crlf) st
      else show_history 0 (history_count st) st)"

section \<open>Simple commands\<close>

definition cmd_help :: "'d shell_state \<Rightarrow> 'd shell_state run" where
  "cmd_help st = outs (map (\<lambda>s. bytes s @ crlf)
     [''MasterOS Shell Commands:'',
      ''  help       - Show this help'',
      ''  cls        - Clear the screen'',
      ''  echo <msg> - Print a message'',
      ''  ver        - Show OS version'',
      ''  dir        - List files on disk'',
      ''  type <file>- Print file contents'',
      ''  mfetch     - Show system info'',
      ''  del <file> - Delete a file'',
      ''  ren <a> <b>- Rename a file'',
      ''  copy <a> <b>- Copy a file'',
      ''  halt       - Halt the system'',
      ''  create <file> <context> - Creates a file with the given context'',
      ''  time <timezone>  - Show the current time & date'',
      ''  history    - Shows past runned commands'',
      ''  color <text> <background> - Changes the system color (colorhelp for color codes) '',
      ''  run <program> - Runs the given .COM program'',
      ''  cpuid      - Shows CPU vendor string'',
      ''  reboot     - Reboots the system'',
      ''  shutdown   - Shuts down the system'',
      ''  setprompt <name> - Sets the shell prompt name'',
      ''  cd <dirname> - Change directory'',
      ''  mkdir <dirname> - Create a directory'',
      ''  rmdir <dirname> - Remove a directory'']) st"

definition cmd_cls :: "'d shell_state \<Rightarrow> 'd shell_state run" where
  "cmd_cls st = bind_run (Reset (ex_con (kern st))) (\<lambda>c. ret (recolor (\<lambda>_. c) st))"

definition cmd_ver :: "'d shell_state \<Rightarrow> 'd shell_state run" where
  "cmd_ver st = out (bytes ''MasterOS v0.6.8 '' @ [0x22] @ bytes ''OSIX'' @ [0x22] @ crlf) st"

definition cmd_echo :: "u8 list option \<Rightarrow> 'd shell_state \<Rightarrow> 'd shell_state run" where
  "cmd_echo arg st = (case arg of Some arg \<Rightarrow> outs [arg, crlf] st | None \<Rightarrow> out crlf st)"

definition cmd_color :: "u8 list option \<Rightarrow> 'd shell_state \<Rightarrow> 'd shell_state run" where
  "cmd_color arg st =
     (case arg of
        None \<Rightarrow> out (bytes ''Usage: color <text> <background> colorhelp to color codes'' @ crlf) st
      | Some a \<Rightarrow>
          bind_run (k_atoi arg) (\<lambda>fg.
            case k_arg a of
              None \<Rightarrow> out (bytes ''Usage: color <text> <background> colorhelp to color codes'' @ crlf) st
            | Some bg_str \<Rightarrow> bind_run (k_atoi (Some bg_str)) (\<lambda>bg.
                ret (recolor (set_color (ucast fg) (ucast bg)) st))))"

definition cmd_colorhelp :: "'d shell_state \<Rightarrow> 'd shell_state run" where
  "cmd_colorhelp st = out (concat (map (\<lambda>s. bytes s @ crlf)
     [''0 FOR BLACK'', ''1 FOR BLUE'', ''2 FOR GREEN'', ''3 FOR CYAN'', ''4 FOR RED'', ''5 FOR MAGENTA'',
      ''6 FOR BROWN'', ''7 FOR LIGHT GREY'', ''8 FOR DARK GREY'', ''9 FOR LIGHT BLUE'', ''10 FOR LIGHT CYAN'',
      ''11 FOR DARK CYAN'', ''12 FOR LIGHT MAGENTA'', ''13 FOR DARK MAGENTA'', ''14 FOR LIGHT BROWN'',
      ''15 FOR WHITE'', ''Usage: color <text> <background>''])) st"

definition cmd_reboot :: "'d shell_env \<Rightarrow> 'd shell_state \<Rightarrow> 'd shell_state run" where
  "cmd_reboot E st =
     bind_run (out (bytes ''Rebooting...'' @ crlf) st)
       (\<lambda>st. ret (set_hardware (reboot (env_ports E) (hardware st)) st))"

definition cmd_shutdown :: "'d shell_env \<Rightarrow> 'd shell_state \<Rightarrow> 'd shell_state run" where
  "cmd_shutdown E st =
     bind_run (out (bytes ''Shutting down...'' @ crlf) st)
       (\<lambda>st. ret (set_hardware (shutdown (env_ports E) (hardware st)) st))"

text \<open>\<^verbatim>\<open>halt\<close> never returns.\<close>

definition cmd_halt :: "'d shell_state \<Rightarrow> 'd shell_state run" where
  "cmd_halt st = bind_run (out (bytes ''System halted. You can power off now.'' @ crlf) st) (\<lambda>_. None)"

definition cpuid :: "'d shell_env \<Rightarrow> 'd shell_state \<Rightarrow> 'd shell_state run" where
  "cpuid E st =
     bind_run (CGV (env_cpuid E) (replicate 13 0)) (\<lambda>vendor.
     bind_run (str_of vendor) (\<lambda>v. outs [bytes ''CPU Vendor: '', v, crlf] st))"

definition cmd_time :: "'d shell_env \<Rightarrow> u8 list option \<Rightarrow> 'd shell_state \<Rightarrow> 'd shell_state run" where
  "cmd_time E arg st =
     bind_run (rtc_read (env_ports E) (hardware st)) (\<lambda>(t, m).
     bind_run (k_atoi arg) (\<lambda>offset.
       let st = set_hardware m st;
           h = ucast (ucast (rtc_hours t) + offset) :: u8;
           h = (if h \<ge> 24 then h - 24 else h)
       in bind_run (print_uint (ucast h) st) (\<lambda>st.
          bind_run (out (bytes '':'') st) (\<lambda>st.
          bind_run (print_uint (ucast (rtc_minutes t)) st) (\<lambda>st.
          bind_run (out (bytes ''  '') st) (\<lambda>st.
          bind_run (print_uint (ucast (rtc_day t)) st) (\<lambda>st.
          bind_run (out (bytes ''/'') st) (\<lambda>st.
          bind_run (print_uint (ucast (rtc_month t)) st) (\<lambda>st.
          bind_run (out (bytes ''/'') st) (\<lambda>st.
          bind_run (print_uint (ucast (rtc_year t)) st) (\<lambda>st.
            out (bytes '' '' @ crlf) st)))))))))))"

section \<open>File commands\<close>

abbreviation FAT_MAX_FILES :: int where "FAT_MAX_FILES \<equiv> 64"

definition usage :: "string \<Rightarrow> 'd shell_state \<Rightarrow> 'd shell_state run" where
  "usage s st = out (bytes s @ crlf) st"

definition cmd_cd :: "'d shell_env \<Rightarrow> u8 list option \<Rightarrow> 'd shell_state \<Rightarrow> 'd shell_state run" where
  "cmd_cd E arg st =
     (case arg of
        None \<Rightarrow> usage ''Usage: cd <dirname>'' st
      | Some a \<Rightarrow> bind_run (on_fs (fat_cd (env_io E) a) st) (\<lambda>(r, st).
          if r \<noteq> 0 then outs [bytes ''Directory not found: '', a, crlf] st else ret st))"

definition cmd_mkdir :: "'d shell_env \<Rightarrow> u8 list option \<Rightarrow> 'd shell_state \<Rightarrow> 'd shell_state run" where
  "cmd_mkdir E arg st =
     (case arg of
        None \<Rightarrow> usage ''Usage: mkdir <dirname>'' st
      | Some a \<Rightarrow> bind_run (on_fs (fat_mkdir (env_io E) a) st) (\<lambda>(r, st).
          if r = 0 then outs [bytes ''Created: '', a, crlf] st
          else out (bytes ''Failed to create directory.'' @ crlf) st))"

definition cmd_rmdir :: "'d shell_env \<Rightarrow> u8 list option \<Rightarrow> 'd shell_state \<Rightarrow> 'd shell_state run" where
  "cmd_rmdir E arg st =
     (case arg of
        None \<Rightarrow> usage ''Usage: rmdir <dirname>'' st
      | Some a \<Rightarrow> bind_run (on_fs (fat_rmdir (env_io E) a) st) (\<lambda>(r, st).
          if r = 0 then outs [bytes ''Removed: '', a, crlf] st
          else outs [bytes ''Directory not found: '', a, crlf] st))"

definition cmd_del :: "'d shell_env \<Rightarrow> u8 list option \<Rightarrow> 'd shell_state \<Rightarrow> 'd shell_state run" where
  "cmd_del E arg st =
     (case arg of
        None \<Rightarrow> usage ''Usage: del <filename>'' st
      | Some a \<Rightarrow> bind_run (on_fs (fat_delete (env_io E) a) st) (\<lambda>(r, st).
          if r = 0 then outs [bytes ''Deleted: '', a, crlf] st
          else outs [bytes ''File not found: '', a, crlf] st))"

definition cmd_ren :: "'d shell_env \<Rightarrow> u8 list option \<Rightarrow> 'd shell_state \<Rightarrow> 'd shell_state run" where
  "cmd_ren E arg st =
     (case arg of
        None \<Rightarrow> usage ''Usage: ren <oldname> <newname>'' st
      | Some a \<Rightarrow>
          let old_name = k_first_word a 32
          in case k_arg a of
               None \<Rightarrow> usage ''Usage: ren <oldname> <newname>'' st
             | Some new_name \<Rightarrow> bind_run (on_fs (fat_rename (env_io E) old_name new_name) st) (\<lambda>(r, st).
                 if r = 0 then outs [bytes ''Renamed '', old_name, bytes '' to '', new_name, crlf] st
                 else outs [bytes ''File not found: '', old_name, crlf] st))"

text \<open>The contents of \<^verbatim>\<open>file_buf\<close>, \<open>n\<close> bytes from byte \<open>i\<close>.\<close>

fun type_from :: "u8 list \<Rightarrow> nat \<Rightarrow> nat \<Rightarrow> 'd shell_state \<Rightarrow> 'd shell_state run" where
  "type_from buf i 0 st = ret st"
| "type_from buf i (Suc n) st =
     (if i < length buf then
        bind_run (if buf ! i = 0x0D then ret st
                  else if buf ! i = 0x0A then out crlf st
                  else out (cstr [buf ! i, 0]) st) (type_from buf (i + 1) n)
      else fail OutOfBounds)"

definition read_file_buf ::
    "'d shell_env \<Rightarrow> u8 list \<Rightarrow> 'd shell_state \<Rightarrow> (int \<times> 'd shell_state) run" where
  "read_file_buf E name st =
     bind_run (on_fs (\<lambda>fs. bind_run (fat_read (env_io E) name (file_buf st) (32 * 1024) fs)
                  (\<lambda>(r, buf, fs). ret ((r, buf), fs))) st)
       (\<lambda>((r, buf), st). ret (r, st\<lparr>file_buf := buf\<rparr>))"

definition cmd_type :: "'d shell_env \<Rightarrow> u8 list option \<Rightarrow> 'd shell_state \<Rightarrow> 'd shell_state run" where
  "cmd_type E arg st =
     (case arg of
        None \<Rightarrow> usage ''Usage: type <filename>'' st
      | Some a \<Rightarrow> bind_run (read_file_buf E a st) (\<lambda>(r, st).
          if r < 0 then outs [bytes ''File not found: '', a, crlf] st
          else bind_run (type_from (file_buf st) 0 (nat r) st) (out crlf)))"

text \<open>\<^verbatim>\<open>k_strlen\<close> of the context comes before the test for the null pointer.\<close>

definition cmd_create :: "'d shell_env \<Rightarrow> u8 list option \<Rightarrow> 'd shell_state \<Rightarrow> 'd shell_state run" where
  "cmd_create E arg st =
     (case arg of
        None \<Rightarrow> usage ''Usage: create <filename> <context>'' st
      | Some a \<Rightarrow>
          let filename = k_first_word a 32
          in case k_arg a of
               None \<Rightarrow> fail NullPointer
             | Some context_str \<Rightarrow>
                 bind_run (on_fs (fat_write (env_io E) filename context_str (k_strlen context_str)) st)
                   (\<lambda>(r, st). ret st))"

definition cmd_copy :: "'d shell_env \<Rightarrow> u8 list option \<Rightarrow> 'd shell_state \<Rightarrow> 'd shell_state run" where
  "cmd_copy E arg st =
     (case arg of
        None \<Rightarrow> usage ''Usage: copy <source> <destination>'' st
      | Some a \<Rightarrow>
          let src_name = k_first_word a 32
          in case k_arg a of
               None \<Rightarrow> usage ''Usage: copy <source> <destination>'' st
             | Some dst_name \<Rightarrow> bind_run (read_file_buf E src_name st) (\<lambda>(n, st).
                 if n < 0 then outs [bytes ''Source not found: '', src_name, crlf] st
                 else bind_run (on_fs (fat_write (env_io E) dst_name (file_buf st) (of_int n)) st) (\<lambda>(r, st).
                   if r = 0 then
                     bind_run (outs [bytes ''Copied '', src_name, bytes '' to '', dst_name, bytes '' ('' ] st) (\<lambda>st.
                     bind_run (print_uint (of_int n) st) (\<lambda>st. out (bytes '' bytes)'' @ crlf) st))
                   else out (bytes ''Copy failed (disk full or error).'' @ crlf) st)))"

fun dir_lines :: "fat12_entry list \<Rightarrow> 'd shell_state \<Rightarrow> 'd shell_state run" where
  "dir_lines [] st = ret st"
| "dir_lines (e # es) st =
     bind_run (str_of (fe_name e)) (\<lambda>name.
     bind_run (if fe_is_dir e then outs [bytes ''  [DIR] '', name] st
               else bind_run (outs [bytes ''  '', name, bytes ''  ('' ] st) (\<lambda>st.
                    bind_run (print_uint (fe_size e) st) (out (bytes '' bytes)'')))) (\<lambda>st.
     bind_run (out crlf st) (dir_lines es)))"

definition cmd_dir :: "'d shell_env \<Rightarrow> 'd shell_state \<Rightarrow> 'd shell_state run" where
  "cmd_dir E st =
     bind_run (on_fs (\<lambda>fs. bind_run (fat_list (env_io E) FAT_MAX_FILES fs) (\<lambda>(n, es, fs). ret ((n, es), fs))) st)
       (\<lambda>((count, entries), st).
          if count < 0 then out (bytes ''Error: could not read disk.'' @ crlf) st
          else if count = 0 then out (bytes ''No files found.'' @ crlf) st
          else bind_run (out (bytes ''Directory listing:'' @ crlf) st) (dir_lines entries))"

definition cmd_run :: "'d shell_env \<Rightarrow> u8 list option \<Rightarrow> 'd shell_state \<Rightarrow> 'd shell_state run" where
  "cmd_run E arg st =
     (case arg of
        None \<Rightarrow> usage ''Usage: run <program.com>'' st
      | Some a \<Rightarrow> bind_run (exec_run (env_io E) (env_program E) a (kern st)) (\<lambda>(r, k). ret (st\<lparr>kern := k\<rparr>)))"

definition free_kb :: "u32 \<Rightarrow> u32 \<Rightarrow> u32" where
  "free_kb total_kb used_bytes =
     (if total_kb * 1024 > used_bytes then total_kb - used_bytes div 1024 else 0)"

definition cmd_mfetch :: "'d shell_env \<Rightarrow> 'd shell_state \<Rightarrow> 'd shell_state run" where
  "cmd_mfetch E st =
     bind_run (outs
       [crlf,
        bytes ''                     ########  ######## '' @ crlf,
        bytes '' ######## #####    ###    ### ###    ## '' @ crlf,
        bytes ''  ######### ####  ##      ### ######    '' @ crlf,
        bytes ''  ###  ###  #### ###     ###    ######  '' @ crlf,
        bytes '' ###  ###  #### ##     ### ##    ####   '' @ crlf,
        bytes '' ################ ########  ########    '' @ crlf,
        crlf, bytes ''  OS:      '', OS_VER, crlf,
        bytes ''  Kernel:  Custom x86 (32-bit)'' @ crlf,
        bytes ''  Shell:   mShell'' @ crlf,
        bytes ''  Memory:  '' ] st) (\<lambda>st.
     bind_run (print_uint (total_mem_kb st) st) (\<lambda>st.
     bind_run (out (bytes '' KB'' @ crlf) st) (\<lambda>st.
       let total_kb = fat_get_total_kb (ex_fs (kern st))
       in bind_run (on_fs (\<lambda>fs. ret (fat_get_used_kb (env_io E) fs)) st) (\<lambda>(used_bytes, st).
          bind_run (on_fs (\<lambda>fs. bind_run (fat_list (env_io E) FAT_MAX_FILES fs) (\<lambda>(n, es, fs). ret (n, fs))) st)
            (\<lambda>(n, st).
          let file_count = (if n < 0 then 0 else n)
          in bind_run (out (bytes ''  Disk:    FAT12/16, '') st) (\<lambda>st.
             bind_run (print_uint used_bytes st) (\<lambda>st.
             bind_run (out (bytes '' Bytes used / '') st) (\<lambda>st.
             bind_run (print_uint total_kb st) (\<lambda>st.
             bind_run (out (bytes '' KB total ('') st) (\<lambda>st.
             bind_run (print_uint (free_kb total_kb used_bytes) st) (\<lambda>st.
             bind_run (outs [bytes '' KB free)'' @ crlf, bytes ''  Files:   '' ] st) (\<lambda>st.
             bind_run (print_uint (of_int file_count) st) (\<lambda>st.
             bind_run (outs [bytes '' file(s) in root'' @ crlf, bytes ''  CPU:     '' ] st) (\<lambda>st.
             bind_run (cpuid E st) (\<lambda>st.
             bind_run (out (bytes ''  Uptime:  '') st) (\<lambda>st.
             bind_run (print_uint (GUS (ticks st)) st) (\<lambda>st.
               outs [bytes '' seconds'' @ crlf, crlf] st)))))))))))))))))"

section \<open>Execution of a line\<close>

definition shell_execute :: "'d shell_env \<Rightarrow> u8 list \<Rightarrow> 'd shell_state \<Rightarrow> 'd shell_state run" where
  "shell_execute E cmd st =
     (if cmd = [] then ret st
      else
        let verb = k_first_word cmd 32;
            arg = k_arg cmd;
            is = (\<lambda>s. shell_strcmp verb (bytes s) = 0)
        in if is ''help'' then cmd_help st
           else if is ''cls'' then cmd_cls st
           else if is ''echo'' then cmd_echo arg st
           else if is ''ver'' then cmd_ver st
           else if is ''dir'' then cmd_dir E st
           else if is ''type'' then cmd_type E arg st
           else if is ''halt'' then cmd_halt st
           else if is ''mfetch'' then cmd_mfetch E st
           else if is ''del'' then cmd_del E arg st
           else if is ''ren'' then cmd_ren E arg st
           else if is ''copy'' then cmd_copy E arg st
           else if is ''create'' then cmd_create E arg st
           else if is ''time'' then cmd_time E arg st
           else if is ''history'' then cmd_history st
           else if is ''color'' then cmd_color arg st
           else if is ''run'' then cmd_run E arg st
           else if is ''cpuid'' then cpuid E st
           else if is ''reboot'' then cmd_reboot E st
           else if is ''shutdown'' then cmd_shutdown E st
           else if is ''setprompt'' then cmd_setprompt arg st
           else if is ''cd'' then cmd_cd E arg st
           else if is ''mkdir'' then cmd_mkdir E arg st
           else if is ''rmdir'' then cmd_rmdir E arg st
           else if is ''colorhelp'' then cmd_colorhelp st
           else outs [bytes ''Unknown command: '', verb, crlf,
                  bytes ''Type '' @ [0x27] @ bytes ''help'' @ [0x27] @ bytes '' for a list of commands.'' @ crlf] st)"

section \<open>Input\<close>

definition put_shell :: "u8 \<Rightarrow> 'd shell_state \<Rightarrow> 'd shell_state run" where
  "put_shell c st =
     (if shell_len st < length (shell_buf st)
      then ret (st\<lparr>shell_buf := (shell_buf st)[shell_len st := c]\<rparr>) else fail OutOfBounds)"

definition shell_handle_char :: "'d shell_env \<Rightarrow> u8 \<Rightarrow> 'd shell_state \<Rightarrow> 'd shell_state run" where
  "shell_handle_char E c st =
     (if c = 0x0A then
        bind_run (put_shell 0 st) (\<lambda>st.
        bind_run (out crlf st) (\<lambda>st.
        bind_run (str_of (shell_buf st)) (\<lambda>cmd.
        bind_run (if shell_len st > 0 then history_save cmd st else ret st) (\<lambda>st.
        bind_run (shell_execute E cmd st) (\<lambda>st.
          print_prompt (st\<lparr>shell_len := 0\<rparr>))))))
      else if c = 0x08 then
        (if shell_len st > 0 then out [0x08] (st\<lparr>shell_len := shell_len st - 1\<rparr>) else ret st)
      else if shell_len st < SHELL_BUFFER_SIZE - 1 then
        bind_run (put_shell c st) (\<lambda>st. out (cstr [c, 0]) (st\<lparr>shell_len := shell_len st + 1\<rparr>))
      else ret st)"

definition shell_init :: "'d shell_state \<Rightarrow> 'd shell_state run" where
  "shell_init st =
     (if shell_buf st \<noteq> [] then ret (st\<lparr>shell_len := 0, shell_buf := (shell_buf st)[0 := 0]\<rparr>)
      else fail OutOfBounds)"

end
