(* ===== verification/Shell_Line.thy ===== *)
theory Shell_Line
  imports Shell Fat_Volume Paging
begin

unbundle bit_operations_syntax

text \<open>
  Lemmas and properties of the shell's own state: numbers, the line buffer, the history and
  the parsing of a command line.
\<close>

section \<open>Output\<close>

definition with_con :: "console \<Rightarrow> 'd shell_state \<Rightarrow> 'd shell_state" where
  "with_con c st = st\<lparr>kern := (kern st)\<lparr>ex_con := c\<rparr>\<rparr>"

lemma with_con_simps [simp]:
  "ex_con (kern (with_con c st)) = c" "ex_fs (kern (with_con c st)) = ex_fs (kern st)"
  "ex_mem (kern (with_con c st)) = ex_mem (kern st)" "program_buf (kern (with_con c st)) = program_buf (kern st)"
  "prompt_name (with_con c st) = prompt_name st" "history (with_con c st) = history st"
  "history_count (with_con c st) = history_count st" "shell_buf (with_con c st) = shell_buf st"
  "shell_len (with_con c st) = shell_len st" "file_buf (with_con c st) = file_buf st"
  "ticks (with_con c st) = ticks st" "total_mem_kb (with_con c st) = total_mem_kb st"
  "with_con c (with_con c' st) = with_con c st" "with_con (ex_con (kern st)) st = st"
  by (simp_all add: with_con_def)

lemma out_con: "out s st = bind_run (print s (ex_con (kern st))) (\<lambda>c. ret (with_con c st))"
  by (simp add: out_def with_con_def)

lemma recolor_con: "recolor f st = with_con (f (ex_con (kern st))) st"
  by (simp add: recolor_def with_con_def)

lemma out_ok:
  assumes "console_ok (ex_con (kern st))"
  obtains c where "out s st = ret (with_con c st)" "console_ok c" "same_screen (ex_con (kern st)) c"
  using print_ok [OF assms, of s] by (auto simp: out_con)

lemma out_append: "out (xs @ ys) st = bind_run (out xs st) (out ys)"
  by (simp add: out_con print_append bind_run_assoc cong: bind_run_cong)

lemma outs_concat: "outs ss st = out (concat ss) st"
proof (induction ss st rule: outs.induct)
  case (1 st)
  then show ?case by (simp add: out_con)
next
  case (2 s ss st)
  then show ?case by (simp add: out_append cong: bind_run_cong)
qed

section \<open>Numbers\<close>

lemma digit_char_10: "d < 10 \<Longrightarrow> digit_char d = 0x30 + of_nat d"
proof -
  assume "d < 10"
  then have "d \<in> set [0, 1, 2, 3, 4, 5, 6, 7, 8, 9]" by (simp; presburger)
  then show ?thesis by (auto simp: digit_char_def possibleChars_def bytes_def)
qed

lemma fill_uint_0 [simp]: "fill_uint room 0 = ret []"
  by (cases room) simp_all

lemma fill_uint_digits:
  "n \<noteq> 0 \<Longrightarrow> unat n < 10 ^ room \<Longrightarrow> fill_uint room n = ret (rev (digits 10 (unat n)))"
proof (induction room arbitrary: n)
  case 0
  then show ?case by (simp add: unat_eq_0 [symmetric])
next
  case (Suc room)
  have d: "0x30 + ucast (n mod 10) = digit_char (unat n mod 10)"
  proof -
    have "(ucast (n mod 10) :: u8) = of_nat (unat (n mod 10))" by simp
    then show ?thesis by (simp add: digit_char_10 unat_mod)
  qed
  show ?case
  proof (cases "unat n < 10")
    case True
    then have "n div 10 = 0" by (simp add: word_unat_eq_iff unat_div)
    then show ?thesis using Suc.prems True d by (simp add: digits.simps [of 10 "unat n"])
  next
    case False
    then have n: "n div 10 \<noteq> 0" "unat (n div 10) = unat n div 10" by (simp_all add: word_unat_eq_iff unat_div)
    then have "fill_uint room (n div 10) = ret (rev (digits 10 (unat n div 10)))"
      using Suc.IH [of "n div 10"] Suc.prems by simp
    then show ?thesis using Suc.prems False d by (simp add: digits.simps [of 10 "unat n"])
  qed
qed

lemma print_uint_digits: "print_uint n st = out (digits 10 (unat n)) st"
proof (cases "n = 0")
  case True
  then show ?thesis by (simp add: print_uint_def digits.simps digit_char_10 bytes_def)
next
  case False
  have "unat n < 2 ^ LENGTH(32)" by (rule unsigned_less)
  then have "unat n < 10 ^ 12" by simp
  then show ?thesis
    using fill_uint_digits [OF False, of 12] False
    by (simp add: print_uint_def outs_concat concat_map_singleton)
qed

section \<open>Parsing\<close>

lemma shell_strcmp_eq: "shell_strcmp a b = 0 \<longleftrightarrow> a = b" if "0 \<notin> set a" "0 \<notin> set b"
  using that
proof (induction a b rule: shell_strcmp.induct)
  case (4 c a d b)
  then show ?case by (auto dest: signed_word_eqI)
qed (auto simp: signed_eq_0_iff)

lemma first_word_all: "0x20 \<notin> set v \<Longrightarrow> length v < n \<Longrightarrow> k_first_word v n = v"
  by (induction v n rule: k_first_word.induct) auto

lemma first_word_space: "0x20 \<notin> set v \<Longrightarrow> length v < n \<Longrightarrow> k_first_word (v @ 0x20 # s) n = v"
proof (induction v arbitrary: n)
  case (Cons c v)
  then show ?case by (cases "1 < n") auto
qed simp

lemma k_arg_none: "0x20 \<notin> set v \<Longrightarrow> k_arg v = None"
  by (induction v) auto

lemma k_arg_space: "0x20 \<notin> set v \<Longrightarrow> k_arg (v @ 0x20 # s) = (if s = [] then None else Some s)"
  by (induction v) auto

lemma k_strlen_length: "k_strlen s = of_nat (length s)"
  by (induction s) (simp_all add: add.commute)

section \<open>The invariant\<close>

definition nul_buffer :: "nat \<Rightarrow> u8 list \<Rightarrow> bool" where
  "nul_buffer n b \<longleftrightarrow> length b = n \<and> 0 \<in> set b"

definition shell_ok :: "'d shell_state \<Rightarrow> bool" where
  "shell_ok st \<longleftrightarrow> console_ok (ex_con (kern st)) \<and> length (shell_buf st) = 256 \<and> shell_len st < 256 \<and>
     length (history st) = 10 \<and> list_all (\<lambda>b. length b = 256) (history st) \<and>
     list_all (\<lambda>b. 0 \<in> set b) (take (history_count st) (history st)) \<and> history_count st \<le> 10 \<and>
     nul_buffer 32 (prompt_name st) \<and> nul_buffer 256 (current_path (ex_fs (kern st))) \<and>
     length (file_buf st) = 32 * 1024"

text \<open>The part of it that Enter needs, and that every command keeps.\<close>

definition line_ok :: "'d shell_state \<Rightarrow> bool" where
  "line_ok st \<longleftrightarrow> console_ok (ex_con (kern st)) \<and> length (shell_buf st) = 256 \<and> shell_len st < 256 \<and>
     length (history st) = 10 \<and> list_all (\<lambda>b. length b = 256) (history st) \<and>
     list_all (\<lambda>b. 0 \<in> set b) (take (history_count st) (history st)) \<and> history_count st \<le> 10"

lemma shell_ok_line:
  "shell_ok st \<longleftrightarrow> line_ok st \<and> nul_buffer 32 (prompt_name st) \<and>
     nul_buffer 256 (current_path (ex_fs (kern st))) \<and> length (file_buf st) = 32 * 1024"
  by (auto simp: shell_ok_def line_ok_def)

lemma shell_line_ok: "shell_ok st \<Longrightarrow> line_ok st"
  by (simp add: shell_ok_line)

lemma line_ok_con: "line_ok st \<Longrightarrow> console_ok c \<Longrightarrow> line_ok (with_con c st)"
  by (simp add: line_ok_def)

lemma shell_ok_con: "shell_ok st \<Longrightarrow> console_ok c \<Longrightarrow> shell_ok (with_con c st)"
  by (simp add: shell_ok_def)

lemma cstr_no_0: "0 \<notin> set (cstr b)"
  unfolding cstr_def by (auto dest: set_takeWhileD)

lemma cstr_stored: "0 \<notin> set s \<Longrightarrow> cstr (splice b 0 (s @ [0])) = s"
  by (auto simp: splice_def cstr_def takeWhile_tail)

lemma length_cstr: "0 \<in> set b \<Longrightarrow> length (cstr b) < length b"
  by (induction b) (auto simp: cstr_def)

section \<open>The line buffer\<close>

definition shell_line :: "'d shell_state \<Rightarrow> u8 list" where
  "shell_line st = take (shell_len st) (shell_buf st)"

text \<open>Nothing but the screen and the line has changed since \<open>st0\<close>.\<close>

definition typing_since :: "'d shell_state \<Rightarrow> 'd shell_state \<Rightarrow> bool" where
  "typing_since st0 st \<longleftrightarrow> line_ok st \<and>
     (\<exists>c b n. st = (with_con c st0)\<lparr>shell_buf := b, shell_len := n\<rparr>)"

lemma typing_sinceE:
  assumes "typing_since st0 st"
  obtains "line_ok st" "history st = history st0" "history_count st = history_count st0"
    "ex_fs (kern st) = ex_fs (kern st0)" "prompt_name st = prompt_name st0" "file_buf st = file_buf st0"
  using assms unfolding typing_since_def with_con_def by auto

lemma typing_since_shell: "typing_since st0 st \<Longrightarrow> shell_ok st0 \<Longrightarrow> shell_ok st"
proof -
  assume ts: "typing_since st0 st" and ok: "shell_ok st0"
  show "shell_ok st" by (rule typing_sinceE [OF ts]) (use ok in \<open>simp add: shell_ok_line\<close>)
qed

lemma length_shell_line: "line_ok st \<Longrightarrow> length (shell_line st) = shell_len st"
  by (simp add: shell_line_def line_ok_def)

lemma with_con_len: "with_con c (st\<lparr>shell_len := n\<rparr>) = (with_con c st)\<lparr>shell_len := n\<rparr>"
  "with_con c (st\<lparr>shell_buf := b\<rparr>) = (with_con c st)\<lparr>shell_buf := b\<rparr>"
  by (simp_all add: with_con_def)

lemma shell_key:
  assumes "typing_since st0 st" and "c \<noteq> 0x0A"
  shows "\<exists>st'. shell_handle_char E c st = ret st' \<and> typing_since st0 st' \<and>
    shell_line st' = edit_char (SHELL_BUFFER_SIZE - 1) (shell_line st) c"
proof -
  let ?n = "shell_len st" and ?b = "shell_buf st"
  have ok: "line_ok st" using assms(1) by (simp add: typing_since_def)
  then have b: "length ?b = 256" "?n < 256" "console_ok (ex_con (kern st))" by (simp_all add: line_ok_def)
  have step: "typing_since st0 (with_con cn (st\<lparr>shell_buf := b', shell_len := n'\<rparr>))"
    if "console_ok cn" "length b' = 256" "n' < 256" for cn b' n'
  proof -
    have "line_ok (with_con cn (st\<lparr>shell_buf := b', shell_len := n'\<rparr>))"
      using ok that by (simp add: line_ok_def)
    moreover obtain c0 b0 n0 where "st = (with_con c0 st0)\<lparr>shell_buf := b0, shell_len := n0\<rparr>"
      using assms(1) unfolding typing_since_def by blast
    then have "with_con cn (st\<lparr>shell_buf := b', shell_len := n'\<rparr>) = (with_con cn st0)\<lparr>shell_buf := b', shell_len := n'\<rparr>"
      by (simp add: with_con_def)
    ultimately show ?thesis unfolding typing_since_def by blast
  qed
  consider "c = 0x08" "?n = 0" | "c = 0x08" "0 < ?n" | "c \<noteq> 0x08" "?n < 255" | "c \<noteq> 0x08" "\<not> ?n < 255"
    by blast
  then show ?thesis
  proof cases
    case 1
    then show ?thesis
      using assms length_shell_line [OF ok] by (simp add: shell_handle_char_def edit_char_def)
  next
    case 2
    let ?st = "st\<lparr>shell_len := ?n - 1\<rparr>"
    obtain cn where cn: "out [0x08] ?st = ret (with_con cn ?st)" "console_ok cn"
      using out_ok [of ?st "[0x08]"] b(3) by auto
    have "shell_handle_char E c st = ret (with_con cn (st\<lparr>shell_buf := ?b, shell_len := ?n - 1\<rparr>))"
      using 2 cn(1) by (simp add: shell_handle_char_def)
    moreover have "take (?n - 1) ?b = butlast (take ?n ?b)" using b by (simp add: butlast_take)
    ultimately show ?thesis
      using step [OF cn(2) b(1), of "?n - 1"] b 2 by (auto simp: edit_char_def shell_line_def)
  next
    case 3
    let ?st = "st\<lparr>shell_buf := ?b[?n := c], shell_len := ?n + 1\<rparr>"
    obtain cn where cn: "out (cstr [c, 0]) ?st = ret (with_con cn ?st)" "console_ok cn"
      using out_ok [of ?st "cstr [c, 0]"] b(3) by auto
    have "shell_handle_char E c st = ret (with_con cn ?st)"
      using 3 cn(1) b assms(2) by (simp add: shell_handle_char_def put_shell_def)
    moreover have "take (?n + 1) (?b[?n := c]) = take ?n ?b @ [c]"
      using b by (simp add: take_Suc_conv_app_nth)
    ultimately show ?thesis
      using step [OF cn(2), of "?b[?n := c]" "?n + 1"] b 3 assms(2) length_shell_line [OF ok]
      by (auto simp: edit_char_def shell_line_def)
  next
    case 4
    then show ?thesis
      using assms length_shell_line [OF ok] by (auto simp: shell_handle_char_def edit_char_def)
  qed
qed

interpretation shell_typed: line_editor "shell_handle_char E" shell_line "typing_since st0" "SHELL_BUFFER_SIZE - 1" for E st0
  by unfold_locales (rule shell_key)

section \<open>The history\<close>

text \<open>The commands so far, the latest first.\<close>

definition past :: "'d shell_state \<Rightarrow> u8 list list" where
  "past st = map cstr (take (history_count st) (history st))"

lemma shift_history_result:
  "i < length h \<Longrightarrow> list_all (\<lambda>b. length b = 256) h \<Longrightarrow> list_all (\<lambda>b. 0 \<in> set b) (take i h) \<Longrightarrow>
     \<exists>h'. shift_history i h = ret h' \<and> length h' = length h \<and> list_all (\<lambda>b. length b = 256) h' \<and>
       (\<forall>k < i. 0 \<in> set (h' ! Suc k) \<and> cstr (h' ! Suc k) = cstr (h ! k)) \<and> (\<forall>k > i. h' ! k = h ! k)"
proof (induction i arbitrary: h)
  case (Suc i)
  have i: "length (h ! i) = 256" "0 \<in> set (h ! i)" "length (h ! Suc i) = 256"
    using Suc.prems by (auto simp: list_all_length)
  define b where "b = splice (h ! Suc i) 0 (cstr (h ! i) @ [0])"
  have "length (cstr (h ! i)) < 256" using length_cstr [OF i(2)] i(1) by simp
  then have b: "k_strcpy (h ! Suc i) 0 (cstr (h ! i)) = ret b" "length b = 256" "0 \<in> set b" "cstr b = cstr (h ! i)"
    using i unfolding k_strcpy_def b_def by (simp_all add: cstr_stored cstr_no_0) (simp add: splice_def)
  let ?h = "h[Suc i := b]"
  have "i < length ?h" "list_all (\<lambda>b. length b = 256) ?h" "list_all (\<lambda>b. 0 \<in> set b) (take i ?h)"
    using Suc.prems b(2) by (auto simp: list_all_length nth_list_update)
  from Suc.IH [OF this] obtain h' where h': "shift_history i ?h = ret h'" "length h' = length h"
    "list_all (\<lambda>b. length b = 256) h'" "\<forall>k < i. 0 \<in> set (h' ! Suc k) \<and> cstr (h' ! Suc k) = cstr (?h ! k)"
    "\<forall>k > i. h' ! k = ?h ! k" by auto
  have "h' ! Suc i = b" using h'(5) Suc.prems(1) by simp
  then show ?case
    using h' Suc.prems(1) i(2) b by (auto simp: str_of_def less_Suc_eq)
qed simp

lemma history_save_result:
  assumes "length (history st) = 10" "list_all (\<lambda>b. length b = 256) (history st)"
    "list_all (\<lambda>b. 0 \<in> set b) (take (history_count st) (history st))" "history_count st < 10"
    and "length cmd < 256" "0 \<notin> set cmd"
  obtains h where "history_save cmd st = ret (st\<lparr>history := h, history_count := history_count st + 1\<rparr>)"
    "length h = 10" "list_all (\<lambda>b. length b = 256) h" "list_all (\<lambda>b. 0 \<in> set b) (take (history_count st + 1) h)"
    "map cstr (take (history_count st + 1) h) = cmd # past st"
proof -
  let ?n = "history_count st"
  obtain h' where h': "shift_history ?n (history st) = ret h'" "length h' = 10" "list_all (\<lambda>b. length b = 256) h'"
    "\<forall>k < ?n. 0 \<in> set (h' ! Suc k) \<and> cstr (h' ! Suc k) = cstr (history st ! k)"
    using shift_history_result [of ?n "history st"] assms(1-4) by auto
  define b where "b = splice (h' ! 0) 0 (cmd @ [0])"
  have l: "length (h' ! 0) = 256" using h'(2,3) by (simp add: list_all_length)
  then have b: "k_strcpy (h' ! 0) 0 cmd = ret b" "length b = 256" "0 \<in> set b" "cstr b = cmd"
    using assms(5,6) unfolding k_strcpy_def b_def by (simp_all add: cstr_stored) (simp add: splice_def)
  obtain h0 t where t: "h' = h0 # t" using h'(2) by (cases h') auto
  have save: "history_save cmd st = ret (st\<lparr>history := b # t, history_count := ?n + 1\<rparr>)"
    using h'(1) b(1) assms(4) by (simp add: history_save_def t)
  have n: "?n \<le> length t" using h'(2) assms(4) t by simp
  have nth: "\<forall>k < ?n. 0 \<in> set (t ! k) \<and> cstr (t ! k) = cstr (history st ! k)" using h'(4) by (simp add: t)
  have "list_all (\<lambda>b. 0 \<in> set b) (take ?n t)" using nth n by (auto simp: list_all_length)
  moreover have "map cstr (take ?n t) = past st"
    using nth n assms(1,4) by (intro nth_equalityI) (auto simp: past_def)
  ultimately show thesis
    using save h'(2,3) b by (intro that [of "b # t"]) (simp_all add: t)
qed

text \<open>With ten commands stored, the copy of the tenth goes to an eleventh row.\<close>

lemma history_save_full:
  "length (history st) = 10 \<Longrightarrow> history_count st = 10 \<Longrightarrow> history_save cmd st = fail OutOfBounds"
  by (simp add: history_save_def numeral_eq_Suc)

section \<open>Enter\<close>

text \<open>What happens to a complete line.\<close>

definition run_line :: "'d shell_env \<Rightarrow> u8 list \<Rightarrow> 'd shell_state \<Rightarrow> 'd shell_state run" where
  "run_line E cmd st = bind_run (shell_execute E cmd st) (\<lambda>st. print_prompt (st\<lparr>shell_len := 0\<rparr>))"

lemma shell_enter_key:
  assumes ok: "line_ok st" and no0: "0 \<notin> set (shell_line st)"
  obtains st1 where
    "shell_handle_char E 0x0A st = bind_run
       (if shell_line st \<noteq> [] then history_save (shell_line st) st1 else ret st1) (run_line E (shell_line st))"
    "typing_since st st1"
proof -
  let ?n = "shell_len st"
  have b: "length (shell_buf st) = 256" "?n < 256" "console_ok (ex_con (kern st))"
    using ok by (simp_all add: line_ok_def)
  let ?st = "st\<lparr>shell_buf := (shell_buf st)[?n := 0]\<rparr>"
  obtain cn where cn: "out crlf ?st = ret (with_con cn ?st)" "console_ok cn"
    using out_ok [of ?st crlf] b(3) by auto
  have split: "(shell_buf st)[?n := 0] = shell_line st @ 0 # drop (Suc ?n) (shell_buf st)"
    using b by (simp add: upd_conv_take_nth_drop shell_line_def)
  have "0 \<in> set ((shell_buf st)[?n := 0])" unfolding split by simp
  moreover have "cstr ((shell_buf st)[?n := 0]) = shell_line st"
    unfolding split cstr_def using no0 by (subst takeWhile_append2) auto
  ultimately have "str_of ((shell_buf st)[?n := 0]) = ret (shell_line st)" by (simp add: str_of_def)
  moreover have "?n > 0 \<longleftrightarrow> shell_line st \<noteq> []" using length_shell_line [OF ok] by (metis length_greater_0_conv)
  ultimately have "shell_handle_char E 0x0A st = bind_run
       (if shell_line st \<noteq> [] then history_save (shell_line st) (with_con cn ?st) else ret (with_con cn ?st))
       (run_line E (shell_line st))"
    using cn(1) b by (simp add: shell_handle_char_def put_shell_def run_line_def [abs_def])
  moreover have "typing_since st (with_con cn ?st)"
  proof -
    have "with_con cn ?st = (with_con cn st)\<lparr>shell_buf := (shell_buf st)[?n := 0], shell_len := ?n\<rparr>"
      by (simp add: with_con_def)
    moreover have "line_ok (with_con cn ?st)" using ok cn(2) by (simp add: line_ok_def)
    ultimately show ?thesis unfolding typing_since_def by blast
  qed
  ultimately show thesis by (rule that)
qed

lemma bind_run_return: "bind_run m (\<lambda>x. ret x) = m"
  by (cases m) (auto simp: bind_run_def split: sum.split)

lemma feed_snoc: "feed key (cs @ [c]) s = bind_run (feed key cs s) (key c)"
  by (simp add: feed_append bind_run_return cong: bind_run_cong)

lemma typed_line:
  assumes ok: "line_ok st" "shell_len st = 0" and keys: "0x0A \<notin> set keys" "0 \<notin> set keys"
  obtains st1 where "feed (shell_handle_char E) (keys @ [0x0A]) st = bind_run
      (if edited 255 keys \<noteq> [] then history_save (edited 255 keys) st1 else ret st1) (run_line E (edited 255 keys))"
    "typing_since st st1"
proof -
  have "st = (with_con (ex_con (kern st)) st)\<lparr>shell_buf := shell_buf st, shell_len := shell_len st\<rparr>" by simp
  then have "typing_since st st" using ok unfolding typing_since_def by blast
  moreover have "shell_line st = []" using ok(2) by (simp add: shell_line_def)
  ultimately obtain st0 where st0: "feed (shell_handle_char E) keys st = ret st0" "typing_since st st0"
    "shell_line st0 = edited 255 keys"
    using shell_typed.feed_line [OF _ _ keys(1), of st st E] by auto
  have "set (edited 255 keys) \<subseteq> set keys" using set_edited [of 255 keys] by auto
  then have no0: "0 \<notin> set (shell_line st0)" using keys(2) st0(3) by auto
  have ok0: "line_ok st0" using st0(2) by (simp add: typing_since_def)
  obtain st1 where st1: "shell_handle_char E 0x0A st0 = bind_run
       (if shell_line st0 \<noteq> [] then history_save (shell_line st0) st1 else ret st1) (run_line E (shell_line st0))"
    "typing_since st0 st1" by (rule shell_enter_key [where E = E, OF ok0 no0])
  have "typing_since st st1"
  proof -
    obtain c b n c' b' n' where "st0 = (with_con c st)\<lparr>shell_buf := b, shell_len := n\<rparr>"
      "st1 = (with_con c' st0)\<lparr>shell_buf := b', shell_len := n'\<rparr>"
      using st0(2) st1(2) unfolding typing_since_def by blast
    then have "st1 = (with_con c' st)\<lparr>shell_buf := b', shell_len := n'\<rparr>" by (simp add: with_con_def)
    then show ?thesis using st1(2) unfolding typing_since_def by blast
  qed
  then show thesis using st0 st1(1) by (intro that) (simp_all add: feed_snoc)
qed

lemma length_edited: "length (edited n keys) \<le> n"
  by (rule edited_bound)

text \<open>A saved line.\<close>

lemma saved_line:
  assumes "typing_since st st1" "history_count st < 10" "length cmd < 256" "0 \<notin> set cmd"
  obtains st2 where "history_save cmd st1 = ret st2" "line_ok st2" "shell_ok st \<longrightarrow> shell_ok st2" "past st2 = cmd # past st"
    "history_count st2 = history_count st + 1" "ex_fs (kern st2) = ex_fs (kern st)" "prompt_name st2 = prompt_name st"
    "file_buf st2 = file_buf st"
proof -
  have ok: "line_ok st1" and f: "history st1 = history st" "history_count st1 = history_count st"
    "ex_fs (kern st1) = ex_fs (kern st)" "prompt_name st1 = prompt_name st" "file_buf st1 = file_buf st"
    by (rule typing_sinceE [OF assms(1)]; assumption)+
  obtain h where h: "history_save cmd st1 = ret (st1\<lparr>history := h, history_count := history_count st1 + 1\<rparr>)"
    "length h = 10" "list_all (\<lambda>b. length b = 256) h" "list_all (\<lambda>b. 0 \<in> set b) (take (history_count st1 + 1) h)"
    "map cstr (take (history_count st1 + 1) h) = cmd # past st1"
    using history_save_result [of st1 cmd] ok assms(2-4) f(2) by (auto simp: line_ok_def)
  let ?st2 = "st1\<lparr>history := h, history_count := history_count st1 + 1\<rparr>"
  have "line_ok ?st2" using ok h(2-4) assms(2) f(2) by (simp add: line_ok_def)
  moreover have "shell_ok st \<longrightarrow> shell_ok ?st2"
    using \<open>line_ok ?st2\<close> typing_since_shell [OF assms(1)] by (simp add: shell_ok_line)
  moreover have "past ?st2 = cmd # past st" using h(5) f by (simp add: past_def)
  ultimately show thesis using h(1) f by (intro that [of ?st2]) simp_all
qed

section \<open>The prompt\<close>

lemma set_color_ok: "console_ok c \<Longrightarrow> console_ok (set_color f b c)"
  by (simp add: set_color_def console_ok_def Let_def)

lemma colored_ok:
  assumes "console_ok (ex_con (kern st))"
  obtains c where "colored fg s st = ret (with_con c st)" "console_ok c"
  using out_ok [of "recolor (set_color fg 0) st" s] set_color_ok [OF assms, of fg 0]
  by (auto simp: colored_def recolor_con)

lemma prompt_ok:
  assumes "shell_ok st"
  obtains c where "print_prompt st = ret (with_con c st)" "console_ok c"
proof -
  have c: "console_ok (ex_con (kern st))" using assms by (simp add: shell_ok_def)
  have col: "\<exists>c'. colored fg s (with_con c st) = ret (with_con c' st) \<and> console_ok c'" if "console_ok c" for fg s c
    using colored_ok [of "with_con c st" fg s] that by auto
  have p: "str_of (prompt_name st) = ret (cstr (prompt_name st))"
    "str_of (current_path (ex_fs (kern st))) = ret (cstr (current_path (ex_fs (kern st))))"
    using assms by (simp_all add: shell_ok_def nul_buffer_def str_of_def)
  obtain c1 where c1: "colored 2 (cstr (prompt_name st)) st = ret (with_con c1 st)" "console_ok c1"
    by (rule colored_ok [OF c])
  obtain c2 where c2: "colored 7 (bytes ''@'') (with_con c1 st) = ret (with_con c2 st)" "console_ok c2"
    using col [OF c1(2)] by blast
  obtain c3 where c3: "colored 10 (bytes ''MasterOS'') (with_con c2 st) = ret (with_con c3 st)" "console_ok c3"
    using col [OF c2(2)] by blast
  obtain c4 where c4: "colored 7 (bytes '':'') (with_con c3 st) = ret (with_con c4 st)" "console_ok c4"
    using col [OF c3(2)] by blast
  obtain c5 where c5: "colored 14 (cstr (current_path (ex_fs (kern st)))) (with_con c4 st) = ret (with_con c5 st)"
    "console_ok c5" using col [OF c4(2)] by blast
  obtain c6 where c6: "colored 7 (bytes ''> '') (with_con c5 st) = ret (with_con c6 st)" "console_ok c6"
    using col [OF c5(2)] by blast
  define c7 where "c7 = restore_color (get_current_color (ex_con (kern st))) c6"
  have "print_prompt st = ret (with_con c7 st)"
    using p by (simp add: print_prompt_def c1(1) c2(1) c3(1) c4(1) c5(1) c6(1) recolor_con c7_def Let_def)
  moreover have "console_ok c7" using c6(2) by (simp add: c7_def restore_color_def console_ok_def)
  ultimately show thesis by (rule that)
qed

section \<open>Commands\<close>

lemmas verb_bytes = bytes_def k_first_word.simps k_arg.simps shell_strcmp.simps

lemma execute_ver: "shell_execute E (bytes ''ver'') st = cmd_ver st"
  by (simp add: shell_execute_def verb_bytes)

lemma execute_echo: "shell_execute E (bytes ''echo '' @ s) st = out (s @ crlf) st"
  by (cases s) (simp_all add: shell_execute_def verb_bytes cmd_echo_def outs_concat)

subsection \<open>What a command leaves alone\<close>

text \<open>A command keeps the line buffer and the history, and the screen well-formed.\<close>

definition keeps :: "'d shell_state \<Rightarrow> 'd shell_state \<Rightarrow> bool" where
  "keeps st st' \<longleftrightarrow> console_ok (ex_con (kern st')) \<and> history st' = history st \<and>
     history_count st' = history_count st \<and> shell_buf st' = shell_buf st \<and> shell_len st' = shell_len st"

definition within :: "'d shell_state \<Rightarrow> 'd shell_state run \<Rightarrow> bool" where
  "within st m \<longleftrightarrow> (\<forall>st'. m = ret st' \<longrightarrow> keeps st st')"

definition within_pair :: "'d shell_state \<Rightarrow> ('r \<times> 'd shell_state) run \<Rightarrow> bool" where
  "within_pair st m \<longleftrightarrow> (\<forall>r st'. m = ret (r, st') \<longrightarrow> keeps st st')"

named_theorems frame

lemma keeps_fields [frame]:
  "keeps st st0 \<Longrightarrow> keeps st (set_hardware m st0)" "keeps st st0 \<Longrightarrow> keeps st (st0\<lparr>prompt_name := p\<rparr>)"
  "keeps st st0 \<Longrightarrow> keeps st (st0\<lparr>file_buf := b\<rparr>)" "keeps st st0 \<Longrightarrow> keeps st (recolor (set_color fg bg) st0)"
  "keeps st st0 \<Longrightarrow> keeps st (st0\<lparr>kern := (kern st0)\<lparr>ex_fs := fs\<rparr>\<rparr>)"
  by (simp_all add: keeps_def set_hardware_def recolor_con set_color_ok)

lemma keeps_con: "keeps st st0 \<Longrightarrow> console_ok c \<Longrightarrow> keeps st (with_con c st0)"
  by (simp add: keeps_def)

lemma within_ret [frame]:
  "keeps st st' \<Longrightarrow> within st (ret st')" "within st (fail e)" "within st None"
  "keeps st st' \<Longrightarrow> within_pair st (ret (r, st'))"
  by (simp_all add: within_def within_pair_def)

lemma within_bind: "within st m \<Longrightarrow> (\<And>st1. keeps st st1 \<Longrightarrow> within st (k st1)) \<Longrightarrow> within st (bind_run m k)"
  by (auto simp: within_def bind_run_eq_ret)

lemma within_bind_pair:
  "within_pair st m \<Longrightarrow> (\<And>r st1. keeps st st1 \<Longrightarrow> within st (k r st1)) \<Longrightarrow>
     within st (bind_run m (\<lambda>(r, st). k r st))"
  "within_pair st m \<Longrightarrow> (\<And>r st1. keeps st st1 \<Longrightarrow> within_pair st (k' r st1)) \<Longrightarrow>
     within_pair st (bind_run m (\<lambda>(r, st). k' r st))"
  by (auto simp: within_def within_pair_def bind_run_eq_ret)

lemma within_bind_value: "(\<And>x. within st (k x)) \<Longrightarrow> within st (bind_run m k)"
  by (auto simp: within_def bind_run_eq_ret)

lemma within_if [frame]:
  "(b \<Longrightarrow> within st m) \<Longrightarrow> (\<not> b \<Longrightarrow> within st n) \<Longrightarrow> within st (if b then m else n)" by simp

lemma within_case [frame]:
  "within st m \<Longrightarrow> (\<And>x. within st (k x)) \<Longrightarrow> within st (case a of None \<Rightarrow> m | Some x \<Rightarrow> k x)"
  by (cases a) simp_all

lemma within_split [frame]:
  "(\<And>a b. within st (k a b s)) \<Longrightarrow> within st ((case p of (a, b) \<Rightarrow> k a b) s)"
  by (cases p) simp

lemma within_out [frame]: "keeps st st0 \<Longrightarrow> within st (out s st0)"
proof -
  assume k: "keeps st st0"
  then obtain c where "out s st0 = ret (with_con c st0)" "console_ok c"
    using out_ok [of st0 s] by (auto simp: keeps_def)
  then show "within st (out s st0)" using keeps_con [OF k] by (simp add: within_def)
qed

lemma within_outs [frame]: "keeps st st0 \<Longrightarrow> within st (outs ss st0)"
  by (simp add: outs_concat within_out)

lemma within_usage [frame]: "keeps st st0 \<Longrightarrow> within st (usage s st0)"
  by (simp add: usage_def within_out)

lemma within_uint [frame]: "keeps st st0 \<Longrightarrow> within st (print_uint n st0)"
  by (simp add: print_uint_digits within_out)

lemma within_fs [frame]: "keeps st st0 \<Longrightarrow> within_pair st (on_fs f st0)"
  by (auto simp: within_pair_def on_fs_def bind_run_eq_ret keeps_fields)

lemma within_read [frame]: "keeps st st0 \<Longrightarrow> within_pair st (read_file_buf E name st0)"
  unfolding read_file_buf_def by (rule within_bind_pair(2)) (auto intro!: frame)

lemma within_history:
  "keeps st st0 \<Longrightarrow> within st (show_history x n st0)"
proof (induction n arbitrary: x st0)
  case (Suc n)
  show ?case
    unfolding show_history.simps
    by (intro within_bind within_if within_uint within_out within_bind_value within_ret Suc)
qed (simp add: within_def)

lemma within_type:
  "keeps st st0 \<Longrightarrow> within st (type_from buf i n st0)"
proof (induction n arbitrary: i st0)
  case (Suc n)
  show ?case
    unfolding type_from.simps
    by (intro within_bind within_if within_out within_ret Suc)
qed (simp add: within_def)

lemma within_dir:
  "keeps st st0 \<Longrightarrow> within st (dir_lines es st0)"
proof (induction es arbitrary: st0)
  case (Cons e es)
  have "within st (bind_run (if fe_is_dir e then outs [bytes ''  [DIR] '', name] st0
      else bind_run (outs [bytes ''  '', name, bytes ''  ('' ] st0) (\<lambda>st.
           bind_run (print_uint (fe_size e) st) (out (bytes '' bytes)''))))
      (\<lambda>st. bind_run (out crlf st) (dir_lines es)))" for name
    by (intro within_bind within_if within_out within_outs within_uint Cons)
  then show ?case unfolding dir_lines.simps by (rule within_bind_value)
qed (simp add: within_def)

lemma within_cls: "keeps st st0 \<Longrightarrow> within st (cmd_cls st0)"
proof -
  assume k: "keeps st st0"
  let ?c = "ex_con (kern st0)"
  have "console_ok c" if "Reset ?c = ret c" for c
  proof -
    have c: "console_ok ?c" using k by (simp add: keeps_def)
    then have n: "unat (VGAWidth ?c * VGAHeight ?c) = unat (VGAWidth ?c) * unat (VGAHeight ?c)"
      by (simp add: console_ok_def unat_mult_lem [THEN iffD1])
    show ?thesis using c that by (auto simp: Reset_def n fill_cells_splice console_ok_def)
  qed
  then show "within st (cmd_cls st0)"
    using keeps_con [OF k] unfolding cmd_cls_def within_def by (auto simp: bind_run_eq_ret recolor_con)
qed

lemma within_time: "keeps st st0 \<Longrightarrow> within st (cmd_time E arg st0)"
  unfolding cmd_time_def split_beta' Let_def
  by (rule within_bind_value, rule within_bind_value, intro frame within_bind)

lemma within_cpuid: "keeps st st0 \<Longrightarrow> within st (cpuid E st0)"
  unfolding cpuid_def by (intro frame within_bind_value)

lemma within_mfetch: "keeps st st0 \<Longrightarrow> within st (cmd_mfetch E st0)"
  unfolding cmd_mfetch_def Let_def
  by (intro frame within_bind within_bind_pair within_cpuid)

lemma within_run:
  assumes "\<forall>k k'. env_program E k = ret k' \<longrightarrow> console_ok (ex_con k) \<longrightarrow> console_ok (ex_con k')" and "keeps st st0"
  shows "within st (cmd_run E arg st0)"
proof -
  have say: "\<exists>c. exec_say s k = ret (k\<lparr>ex_con := c\<rparr>) \<and> console_ok c" if "console_ok (ex_con k)" for s and k :: "'a exec_state"
    using print_ok [OF that, of s] by (auto simp: exec_say_def)
  have "console_ok (ex_con k')" if run: "exec_run (env_io E) (env_program E) name k = ret (r, k')" and c: "console_ok (ex_con k)"
    for name k r k'
  proof -
    obtain x where x: "fat_read (env_io E) name (program_buf k) MAX_PROGRAM_SIZE (ex_fs k) = ret x"
      using run unfolding exec_run_def by (rule bind_run_retE)
    obtain size buf fs where sbf: "x = (size, buf, fs)" by (rule prod_cases3)
    note f = x [unfolded sbf]
    let ?k = "k\<lparr>program_buf := buf, ex_fs := fs\<rparr>"
    show ?thesis
    proof (cases "size < 0")
      case True
      obtain c1 where c1: "exec_say (bytes ''Program not found: '') ?k = ret (?k\<lparr>ex_con := c1\<rparr>)" "console_ok c1"
        using say [of ?k] c by auto
      obtain c2 where c2: "exec_say name (?k\<lparr>ex_con := c1\<rparr>) = ret (?k\<lparr>ex_con := c2\<rparr>)" "console_ok c2"
        using say [of "?k\<lparr>ex_con := c1\<rparr>" name] c1(2) by auto
      obtain c3 where c3: "exec_say crlf (?k\<lparr>ex_con := c2\<rparr>) = ret (?k\<lparr>ex_con := c3\<rparr>)" "console_ok c3"
        using say [of "?k\<lparr>ex_con := c2\<rparr>" crlf] c2(2) by auto
      then show ?thesis using run f True c1 c2 by (auto simp: exec_run_def)
    next
      case False
      then show ?thesis
        using run c f assms(1) by (fastforce simp: exec_run_def bind_run_eq_ret Let_def)
    qed
  qed
  then show ?thesis
    using assms(2) unfolding cmd_run_def
    by (intro within_case within_usage) (auto simp: within_def bind_run_eq_ret keeps_def)
qed

lemma within_color: "keeps st st0 \<Longrightarrow> within st (cmd_color arg st0)"
  unfolding cmd_color_def by (intro frame within_bind_value)

lemmas within_commands =
  within_history within_type within_dir within_cls within_time within_cpuid within_mfetch within_color

lemma within_execute:
  assumes "\<forall>k k'. env_program E k = ret k' \<longrightarrow> console_ok (ex_con k) \<longrightarrow> console_ok (ex_con k')" and "keeps st st0"
  shows "within st (shell_execute E cmd st0)"
proof -
  note leaf = within_commands [OF assms(2)] within_run [OF assms] within_ret(1) [OF assms(2)]
    within_out [OF assms(2)] within_outs [OF assms(2)]
  have simple: "within st (cmd_help st0)" "within st (cmd_ver st0)" "within st (cmd_colorhelp st0)"
    "within st (cmd_echo arg st0)" "within st (cmd_history st0)" for arg
    unfolding cmd_help_def cmd_ver_def cmd_colorhelp_def cmd_echo_def cmd_history_def by (intro leaf within_if within_case)+
  have power: "within st (cmd_halt st0)" "within st (cmd_reboot E st0)" "within st (cmd_shutdown E st0)"
    unfolding cmd_halt_def cmd_reboot_def cmd_shutdown_def
    by (rule within_bind [OF leaf(11)], intro within_ret keeps_fields, assumption?)+
  have setprompt: "within st (cmd_setprompt arg st0)" for arg
    unfolding cmd_setprompt_def by (intro leaf frame within_bind_value assms(2))
  have files: "within st (cmd_cd E arg st0)" "within st (cmd_mkdir E arg st0)" "within st (cmd_rmdir E arg st0)"
    "within st (cmd_del E arg st0)" "within st (cmd_ren E arg st0)" "within st (cmd_type E arg st0)"
    "within st (cmd_create E arg st0)" "within st (cmd_copy E arg st0)" "within st (cmd_dir E st0)" for arg
    unfolding cmd_cd_def cmd_mkdir_def cmd_rmdir_def cmd_del_def cmd_ren_def cmd_type_def cmd_create_def cmd_copy_def
      cmd_dir_def Let_def
    by (assumption | intro frame within_bind_pair within_bind within_type within_dir assms(2))+
  show ?thesis
    unfolding shell_execute_def Let_def by (intro within_if simple power setprompt files leaf)
qed

lemma within_prompt: "keeps st st0 \<Longrightarrow> within st (print_prompt st0)"
proof -
  assume k: "keeps st st0"
  have col: "within st (colored fg s st1)" if "keeps st st1" for fg s st1
    using that unfolding colored_def by (intro frame)
  have rec: "keeps st (recolor (restore_color x) st1)" if "keeps st st1" for x st1
    using that by (simp add: keeps_def recolor_con restore_color_def console_ok_def)
  show "within st (print_prompt st0)"
    unfolding print_prompt_def Let_def using k
    by - (rule within_bind_value, intro within_bind col, assumption+, rule within_bind_value,
      intro within_bind col within_ret rec)
qed

text \<open>The environment a program may not spoil: the screen it returns with is well-formed.\<close>

abbreviation program_safe :: "'d shell_env \<Rightarrow> bool" where
  "program_safe E \<equiv> \<forall>k k'. env_program E k = ret k' \<longrightarrow> console_ok (ex_con k) \<longrightarrow> console_ok (ex_con k')"

text \<open>One line, whatever the command: if it returns, it has added itself to the history.\<close>

lemma any_line:
  assumes "program_safe E" and "line_ok st" "shell_len st = 0" "history_count st < 10"
    and keys: "0x0A \<notin> set keys" "0 \<notin> set keys" "edited 255 keys \<noteq> []"
    and run: "feed (shell_handle_char E) (keys @ [0x0A]) st = ret st'"
  shows "line_ok st'" "shell_len st' = 0" "history_count st' = history_count st + 1" "past st' = edited 255 keys # past st"
proof -
  obtain st1 where st1: "feed (shell_handle_char E) (keys @ [0x0A]) st = bind_run
      (history_save (edited 255 keys) st1) (run_line E (edited 255 keys))" "typing_since st st1"
    using typed_line [where E = E, OF assms(2,3) keys(1,2)] keys(3) by auto
  have "length (edited 255 keys) < 256" using length_edited [of 255 keys] by simp
  moreover have "0 \<notin> set (edited 255 keys)" using set_edited [of 255 keys] keys(2) by auto
  ultimately obtain st2 where st2: "history_save (edited 255 keys) st1 = ret st2" "line_ok st2"
    "past st2 = edited 255 keys # past st" "history_count st2 = history_count st + 1"
    using saved_line [OF st1(2) assms(4)] by metis
  have "run_line E (edited 255 keys) st2 = ret st'" using run st1(1) st2(1) by simp
  then obtain st3 where st3: "shell_execute E (edited 255 keys) st2 = ret st3"
    "print_prompt (st3\<lparr>shell_len := 0\<rparr>) = ret st'" unfolding run_line_def by (rule bind_run_retE)
  have "keeps st2 st2" using st2(2) by (simp add: keeps_def line_ok_def)
  then have k3: "keeps st2 st3" using within_execute [OF assms(1)] st3(1) by (auto simp: within_def)
  then have "keeps (st3\<lparr>shell_len := 0\<rparr>) (st3\<lparr>shell_len := 0\<rparr>)" by (simp add: keeps_def)
  then have k4: "keeps (st3\<lparr>shell_len := 0\<rparr>) st'" using within_prompt st3(2) by (auto simp: within_def)
  show "line_ok st'" "shell_len st' = 0" "history_count st' = history_count st + 1" "past st' = edited 255 keys # past st"
    using k3 k4 st2(2-4) by (simp_all add: keeps_def line_ok_def past_def)
qed

lemma any_lines:
  assumes "program_safe E"
  shows "line_ok st \<Longrightarrow> shell_len st = 0 \<Longrightarrow> history_count st + length lines \<le> 10 \<Longrightarrow>
     \<forall>keys \<in> set lines. 0x0A \<notin> set keys \<and> 0 \<notin> set keys \<and> edited 255 keys \<noteq> [] \<Longrightarrow>
     feed (shell_handle_char E) (concat (map (\<lambda>keys. keys @ [0x0A]) lines)) st = ret st' \<Longrightarrow>
     line_ok st' \<and> shell_len st' = 0 \<and> history_count st' = history_count st + length lines \<and>
       past st' = rev (map (edited 255) lines) @ past st"
proof (induction lines arbitrary: st)
  case (Cons keys lines)
  obtain st1 where st1: "feed (shell_handle_char E) (keys @ [0x0A]) st = ret st1"
    "feed (shell_handle_char E) (concat (map (\<lambda>keys. keys @ [0x0A]) lines)) st1 = ret st'"
    using Cons.prems(5) by (simp only: list.map concat.simps feed_append [of _ "keys @ [0x0A]"]) (rule bind_run_retE)
  have k: "history_count st < 10" "0x0A \<notin> set keys" "0 \<notin> set keys" "edited 255 keys \<noteq> []"
    using Cons.prems(3,4) by auto
  note l = any_line [OF assms Cons.prems(1,2) k st1(1)]
  have "history_count st1 + length lines \<le> 10" using l(3) Cons.prems(3) by simp
  from Cons.IH [OF l(1,2) this _ st1(2)] show ?case using Cons.prems(4) l(3,4) by simp
qed simp

lemma full_history_faults:
  assumes "line_ok st" "shell_len st = 0" "history_count st = 10"
    and keys: "0x0A \<notin> set keys" "0 \<notin> set keys" "edited 255 keys \<noteq> []"
  shows "feed (shell_handle_char E) (keys @ [0x0A]) st = fail OutOfBounds"
proof -
  obtain st1 where st1: "feed (shell_handle_char E) (keys @ [0x0A]) st = bind_run
      (history_save (edited 255 keys) st1) (run_line E (edited 255 keys))" "typing_since st st1"
    using typed_line [where E = E, OF assms(1,2) keys(1,2)] keys(3) by auto
  have "length (history st1) = 10" "history_count st1 = 10"
    using assms(3) typing_sinceE [OF st1(2)] unfolding line_ok_def by metis+
  then show ?thesis using st1(1) by (simp add: history_save_full)
qed

text \<open>One line with the command \<^verbatim>\<open>ver\<close>.\<close>

lemma ver_line:
  assumes "shell_ok st" "shell_len st = 0" "history_count st < 10"
  obtains st' where "feed (shell_handle_char E) (bytes ''ver'' @ [0x0A]) st = ret st'" "shell_ok st'"
    "shell_len st' = 0" "history_count st' = history_count st + 1" "past st' = bytes ''ver'' # past st"
proof -
  have e: "edited 255 (bytes ''ver'') = bytes ''ver''"
    by (simp add: edited_def edit_char_def bytes_def)
  have v: "0x0A \<notin> set (bytes ''ver'')" "0 \<notin> set (bytes ''ver'')" "bytes ''ver'' \<noteq> []" "length (bytes ''ver'') < 256"
    by (simp_all add: bytes_def)
  obtain st1 where st1: "feed (shell_handle_char E) (bytes ''ver'' @ [0x0A]) st =
      bind_run (history_save (bytes ''ver'') st1) (run_line E (bytes ''ver''))" "typing_since st st1"
    using typed_line [OF shell_line_ok [OF assms(1)] assms(2) v(1,2), of E] v(3) by (auto simp: e)
  obtain st2 where st2: "history_save (bytes ''ver'') st1 = ret st2" "shell_ok st2"
    "past st2 = bytes ''ver'' # past st" "history_count st2 = history_count st + 1"
    using saved_line [OF st1(2) assms(3) v(4,2)] assms(1) by metis
  obtain c where c: "cmd_ver st2 = ret (with_con c st2)" "console_ok c"
    using out_ok [of st2] st2(2) unfolding cmd_ver_def by (auto simp: shell_ok_def)
  let ?st3 = "(with_con c st2)\<lparr>shell_len := 0\<rparr>"
  have "shell_ok ?st3" using st2(2) c(2) by (simp add: shell_ok_def)
  then obtain c' where c': "print_prompt ?st3 = ret (with_con c' ?st3)" "console_ok c'" by (rule prompt_ok)
  have "shell_ok (with_con c' ?st3)" using \<open>shell_ok ?st3\<close> c'(2) by (rule shell_ok_con)
  then show thesis
    using st1(1) st2(1,3,4) c(1) c'(1)
    by (intro that [of "with_con c' ?st3"]) (simp_all add: run_line_def execute_ver past_def)
qed

section \<open>Properties\<close>

text \<open>
  Property C36: a typed line is executed. Keys (with backspaces, cut at 255 characters) followed
  by Enter save the edited line in the history, in front of the earlier commands, execute
  exactly that line on an otherwise unchanged system, and print the prompt.
\<close>

theorem line_executed:
  assumes "shell_ok st" and "shell_len st = 0" and "0x0A \<notin> set keys" and "0 \<notin> set keys"
    and "edited 255 keys \<noteq> []" and "history_count st < 10"
  shows "\<exists>st1. feed (shell_handle_char E) (keys @ [0x0A]) st =
      bind_run (shell_execute E (edited 255 keys) st1) (\<lambda>st. print_prompt (st\<lparr>shell_len := 0\<rparr>)) \<and>
    shell_ok st1 \<and> past st1 = edited 255 keys # past st \<and> ex_fs (kern st1) = ex_fs (kern st) \<and>
    prompt_name st1 = prompt_name st"
proof -
  obtain st1 where st1: "feed (shell_handle_char E) (keys @ [0x0A]) st = bind_run
      (if edited 255 keys \<noteq> [] then history_save (edited 255 keys) st1 else ret st1) (run_line E (edited 255 keys))"
    "typing_since st st1" by (rule typed_line [where E = E, OF shell_line_ok [OF assms(1)] assms(2-4)])
  have "length (edited 255 keys) < 256" using length_edited [of 255 keys] by simp
  moreover have "0 \<notin> set (edited 255 keys)" using set_edited [of 255 keys] assms(4) by auto
  ultimately obtain st2 where "history_save (edited 255 keys) st1 = ret st2" "shell_ok st2"
    "past st2 = edited 255 keys # past st" "ex_fs (kern st2) = ex_fs (kern st)" "prompt_name st2 = prompt_name st"
    using saved_line [OF st1(2) assms(6)] assms(1) by metis
  then show ?thesis using st1(1) assms(5) by (auto simp: run_line_def)
qed

lemma ver_lines:
  "shell_ok st \<Longrightarrow> shell_len st = 0 \<Longrightarrow> history_count st + n \<le> 10 \<Longrightarrow>
     \<exists>st'. feed (shell_handle_char E) (concat (replicate n (bytes ''ver'' @ [0x0A]))) st = ret st' \<and> shell_ok st' \<and>
       shell_len st' = 0 \<and> history_count st' = history_count st + n \<and> past st' = replicate n (bytes ''ver'') @ past st"
proof (induction n arbitrary: st)
  case (Suc n)
  then have "history_count st < 10" by simp
  from ver_line [where E = E, OF Suc.prems(1,2) this] obtain st1 where
    st1: "feed (shell_handle_char E) (bytes ''ver'' @ [0x0A]) st = ret st1" "shell_ok st1"
      "shell_len st1 = 0" "history_count st1 = history_count st + 1" "past st1 = bytes ''ver'' # past st" .
  have "history_count st1 + n \<le> 10" using st1(4) Suc.prems(3) by simp
  from Suc.IH [OF st1(2,3) this] obtain st' where
    "feed (shell_handle_char E) (concat (replicate n (bytes ''ver'' @ [0x0A]))) st1 = ret st'" "shell_ok st'"
    "shell_len st' = 0" "history_count st' = history_count st1 + n" "past st' = replicate n (bytes ''ver'') @ past st1"
    by blast
  moreover have "feed (shell_handle_char E) (concat (replicate (Suc n) (bytes ''ver'' @ [0x0A]))) st =
      feed (shell_handle_char E) (concat (replicate n (bytes ''ver'' @ [0x0A]))) st1"
    using st1(1) by (simp only: replicate_Suc concat.simps feed_append [of _ "bytes ''ver'' @ [0x0A]"] bind_ret)
  moreover have "replicate n (bytes ''ver'') @ bytes ''ver'' # past st = replicate (Suc n) (bytes ''ver'') @ past st"
    by (simp add: replicate_app_Cons_same)
  ultimately show ?case using st1(4,5) by auto
qed simp

text \<open>
  Property C37: the history overflows. When ten non-empty lines, whatever their commands, have
  been typed into a fresh shell and have returned, the history holds them, the latest first,
  and the next non-empty line faults when Enter is pressed: it is written to a row of
  \<^verbatim>\<open>history\<close> that does not exist. A program started with \<^verbatim>\<open>run\<close> is assumed to leave the
  cursor on the screen.
\<close>

theorem eleventh_line_faults:
  assumes "program_safe E" and "shell_ok st" and "shell_len st = 0" and "history_count st = 0"
    and "length lines = 10" and "\<forall>l \<in> set (keys # lines). 0x0A \<notin> set l \<and> 0 \<notin> set l \<and> edited 255 l \<noteq> []"
    and "feed (shell_handle_char E) (concat (map (\<lambda>l. l @ [0x0A]) lines)) st = ret st'"
  shows "past st' = rev (map (edited 255) lines) \<and>
    feed (shell_handle_char E) (keys @ [0x0A]) st' = fail OutOfBounds"
proof -
  have "past st = []" using assms(4) by (simp add: past_def)
  have n: "history_count st + length lines \<le> 10" using assms(4,5) by simp
  have l: "\<forall>l \<in> set lines. 0x0A \<notin> set l \<and> 0 \<notin> set l \<and> edited 255 l \<noteq> []"
    "0x0A \<notin> set keys" "0 \<notin> set keys" "edited 255 keys \<noteq> []" using assms(6) by simp_all
  have "line_ok st' \<and> shell_len st' = 0 \<and> history_count st' = 10 \<and> past st' = rev (map (edited 255) lines)"
    using any_lines [OF assms(1) shell_line_ok [OF assms(2)] assms(3) n l(1) assms(7)] assms(4,5)
      \<open>past st = []\<close> by simp
  then show ?thesis using full_history_faults [of st' keys E] l(2-4) by blast
qed

text \<open>A shell as it is after \<^verbatim>\<open>shell_init\<close>, on the small volume.\<close>

definition sample_env :: "(u32 \<Rightarrow> u8 list) shell_env" where
  "sample_env = \<lparr>env_io = mem_io,
     env_ports = \<lparr>inPortB = (\<lambda>p m. (0, m)), outPortB = (\<lambda>p b m. m), inPortW = (\<lambda>p m. (0, m)), outPortW = (\<lambda>p b m. m)\<rparr>,
     env_program = ret, env_cpuid = (0x756E6547, 0x6C65746E, 0x49656E69)\<rparr>"

definition sample_shell :: "(u32 \<Rightarrow> u8 list) shell_state" where
  "sample_shell = \<lparr>kern = \<lparr>ex_fs = sample_volume, ex_con = blank_screen, ex_mem = sample_memory, program_buf = replicate 65536 0\<rparr>,
     prompt_name = bytes ''user'' @ replicate 28 0, history = replicate 10 (replicate 256 0), history_count = 0,
     shell_buf = replicate 256 0, shell_len = 0, file_buf = replicate 32768 0, ticks = 0, total_mem_kb = 0\<rparr>"

lemma sample_shell_ok: "shell_ok sample_shell" "shell_len sample_shell = 0" "history_count sample_shell = 0"
  by (simp_all add: shell_ok_def sample_shell_def blank_screen_ok nul_buffer_def bytes_def sample_volume_def list_all_iff)

theorem line_executed_witness:
  "\<exists>st1. feed (shell_handle_char sample_env) (bytes ''dur'' @ [0x08, 0x08] @ bytes ''ir'' @ [0x0A]) sample_shell =
      bind_run (shell_execute sample_env (bytes ''dir'') st1) (\<lambda>st. print_prompt (st\<lparr>shell_len := 0\<rparr>)) \<and>
    past st1 = [bytes ''dir'']"
proof -
  let ?keys = "bytes ''dur'' @ [0x08, 0x08] @ bytes ''ir''"
  have e: "edited 255 ?keys = bytes ''dir''" by (simp add: edited_def edit_char_def bytes_def)
  have k: "0x0A \<notin> set ?keys" "0 \<notin> set ?keys" "edited 255 ?keys \<noteq> []"
    unfolding e by (simp_all add: bytes_def)
  show ?thesis
    using line_executed [OF sample_shell_ok(1,2) k, of sample_env] sample_shell_ok(3)
    unfolding e by (auto simp: past_def)
qed

theorem eleventh_line_faults_witness:
  "\<exists>st'. feed (shell_handle_char sample_env) (concat (replicate 10 (bytes ''ver'' @ [0x0A]))) sample_shell = ret st' \<and>
    past st' = replicate 10 (bytes ''ver'') \<and>
    feed (shell_handle_char sample_env) (bytes ''dir'' @ [0x0A]) st' = fail OutOfBounds"
proof -
  have "history_count sample_shell + 10 \<le> 10" using sample_shell_ok(3) by simp
  from ver_lines [OF sample_shell_ok(1,2) this, of sample_env] obtain st' where
    st': "feed (shell_handle_char sample_env) (concat (replicate 10 (bytes ''ver'' @ [0x0A]))) sample_shell = ret st'"
    by blast
  let ?lines = "replicate 10 (bytes ''ver'')"
  have e: "edited 255 (bytes ''ver'') = bytes ''ver''" "edited 255 (bytes ''dir'') = bytes ''dir''"
    by (simp_all add: edited_def edit_char_def bytes_def)
  have safe: "program_safe sample_env" by (simp add: sample_env_def)
  have l: "length ?lines = 10" "map (\<lambda>l. l @ [0x0A]) ?lines = replicate 10 (bytes ''ver'' @ [0x0A])" by simp_all
  have "\<forall>l \<in> set (bytes ''dir'' # ?lines). 0x0A \<notin> set l \<and> 0 \<notin> set l \<and> edited 255 l \<noteq> []"
    using e by (simp add: bytes_def)
  from eleventh_line_faults [OF safe sample_shell_ok l(1) this, of st'] st' show ?thesis
    unfolding l(2) using e(1) by (auto simp: rev_replicate)
qed

end
