(* ===== verification/Shell_Files.thy ===== *)
theory Shell_Files
  imports Shell_Line Ata
begin

unbundle bit_operations_syntax

text \<open>
  The shell on top of the file system on top of the ATA driver: what the commands that write
  and show files do with the disk and the screen.
\<close>

section \<open>Dispatch\<close>

lemma execute_create: "s \<noteq> [] \<Longrightarrow> shell_execute E (bytes ''create '' @ s) st = cmd_create E (Some s) st"
  by (cases s) (simp_all add: shell_execute_def verb_bytes)

lemma execute_type: "s \<noteq> [] \<Longrightarrow> shell_execute E (bytes ''type '' @ s) st = cmd_type E (Some s) st"
  by (cases s) (simp_all add: shell_execute_def verb_bytes)

lemma execute_del: "s \<noteq> [] \<Longrightarrow> shell_execute E (bytes ''del '' @ s) st = cmd_del E (Some s) st"
  by (cases s) (simp_all add: shell_execute_def verb_bytes)

section \<open>Showing a file\<close>

text \<open>What \<^verbatim>\<open>type\<close> prints for a content: no carriage returns, line feeds as CR LF, no NUL.\<close>

definition shown :: "u8 list \<Rightarrow> u8 list" where
  "shown content = concat (map (\<lambda>b. if b = 0x0D then [] else if b = 0x0A then crlf else cstr [b, 0]) content)"

lemma shown_plain: "list_all (\<lambda>b. b \<noteq> 0x0D \<and> b \<noteq> 0x0A \<and> b \<noteq> 0) s \<Longrightarrow> shown s = s"
  by (induction s) (auto simp: shown_def cstr_def)

lemma type_from_shown:
  "i + n \<le> length buf \<Longrightarrow> type_from buf i n st = out (shown (take n (drop i buf))) st"
proof (induction n arbitrary: i st)
  case 0
  then show ?case by (simp add: shown_def out_con)
next
  case (Suc n)
  have "take (Suc n) (drop i buf) = buf ! i # take n (drop (i + 1) buf)"
    using Suc.prems by (simp add: Cons_nth_drop_Suc [symmetric])
  moreover have "(if buf ! i = 0x0D then ret st else if buf ! i = 0x0A then out crlf st else out (cstr [buf ! i, 0]) st) =
      out (if buf ! i = 0x0D then [] else if buf ! i = 0x0A then crlf else cstr [buf ! i, 0]) st"
    by (simp add: out_con)
  ultimately show ?case
    using Suc by (simp add: shown_def out_append cong: bind_run_cong)
qed

text \<open>The state after an operation of the file system.\<close>

definition with_fs :: "'d fat_state \<Rightarrow> 'd shell_state \<Rightarrow> 'd shell_state" where
  "with_fs fs st = st\<lparr>kern := (kern st)\<lparr>ex_fs := fs\<rparr>\<rparr>"

lemma with_fs_simps [simp]:
  "ex_fs (kern (with_fs fs st)) = fs" "ex_con (kern (with_fs fs st)) = ex_con (kern st)"
  "file_buf (with_fs fs st) = file_buf st"
  by (simp_all add: with_fs_def)

lemma on_fs_with: "on_fs f st = bind_run (f (ex_fs (kern st))) (\<lambda>(r, fs). ret (r, with_fs fs st))"
  by (simp add: on_fs_def with_fs_def)

lemma cmd_create_writes:
  assumes "fat_write (env_io E) name text (of_nat (length text)) (ex_fs (kern st)) = ret (r, fs)"
    and "0x20 \<notin> set name" "length name < 32" "text \<noteq> []"
  shows "cmd_create E (Some (name @ 0x20 # text)) st = ret (with_fs fs st)"
  using assms by (simp add: cmd_create_def first_word_space k_arg_space k_strlen_length on_fs_with Let_def)

lemma cmd_type_shows:
  assumes "fat_read (env_io E) name (file_buf st) (32 * 1024) (ex_fs (kern st)) = ret (int n, buf, fs)"
    and "n \<le> length buf"
  shows "cmd_type E (Some name) st =
    out (shown (take n buf) @ crlf) ((with_fs fs st)\<lparr>file_buf := buf\<rparr>)"
  using assms by (simp add: cmd_type_def read_file_buf_def on_fs_with type_from_shown out_append)

lemma storable_word:
  assumes "storable name"
  shows "0x20 \<notin> set name" "length name < 32"
  using assms by (auto simp: storable_def valid_83_def Let_def list_all_iff)

text \<open>Over any reliable device.\<close>

lemma create_then_type:
  assumes "shell_ok st" and m: "mounted (env_io E) good disk capacity lim (ex_fs (kern st))"
    and "storable name" "name \<noteq> []" and "no_file disk (ex_fs (kern st)) name"
    and "slot (entries_of disk (ex_fs (kern st))) \<noteq> None"
    and "text \<noteq> []" "length text \<le> 32 * 1024"
    and "length text \<le> card (free_clusters disk lim (ex_fs (kern st))) * (512 * spc_of (ex_fs (kern st)))"
  obtains st1 st2 where "shell_execute E (bytes ''create '' @ name @ 0x20 # text) st = ret st1"
    "shell_execute E (bytes ''type '' @ name) st1 = out (shown text @ crlf) st2"
    "ex_con (kern st2) = ex_con (kern st)"
    "mounted (env_io E) good disk capacity lim (ex_fs (kern st1))"
proof -
  have n: "unat (of_nat (length text) :: u32) = length text"
    using assms(8) by (simp add: unsigned_of_nat take_bit_nat_eq_self)
  obtain fs1 k cs where w: "mounted (env_io E) good disk capacity lim fs1"
    "fat_write (env_io E) name text (of_nat (length text)) (ex_fs (kern st)) = ret (0, fs1)"
    "file_of disk lim fs1 name k cs text"
    using write_new [OF m assms(3,5,6) n _ assms(9)] assms(8) by auto
  have c: "shell_execute E (bytes ''create '' @ name @ 0x20 # text) st = ret (with_fs fs1 st)"
    using cmd_create_writes [OF w(2) storable_word [OF assms(3)] assms(7)] by (simp add: execute_create)
  have buf: "length (file_buf st) = 32 * 1024" using assms(1) by (simp add: shell_ok_def)
  then have "unat (32 * 1024 :: u32) \<le> length (file_buf st)" by simp
  then obtain fs2 where r: "fat_read (env_io E) name (file_buf st) (32 * 1024) fs1 =
      ret (int (length text), splice (file_buf st) 0 text, fs2)"
    using read_file [OF w(1,3), of "32 * 1024" "file_buf st"] assms(8) by auto
  have "shell_execute E (bytes ''type '' @ name) (with_fs fs1 st) = out (shown text @ crlf)
      ((with_fs fs2 (with_fs fs1 st))\<lparr>file_buf := splice (file_buf st) 0 text\<rparr>)"
    using cmd_type_shows [of E name "with_fs fs1 st" "length text" "splice (file_buf st) 0 text" fs2] r buf assms(4,8)
    by (simp add: execute_type) (simp add: splice_def)
  with c show thesis by (rule that) (simp_all add: w(1))
qed

context pio_drive
begin

lemma drive_reliable:
  "reliable_device (ata_io P) (drive_ready phase media capacity drive) (\<lambda>d. media (hw d)) capacity"
  by (rule ata.reliable_device_axioms)

end

section \<open>Properties\<close>

text \<open>
  Property C38: the whole path from the command line to the disk and back. On an ATA drive with
  a mounted volume, the command \<^verbatim>\<open>create\<close> with a new valid name stores its text through the ATA
  driver, and a following \<^verbatim>\<open>type\<close> of that name reads it back from the drive and prints exactly that
  text (as \<open>shown\<close>) and a line end, whatever is on the screen.
\<close>

theorem create_then_type_over_ata:
  assumes "pio_drive P phase regs latency media capacity drive" and "env_io E = ata_io P"
    and "shell_ok st" and "volume capacity lim (ex_fs (kern st))" and "current_dir_cluster (ex_fs (kern st)) = 0"
    and "drive_ready phase media capacity drive (dev (ex_fs (kern st)))" and "bufs_ok (fat_bufs (ex_fs (kern st)))"
    and "storable name" and "name \<noteq> []" and "no_file (\<lambda>d. media (hw d)) (ex_fs (kern st)) name"
    and "slot (entries_of (\<lambda>d. media (hw d)) (ex_fs (kern st))) \<noteq> None"
    and "text \<noteq> []" and "length text \<le> 32 * 1024"
    and "length text \<le> card (free_clusters (\<lambda>d. media (hw d)) lim (ex_fs (kern st))) * (512 * spc_of (ex_fs (kern st)))"
  shows "\<exists>st1 st2. shell_execute E (bytes ''create '' @ name @ 0x20 # text) st = ret st1 \<and>
    shell_execute E (bytes ''type '' @ name) st1 = out (shown text @ crlf) st2 \<and>
    ex_con (kern st2) = ex_con (kern st)"
proof -
  have "reliable_device (ata_io P) (drive_ready phase media capacity drive) (\<lambda>d. media (hw d)) capacity"
    by (rule pio_drive.drive_reliable [OF assms(1)])
  then have "mounted (env_io E) (drive_ready phase media capacity drive) (\<lambda>d. media (hw d)) capacity lim (ex_fs (kern st))"
    using assms(2,4-7) by (simp add: mounted_def)
  from create_then_type [OF assms(3) this assms(8-14)] show ?thesis by metis
qed

text \<open>The small volume on the simulated drive.\<close>

definition ata_volume :: "sim_drive ata_state fat_state" where
  "ata_volume = \<lparr>params = params sample_volume, initialized = True, fat_start = 1, root_start = 3, data_start = 4,
     root_sectors = 1, current_dir_cluster = 0, current_path = current_path sample_volume,
     fat_bufs = fat_bufs sample_volume,
     dev = \<lparr>ata_drive = ATA_SLAVE, hw = \<lparr>s_phase = Idle, s_regs = (\<lambda>_. 0), s_busy = 0, s_media = sample_disk\<rparr>\<rparr>\<rparr>"

definition ata_env :: "sim_drive ata_state shell_env" where
  "ata_env = \<lparr>env_io = ata_io sim_ports,
     env_ports = \<lparr>inPortB = (\<lambda>p m. (0, m)), outPortB = (\<lambda>p b m. m), inPortW = (\<lambda>p m. (0, m)), outPortW = (\<lambda>p b m. m)\<rparr>,
     env_program = ret, env_cpuid = (0, 0, 0)\<rparr>"

definition ata_shell :: "sim_drive ata_state shell_state" where
  "ata_shell = \<lparr>kern = \<lparr>ex_fs = ata_volume, ex_con = blank_screen, ex_mem = sample_memory, program_buf = []\<rparr>,
     prompt_name = bytes ''user'' @ replicate 28 0, history = replicate 10 (replicate 256 0), history_count = 0,
     shell_buf = replicate 256 0, shell_len = 0, file_buf = replicate 32768 0, ticks = 0, total_mem_kb = 0\<rparr>"

lemma ata_shell_ok: "shell_ok ata_shell"
  by (simp add: shell_ok_def ata_shell_def ata_volume_def blank_screen_ok nul_buffer_def bytes_def sample_volume_def list_all_iff)

lemma ata_same:
  "entries_of (\<lambda>d. s_media (hw d)) ata_volume = entries_of (\<lambda>d. d) sample_volume"
  "free_clusters (\<lambda>d. s_media (hw d)) 20 ata_volume = free_clusters (\<lambda>d. d) 20 sample_volume"
  "spc_of ata_volume = 1" "volume 0x10000 20 ata_volume" "bufs_ok (fat_bufs ata_volume)"
  "current_dir_cluster ata_volume = 0" "dev sample_volume = sample_disk"
  by (simp_all add: entries_of_def root_entries_def root_lbas_def free_clusters_def table_of_def fat_table_def
      image_def ata_volume_def sample_volume_def spf_of_def copies_of_def spc_of_def volume_def bufs_ok_def)

lemma ata_volume_ready: "drive_ready s_phase s_media 0x10000 ATA_SLAVE (dev ata_volume)"
  using sample_mounted ata_same(7) by (simp add: drive_ready_def ata_volume_def mounted_def mem_good_def)

theorem create_then_type_over_ata_witness:
  "\<exists>st1 st2. shell_execute ata_env (bytes ''create B hello'') ata_shell = ret st1 \<and>
    shell_execute ata_env (bytes ''type B'') st1 = out (bytes ''hello'' @ crlf) st2 \<and> ex_con (kern st2) = blank_screen"
proof -
  have f: "ex_fs (kern ata_shell) = ata_volume" "ex_con (kern ata_shell) = blank_screen" "env_io ata_env = ata_io sim_ports"
    by (simp_all add: ata_shell_def ata_env_def)
  have "no_file (\<lambda>d. s_media (hw d)) ata_volume (bytes ''B'')"
    using sample_none by (simp add: no_file_def ata_same(1))
  moreover have "slot (entries_of (\<lambda>d. s_media (hw d)) ata_volume) \<noteq> None"
    using sample_slot by (simp add: ata_same(1))
  moreover have "length (bytes ''hello'') \<le> card (free_clusters (\<lambda>d. s_media (hw d)) 20 ata_volume) * (512 * spc_of ata_volume)"
    using sample_room unfolding ata_same(2,3) by (simp add: bytes_def)
  moreover have "bytes ''B'' \<noteq> []" "bytes ''hello'' \<noteq> []" "length (bytes ''hello'') \<le> 32 * 1024"
    by (simp_all add: bytes_def)
  ultimately have "\<exists>st1 st2. shell_execute ata_env (bytes ''create '' @ bytes ''B'' @ 0x20 # bytes ''hello'') ata_shell = ret st1 \<and>
      shell_execute ata_env (bytes ''type '' @ bytes ''B'') st1 = out (shown (bytes ''hello'') @ crlf) st2 \<and>
      ex_con (kern st2) = blank_screen"
    using create_then_type_over_ata [OF sim.pio_drive_axioms f(3) ata_shell_ok, unfolded f(1,2), OF ata_same(4,6)
        ata_volume_ready ata_same(5) storable_B] by blast
  moreover have "shown (bytes ''hello'') = bytes ''hello''" by (rule shown_plain) (simp add: bytes_def)
  ultimately show ?thesis by (simp add: bytes_def)
qed

end
