(* ===== verification/Kernel.thy ===== *)
theory Kernel
  imports Shell_Files Login Keyboard Gdt Vga
begin

unbundle bit_operations_syntax

text \<open>
  The whole kernel: \<^verbatim>\<open>kmain\<close> of \<^verbatim>\<open>kernel.c\<close> up to the wait for a login, and the running system, in
  which interrupts call the keyboard driver, the keyboard driver calls the handler of the login or
  of the shell, and the main thread takes its turns between them. The screen and the character
  handler are shared: the login runs on a view of the kernel's state.
\<close>

section \<open>State\<close>

text \<open>
  The machine: its ports, its byte stores to video memory, what a loaded program and \<^verbatim>\<open>cpuid\<close> do,
  and the addresses the linker chose.
\<close>

record 'm machine =
  mach_ports :: "'m ports"
  mach_poke :: "u32 \<Rightarrow> u8 \<Rightarrow> 'm \<Rightarrow> 'm"
  mach_program :: "'m ata_state exec_state \<Rightarrow> 'm ata_state exec_state run"
  mach_cpuid :: "u32 \<times> u32 \<times> u32"
  gdt_addr :: u32
  tss_addr :: u32
  idt_addr :: u32
  isr_stub :: "nat \<Rightarrow> u32"
  irq_stub :: "nat \<Rightarrow> u32"

datatype kernel_handler = LoginHandler login_handler | ShellHandler

datatype kernel_routine = KeybHandler

text \<open>Where the main thread is: in \<^verbatim>\<open>login\<close>, before the first prompt, or in the final loop.\<close>

datatype kernel_pc = InLogin | AtPrompt | Forever

record 'm kernel =
  k_gdt :: gdt_state
  k_idt :: idt_state
  k_routines :: "kernel_routine routine option list"
  k_keyb :: "kernel_handler keyboard"
  k_heap :: heap_state
  k_login :: login_state
  k_shell :: "'m ata_state shell_state"
  k_pc :: kernel_pc

text \<open>The ports, seen from the state of the disk driver.\<close>

definition drive_ports :: "'m ports \<Rightarrow> 'm ata_state ports" where
  "drive_ports P =
     \<lparr>inPortB = (\<lambda>p d. case inPortB P p (hw d) of (b, m) \<Rightarrow> (b, d\<lparr>hw := m\<rparr>)),
      outPortB = (\<lambda>p b d. d\<lparr>hw := outPortB P p b (hw d)\<rparr>),
      inPortW = (\<lambda>p d. case inPortW P p (hw d) of (w, m) \<Rightarrow> (w, d\<lparr>hw := m\<rparr>)),
      outPortW = (\<lambda>p w d. d\<lparr>hw := outPortW P p w (hw d)\<rparr>)\<rparr>"

definition mach_env :: "'m machine \<Rightarrow> 'm ata_state shell_env" where
  "mach_env M = \<lparr>env_io = ata_io (mach_ports M), env_ports = drive_ports (mach_ports M),
     env_program = mach_program M, env_cpuid = mach_cpuid M\<rparr>"

definition k_hw :: "'m kernel \<Rightarrow> 'm" where
  "k_hw k = hw (hardware (k_shell k))"

definition set_hw :: "'m \<Rightarrow> 'm kernel \<Rightarrow> 'm kernel" where
  "set_hw m k = k\<lparr>k_shell := set_hardware ((hardware (k_shell k))\<lparr>hw := m\<rparr>) (k_shell k)\<rparr>"

definition in_shell ::
    "('m ata_state shell_state \<Rightarrow> 'm ata_state shell_state run) \<Rightarrow> 'm kernel \<Rightarrow> 'm kernel run" where
  "in_shell f k = bind_run (f (k_shell k)) (\<lambda>s. ret (k\<lparr>k_shell := s\<rparr>))"

definition on_mem ::
    "(mem_state \<Rightarrow> mem_state run) \<Rightarrow> 'm ata_state shell_state \<Rightarrow> 'm ata_state shell_state run" where
  "on_mem f s = bind_run (f (ex_mem (kern s))) (\<lambda>mem. ret (s\<lparr>kern := (kern s)\<lparr>ex_mem := mem\<rparr>\<rparr>))"

definition kprint :: "string \<Rightarrow> 'm kernel \<Rightarrow> 'm kernel run" where
  "kprint s k = in_shell (out (bytes s @ crlf)) k"

text \<open>The login's variables: its own, the screen, and the character handler of the keyboard.\<close>

definition login_view :: "'m kernel \<Rightarrow> login_state" where
  "login_view k = (k_login k)\<lparr>screen := ex_con (kern (k_shell k)),
     handler := (case char_handler (k_keyb k) of Some (LoginHandler h) \<Rightarrow> Some h | _ \<Rightarrow> None)\<rparr>"

definition put_login :: "login_state \<Rightarrow> 'm kernel \<Rightarrow> 'm kernel" where
  "put_login l k = k\<lparr>k_login := l, k_shell := with_con (screen l) (k_shell k),
     k_keyb := keyboard_set_char_handler (map_option LoginHandler (handler l)) (k_keyb k)\<rparr>"

definition in_login :: "(login_state \<Rightarrow> login_state run) \<Rightarrow> 'm kernel \<Rightarrow> 'm kernel run" where
  "in_login f k = bind_run (f (login_view k)) (\<lambda>l. ret (put_login l k))"

section \<open>Boot\<close>

text \<open>
  \<^verbatim>\<open>kmain\<close> up to the timer. The boot is modelled without interrupts: from the timer's installation on
  one of line 0 would only advance the clock, and no key has a handler before the login.
\<close>

definition kmain_devices :: "'m machine \<Rightarrow> u32 \<Rightarrow> 'm kernel \<Rightarrow> 'm kernel run" where
  "kmain_devices M mem_upper k =
     (let P = mach_ports M; k = k\<lparr>k_shell := (k_shell k)\<lparr>total_mem_kb := mem_upper\<rparr>\<rparr>
      in bind_run (VGALF8X8F P (mach_poke M) (k_hw k)) (\<lambda>m.
         let k = set_hw m k
         in bind_run (in_shell (\<lambda>s. cmd_cls (recolor (\<lambda>c. c\<lparr>VGAHeight := 50\<rparr>) s)) k) (\<lambda>k.
            bind_run (speaker_play P 800 (k_hw k)) (\<lambda>m.
            bind_run (kprint ''Welcome to MasterOS!'' (set_hw m k)) (\<lambda>k.
            bind_run (kprint ''VGA Driver(s) [DONE]'' k) (\<lambda>k.
            bind_run (initGDT (gdt_addr M) (tss_addr M) (k_gdt k)) (\<lambda>g.
            bind_run (kprint ''GDT [DONE]'' (k\<lparr>k_gdt := g\<rparr>)) (\<lambda>k.
            case initIDT P (idt_addr M) (isr_stub M) (irq_stub M) (k_idt k, k_hw k) of (t, m) \<Rightarrow>
              bind_run (kprint ''IDT [DONE]'' (set_hw m (k\<lparr>k_idt := t\<rparr>))) (\<lambda>k.
              bind_run (initTimer P (k_routines k, k_hw k)) (\<lambda>(ticks, routines, m).
                ret (set_hw m (k\<lparr>k_routines := routines, k_shell := (k_shell k)\<lparr>ticks := ticks\<rparr>\<rparr>))))))))))))"

definition kmain_memory :: "u32 \<Rightarrow> 'm kernel \<Rightarrow> 'm kernel run" where
  "kmain_memory mem_upper k =
     bind_run (in_shell (on_mem (\<lambda>mem. ret (initMemory (mem_upper * 1024) 0x200000 mem))) k) (\<lambda>k.
     bind_run (kprint ''Memory Allocation [DONE]'' k) (\<lambda>k.
     bind_run (kmallocInit 0x1000 (k_heap k) (ex_mem (kern (k_shell k)))) (\<lambda>(h, mem).
       in_shell (on_mem (\<lambda>_. ret mem)) (k\<lparr>k_heap := h\<rparr>))))"

definition kmain_disk :: "'m machine \<Rightarrow> 'm kernel \<Rightarrow> 'm kernel run" where
  "kmain_disk M k =
     (case ata_init (mach_ports M) (hardware (k_shell k)) of (r, d) \<Rightarrow>
      bind_run (kprint (if r = 0 then ''ATA [DONE]'' else ''ATA [FAILED - no disk detected]'')
         (k\<lparr>k_shell := set_hardware d (k_shell k)\<rparr>)) (\<lambda>k.
      bind_run (on_fs (fat_init (env_io (mach_env M))) (k_shell k)) (\<lambda>(r, s).
        kprint (if r = 0 then ''FAT [DONE]'' else ''FAT [FAILED]'') (k\<lparr>k_shell := s\<rparr>))))"

definition kmain_input :: "'m machine \<Rightarrow> 'm kernel \<Rightarrow> 'm kernel run" where
  "kmain_input M k =
     (let k = set_hw (speaker_stop (mach_ports M) (k_hw k)) k
      in bind_run (initKeyb KeybHandler (k_keyb k, k_routines k)) (\<lambda>(kb, routines).
         bind_run (kprint ''Keyboard [DONE]'' (k\<lparr>k_keyb := kb, k_routines := routines\<rparr>)) (\<lambda>k.
         bind_run (in_shell (on_mem (memMapPage 0xB8000 0xB8000 (1 OR 2))) k) (\<lambda>k.
           kprint ''User Memory Map [DONE]'' k))))"

text \<open>All of it, and \<^verbatim>\<open>login\<close> to its first wait.\<close>

definition kmain :: "'m machine \<Rightarrow> u32 \<Rightarrow> 'm kernel \<Rightarrow> 'm kernel run" where
  "kmain M mem_upper k =
     bind_run (kmain_devices M mem_upper k) (\<lambda>k.
     bind_run (kmain_memory mem_upper k) (\<lambda>k.
     bind_run (kmain_disk M k) (\<lambda>k.
     bind_run (kmain_input M k) (\<lambda>k.
       in_login login_start (k\<lparr>k_pc := InLogin\<rparr>)))))"

section \<open>The running system\<close>

text \<open>The installed character handlers.\<close>

definition call_handler :: "'m machine \<Rightarrow> kernel_handler \<Rightarrow> u8 \<Rightarrow> 'm kernel \<Rightarrow> 'm kernel run" where
  "call_handler M h c k =
     (case h of
        LoginHandler HandleChar \<Rightarrow> in_login (login_handle_char c) k
      | LoginHandler HandlePass \<Rightarrow> in_login (login_handle_pass c) k
      | ShellHandler \<Rightarrow> in_shell (shell_handle_char (mach_env M) c) k)"

text \<open>The installed interrupt routines.\<close>

definition kernel_call ::
    "'m machine \<Rightarrow> kernel_routine routine \<Rightarrow> InterruptRegisters \<Rightarrow> 'm kernel \<times> 'm \<Rightarrow> ('m kernel \<times> 'm) run" where
  "kernel_call M r regs s =
     (case s of (k, m) \<Rightarrow>
      case r of
        OnIrq0 \<Rightarrow> ret (k\<lparr>k_shell := (k_shell k)\<lparr>ticks := onIrq0 (ticks (k_shell k))\<rparr>\<rparr>, m)
      | Other KeybHandler \<Rightarrow>
          bind_run (keybHandler (mach_ports M) (k_keyb k, m)) (\<lambda>(call, kb, m).
            let k = set_hw m (k\<lparr>k_keyb := kb\<rparr>)
            in bind_run (case call of None \<Rightarrow> ret k | Some (h, c) \<Rightarrow> call_handler M h c k)
                 (\<lambda>k. ret (k, k_hw k))))"

definition kernel_irq :: "'m machine \<Rightarrow> InterruptRegisters \<Rightarrow> 'm kernel \<Rightarrow> 'm kernel run" where
  "kernel_irq M regs k =
     bind_run (irq_handler (mach_ports M) (kernel_call M) (k_routines k) regs (k, k_hw k))
       (\<lambda>(k, m). ret (set_hw m k))"

text \<open>A turn of the main thread, to the next point at which it waits or a handler is installed.\<close>

definition kernel_turn :: "'m machine \<Rightarrow> 'm kernel \<Rightarrow> 'm kernel run" where
  "kernel_turn M k =
     (case k_pc k of
        InLogin \<Rightarrow>
          bind_run (in_login login_turn k) (\<lambda>k.
            if pc (k_login k) = LoggedIn
            then bind_run (in_shell shell_init k) (\<lambda>k.
                   ret (k\<lparr>k_keyb := keyboard_set_char_handler (Some ShellHandler) (k_keyb k), k_pc := AtPrompt\<rparr>))
            else ret k)
      | AtPrompt \<Rightarrow>
          bind_run (in_shell print_prompt k) (\<lambda>k.
            ret (k\<lparr>k_shell := recolor reset_color (k_shell k), k_pc := Forever\<rparr>))
      | Forever \<Rightarrow> ret k)"

section \<open>Frames\<close>

text \<open>What \<^verbatim>\<open>print\<close> makes of a screen on which it returns.\<close>

definition printed :: "u8 list \<Rightarrow> console \<Rightarrow> console" where
  "printed s c = (case print s c of Some (Inr c') \<Rightarrow> c' | _ \<Rightarrow> c)"

lemma print_printed:
  assumes "console_ok c"
  shows "print s c = ret (printed s c)" and "console_ok (printed s c)"
  using print_ok [OF assms, of s] by (auto simp: printed_def)

lemma shell_ok_console: "shell_ok s \<Longrightarrow> console_ok (ex_con (kern s))"
  by (simp add: shell_ok_def)

lemma shell_ok_fields [simp]:
  "shell_ok (set_hardware d s) = shell_ok s" "shell_ok (s\<lparr>ticks := t\<rparr>) = shell_ok s"
  "shell_ok (s\<lparr>total_mem_kb := n\<rparr>) = shell_ok s"
  "shell_ok (s\<lparr>kern := (kern s)\<lparr>ex_fs := (ex_fs (kern s))\<lparr>dev := d\<rparr>\<rparr>\<rparr>) = shell_ok s" "shell_ok (s\<lparr>kern := (kern s)\<lparr>ex_mem := mem\<rparr>\<rparr>) = shell_ok s"
  by (simp_all add: shell_ok_def set_hardware_def)

lemma set_hw_simps [simp]:
  "k_gdt (set_hw m k) = k_gdt k" "k_idt (set_hw m k) = k_idt k" "k_routines (set_hw m k) = k_routines k"
  "k_keyb (set_hw m k) = k_keyb k" "k_heap (set_hw m k) = k_heap k" "k_login (set_hw m k) = k_login k"
  "k_pc (set_hw m k) = k_pc k" "k_hw (set_hw m k) = m" "set_hw m (set_hw m' k) = set_hw m k"
  "set_hw (k_hw k) k = k" "login_view (set_hw m k) = login_view k"
  "shell_ok (k_shell (set_hw m k)) = shell_ok (k_shell k)"
  by (simp_all add: set_hw_def k_hw_def hardware_def set_hardware_def login_view_def)

lemma hardware_set_hw:
  "hardware (k_shell (set_hw m k)) = (hardware (k_shell k))\<lparr>hw := m\<rparr>" "hardware (s\<lparr>ticks := n\<rparr>) = hardware s"
  by (simp_all add: set_hw_def set_hardware_def hardware_def)

definition kprinted :: "string \<Rightarrow> 'm kernel \<Rightarrow> 'm kernel" where
  "kprinted s k = k\<lparr>k_shell := with_con (printed (bytes s @ crlf) (ex_con (kern (k_shell k)))) (k_shell k)\<rparr>"

lemma kprint_eq: "shell_ok (k_shell k) \<Longrightarrow> kprint s k = ret (kprinted s k)"
  by (simp add: kprint_def in_shell_def out_con kprinted_def print_printed(1) shell_ok_console)

lemma kprinted_shell_ok: "shell_ok (k_shell k) \<Longrightarrow> shell_ok (k_shell (kprinted s k))"
  by (simp add: kprinted_def print_printed(2) shell_ok_con shell_ok_console)

text \<open>The parts of the state that a line of text leaves alone.\<close>

lemma kprinted_simps [simp]:
  "k_gdt (kprinted s k) = k_gdt k" "k_idt (kprinted s k) = k_idt k" "k_routines (kprinted s k) = k_routines k"
  "k_keyb (kprinted s k) = k_keyb k" "k_heap (kprinted s k) = k_heap k" "k_login (kprinted s k) = k_login k"
  "k_pc (kprinted s k) = k_pc k" "k_hw (kprinted s k) = k_hw k" "k_hw (k\<lparr>k_gdt := g\<rparr>) = k_hw k"
  "k_hw (k\<lparr>k_idt := t\<rparr>) = k_hw k" "k_hw (k\<lparr>k_keyb := kb\<rparr>) = k_hw k" "k_hw (k\<lparr>k_routines := rs\<rparr>) = k_hw k"
  "hardware (k_shell (kprinted s k)) = hardware (k_shell k)" "ex_fs (kern (k_shell (kprinted s k))) = ex_fs (kern (k_shell k))"
  "ex_mem (kern (k_shell (kprinted s k))) = ex_mem (kern (k_shell k))" "ticks (k_shell (kprinted s k)) = ticks (k_shell k)"
  "total_mem_kb (k_shell (kprinted s k)) = total_mem_kb (k_shell k)"
  "history_count (k_shell (kprinted s k)) = history_count (k_shell k)"
  "shell_len (k_shell (kprinted s k)) = shell_len (k_shell k)"
  by (simp_all add: kprinted_def k_hw_def hardware_def)

lemma set_hw_shell [simp]:
  "ex_con (kern (k_shell (set_hw m k))) = ex_con (kern (k_shell k))" "ex_mem (kern (k_shell (set_hw m k))) = ex_mem (kern (k_shell k))"
  "ticks (k_shell (set_hw m k)) = ticks (k_shell k)" "total_mem_kb (k_shell (set_hw m k)) = total_mem_kb (k_shell k)"
  "history_count (k_shell (set_hw m k)) = history_count (k_shell k)" "shell_len (k_shell (set_hw m k)) = shell_len (k_shell k)"
  "shell_buf (k_shell (set_hw m k)) = shell_buf (k_shell k)"
  by (simp_all add: set_hw_def set_hardware_def)

text \<open>Nothing of the shell has changed but the screen, the hardware, the memory and the counters.\<close>

definition same_shell :: "'d shell_state \<Rightarrow> 'd shell_state \<Rightarrow> bool" where
  "same_shell s s' \<longleftrightarrow> shell_ok s' \<and> prompt_name s' = prompt_name s \<and> history s' = history s \<and>
     history_count s' = history_count s \<and> shell_buf s' = shell_buf s \<and> shell_len s' = shell_len s \<and>
     file_buf s' = file_buf s \<and> program_buf (kern s') = program_buf (kern s) \<and>
     ex_fs (kern s') = (ex_fs (kern s))\<lparr>dev := hardware s'\<rparr>"

lemma same_shell_refl: "shell_ok s \<Longrightarrow> same_shell s s"
  by (simp add: same_shell_def hardware_def)

lemma same_shell_trans: "same_shell s s1 \<Longrightarrow> same_shell s1 s2 \<Longrightarrow> same_shell s s2"
  by (simp add: same_shell_def)

lemma same_shell_steps:
  "shell_ok s \<Longrightarrow> same_shell s (set_hardware d s)"
  "shell_ok s \<Longrightarrow> console_ok c \<Longrightarrow> same_shell s (with_con c s)"
  "shell_ok s \<Longrightarrow> same_shell s (s\<lparr>ticks := t\<rparr>)"
  by (simp_all add: same_shell_def set_hardware_def hardware_def shell_ok_con)

section \<open>The phases of the boot\<close>

text \<open>What the machine can become by accesses to its other devices only.\<close>

definition disk_port :: "u16 \<Rightarrow> bool" where
  "disk_port p \<longleftrightarrow> 0x1F0 \<le> p \<and> p \<le> 0x1F7"

inductive off_disk :: "'m machine \<Rightarrow> 'm \<Rightarrow> 'm \<Rightarrow> bool" for M m where
  here: "off_disk M m m"
| byte_out: "off_disk M m m1 \<Longrightarrow> \<not> disk_port p \<Longrightarrow> off_disk M m (outPortB (mach_ports M) p b m1)"
| byte_in: "off_disk M m m1 \<Longrightarrow> \<not> disk_port p \<Longrightarrow> off_disk M m (snd (inPortB (mach_ports M) p m1))"
| store: "off_disk M m m1 \<Longrightarrow> off_disk M m (mach_poke M a b m1)"

lemma off_disk_out_all:
  "off_disk M m m1 \<Longrightarrow> list_all (\<lambda>(p, b). \<not> disk_port p) ws \<Longrightarrow> off_disk M m (out_all (mach_ports M) ws m1)"
  by (induction "mach_ports M" ws m1 rule: out_all.induct) (auto intro: off_disk.byte_out)

lemma off_disk_poke_all: "off_disk M m m1 \<Longrightarrow> off_disk M m (poke_all (mach_poke M) a bs m1)"
  by (induction "mach_poke M" a bs m1 rule: poke_all.induct) (auto intro: off_disk.store)

text \<open>The font has all its glyphs, so that loading it returns.\<close>

lemma font_loads:
  assumes "off_disk M m0 m"
  obtains m' where "VGALF8X8F (mach_ports M) (mach_poke M) m = ret m'" "off_disk M m0 m'"
proof -
  let ?P = "mach_ports M"
  have "0 + unat (8 :: u32) * 256 \<le> length IBM_VGA_8x8_bin" using length_font by (simp add: IBM_VGA_8x8_bin_len_def)
  note load = load_chars_poke [OF this, of "mach_poke M"]
  show thesis
    unfolding VGALF8X8F_def VGALF_def load bind_ret Let_def case_prod_beta'
    by (rule that [unfolded VGALF8X8F_def VGALF_def load bind_ret Let_def case_prod_beta', OF refl])
      (intro off_disk_out_all off_disk.byte_in off_disk.byte_out off_disk_poke_all assms; simp add: disk_port_def)
qed

lemma note_returns:
  assumes "off_disk M m0 m" and "n \<noteq> 0"
  obtains m' where "speaker_play (mach_ports M) n m = ret m'" "off_disk M m0 m'"
proof -
  let ?P = "mach_ports M"
  obtain b m1 where r: "inPortB ?P 0x61 (outPortB ?P 0x42 (ucast (drop_bit 8 (1193180 div n)))
      (outPortB ?P 0x42 (ucast (1193180 div n)) (outPortB ?P 0x43 0xB6 m))) = (b, m1)" by (rule prod.exhaust)
  have "off_disk M m0 (snd (inPortB ?P 0x61 (outPortB ?P 0x42 (ucast (drop_bit 8 (1193180 div n)))
      (outPortB ?P 0x42 (ucast (1193180 div n)) (outPortB ?P 0x43 0xB6 m)))))"
    by (intro off_disk.byte_in off_disk.byte_out assms(1)) (simp_all add: disk_port_def)
  then have m1: "off_disk M m0 m1" by (simp add: r)
  have "speaker_play ?P n m = ret (if b \<noteq> (b OR 3) then outPortB ?P 0x61 (b OR 3) m1 else m1)"
    using assms(2) r by (simp add: speaker_play_def Let_def)
  then show thesis by (rule that) (simp add: m1 off_disk.byte_out disk_port_def)
qed

lemma timer_starts:
  assumes "off_disk M m0 m" and "length routines = 16"
  obtains m' where "initTimer (mach_ports M) (routines, m) = ret (0, routines[0 := Some OnIrq0], m')" "off_disk M m0 m'"
proof -
  let ?divisor = "1193180 div freq"
  let ?m = "outPortB (mach_ports M) 0x40 (ucast (drop_bit 8 ?divisor AND 0xFF))
    (outPortB (mach_ports M) 0x40 (ucast (?divisor AND 0xFF)) (outPortB (mach_ports M) 0x43 0x36 m))"
  have "initTimer (mach_ports M) (routines, m) = ret (0, routines[0 := Some OnIrq0], ?m)"
    using assms(2) by (cases routines) (simp_all add: initTimer_def irq_install_handler_def Let_def)
  moreover have "off_disk M m0 ?m" by (intro off_disk.byte_out assms(1)) (simp_all add: disk_port_def)
  ultimately show thesis by (rule that)
qed

text \<open>The machine as the loader leaves it: static storage cleared or initialised, 80 columns of text.\<close>

definition loaded :: "'m kernel \<Rightarrow> bool" where
  "loaded k \<longleftrightarrow> shell_ok (k_shell k) \<and> VGAWidth (ex_con (kern (k_shell k))) = 80 \<and>
     4000 \<le> length (vga (ex_con (kern (k_shell k)))) \<and> length (gdt_entries (k_gdt k)) = 6 \<and>
     k_routines k = irq_routines \<and> char_handler (k_keyb k) = None \<and>
     input_buf (k_login k) = replicate MAX_INPUT 0 \<and> input_len (k_login k) = 0"

lemma kmain_devices_ok:
  assumes l: "loaded k"
  obtains k' where "kmain_devices M mu k = ret k'" "shell_ok (k_shell k')"
    "initGDT (gdt_addr M) (tss_addr M) (k_gdt k) = ret (k_gdt k')"
    "\<forall>m. k_idt k' = fst (initIDT (mach_ports M) (idt_addr M) (isr_stub M) (irq_stub M) (k_idt k, m))"
    "k_routines k' = (k_routines k)[0 := Some OnIrq0]" "k_keyb k' = k_keyb k" "k_login k' = k_login k"
    "history_count (k_shell k') = history_count (k_shell k)" "shell_len (k_shell k') = shell_len (k_shell k)"
    "ex_mem (kern (k_shell k')) = ex_mem (kern (k_shell k))" "total_mem_kb (k_shell k') = mu" "ticks (k_shell k') = 0"
    "off_disk M (k_hw k) (k_hw k')" "ata_drive (hardware (k_shell k')) = ata_drive (hardware (k_shell k))"
proof -
  let ?P = "mach_ports M" and ?c = "ex_con (kern (k_shell k))"
  define k0 where "k0 = k\<lparr>k_shell := (k_shell k)\<lparr>total_mem_kb := mu\<rparr>\<rparr>"
  have ok: "shell_ok (k_shell k)" "VGAWidth ?c = 80" "4000 \<le> length (vga ?c)" "length (k_routines k) = 16"
    using l by (simp_all add: loaded_def irq_routines_def)
  have "off_disk M (k_hw k) (k_hw k0)" by (simp add: k0_def k_hw_def hardware_def off_disk.here)
  then obtain m1 where m1: "VGALF8X8F ?P (mach_poke M) (k_hw k0) = ret m1" "off_disk M (k_hw k) m1" by (rule font_loads)
  define c1 where "c1 = ?c\<lparr>VGAHeight := 50, vga := splice (vga ?c) 0 (replicate 4000 (0x20 OR currColor ?c)), column := 0, line := 0\<rparr>"
  have c1: "console_ok c1" using ok by (simp add: c1_def console_ok_def splice_def)
  define k1 where "k1 = (set_hw m1 k0)\<lparr>k_shell := with_con c1 (k_shell (set_hw m1 k0))\<rparr>"
  have r: "in_shell (\<lambda>s. cmd_cls (recolor (\<lambda>c. c\<lparr>VGAHeight := 50\<rparr>) s)) (set_hw m1 k0) = ret k1"
    using ok(2,3) by (simp add: in_shell_def cmd_cls_def recolor_con Reset_def fill_cells_splice k1_def k0_def c1_def
      set_hw_def set_hardware_def)
  have k1: "shell_ok (k_shell k1)" using ok(1) c1 by (simp add: k1_def k0_def shell_ok_con)
  have "k_hw k1 = m1" by (simp add: k1_def k0_def k_hw_def hardware_def set_hw_def set_hardware_def)
  then obtain m2 where m2: "speaker_play ?P 800 (k_hw k1) = ret m2" "off_disk M (k_hw k) m2"
    using note_returns [where n = 800, OF m1(2)] by auto
  obtain g where g: "initGDT (gdt_addr M) (tss_addr M) (k_gdt k) = ret g"
    using initGDT_returns [of "k_gdt k"] l by (auto simp: returns_def loaded_def)
  define k2 where "k2 = kprinted ''GDT [DONE]'' ((kprinted ''VGA Driver(s) [DONE]''
    (kprinted ''Welcome to MasterOS!'' (set_hw m2 k1)))\<lparr>k_gdt := g\<rparr>)"
  obtain t m3 where t: "initIDT ?P (idt_addr M) (isr_stub M) (irq_stub M) (k_idt k, m2) = (t, m3)" by (rule prod.exhaust)
  define k3 where "k3 = kprinted ''IDT [DONE]'' (set_hw m3 (k2\<lparr>k_idt := t\<rparr>))"
  have "m3 = out_all ?P pic_writes m2" using t by (simp add: initIDT_def Let_def)
  moreover have "list_all (\<lambda>(p, b). \<not> disk_port p) pic_writes" by (simp add: pic_writes_def disk_port_def)
  ultimately have m3: "off_disk M (k_hw k) m3" using off_disk_out_all [OF m2(2)] by blast
  obtain m4 where m4: "initTimer ?P (k_routines k, m3) = ret (0, (k_routines k)[0 := Some OnIrq0], m4)" "off_disk M (k_hw k) m4"
    by (rule timer_starts [OF m3 ok(4)])
  have f: "k_gdt k1 = k_gdt k" "k_idt k1 = k_idt k" "k_routines k1 = k_routines k" "k_keyb k1 = k_keyb k"
    "k_login k1 = k_login k" "history_count (k_shell k1) = history_count (k_shell k)" "shell_len (k_shell k1) = shell_len (k_shell k)"
    "ex_mem (kern (k_shell k1)) = ex_mem (kern (k_shell k))" "total_mem_kb (k_shell k1) = mu"
    "ata_drive (hardware (k_shell k1)) = ata_drive (hardware (k_shell k))"
    by (simp_all add: k1_def k0_def hardware_def set_hw_def set_hardware_def)
  have ok2: "shell_ok (k_shell k2)" "shell_ok (k_shell k3)" using k1 by (simp_all add: k2_def k3_def kprinted_shell_ok)
  define k4 where "k4 = set_hw m4 (k3\<lparr>k_routines := (k_routines k)[0 := Some OnIrq0], k_shell := (k_shell k3)\<lparr>ticks := 0\<rparr>\<rparr>)"
  have "kmain_devices M mu k = ret k4"
    unfolding kmain_devices_def Let_def
    by (simp add: k0_def [symmetric] m1(1) r m2(1) kprint_eq k1 kprinted_shell_ok f g k2_def [symmetric] t ok2
      k3_def [symmetric] m4(1) k4_def)
  moreover have "\<forall>m. t = fst (initIDT ?P (idt_addr M) (isr_stub M) (irq_stub M) (k_idt k, m))"
    using t by (auto simp: initIDT_def Let_def)
  ultimately show thesis
    using ok2 g f m4(2) by (intro that [of k4]) (simp_all add: k4_def k3_def k2_def hardware_set_hw)
qed

text \<open>What the later phases keep.\<close>

definition boot_kept :: "'m kernel \<Rightarrow> 'm kernel \<Rightarrow> bool" where
  "boot_kept k k' \<longleftrightarrow> shell_ok (k_shell k') \<and> k_gdt k' = k_gdt k \<and> k_idt k' = k_idt k \<and> k_login k' = k_login k \<and>
     char_handler (k_keyb k') = char_handler (k_keyb k) \<and> history_count (k_shell k') = history_count (k_shell k) \<and>
     total_mem_kb (k_shell k') = total_mem_kb (k_shell k) \<and> ticks (k_shell k') = ticks (k_shell k)"

lemma kmain_memory_ok:
  assumes "shell_ok (k_shell k)"
    and "kmallocInit 0x1000 (k_heap k) (initMemory (mu * 1024) 0x200000 (ex_mem (kern (k_shell k)))) = ret (h, mem)"
  obtains k' where "kmain_memory mu k = ret k'" "boot_kept k k'" "ex_mem (kern (k_shell k')) = mem" "k_heap k' = h"
    "k_routines k' = k_routines k" "k_keyb k' = k_keyb k" "hardware (k_shell k') = hardware (k_shell k)"
proof -
  define k1 where "k1 = k\<lparr>k_shell := (k_shell k)\<lparr>kern := (kern (k_shell k))\<lparr>ex_mem :=
    initMemory (mu * 1024) 0x200000 (ex_mem (kern (k_shell k)))\<rparr>\<rparr>\<rparr>"
  have ok1: "shell_ok (k_shell k1)" using assms(1) by (simp add: k1_def)
  define k2 where "k2 = kprinted ''Memory Allocation [DONE]'' k1"
  have ok2: "shell_ok (k_shell k2)" using kprinted_shell_ok [OF ok1] by (simp add: k2_def)
  define k3 where "k3 = k2\<lparr>k_heap := h, k_shell := (k_shell k2)\<lparr>kern := (kern (k_shell k2))\<lparr>ex_mem := mem\<rparr>\<rparr>\<rparr>"
  have m: "kmallocInit 0x1000 (k_heap k2) (ex_mem (kern (k_shell k2))) = ret (h, mem)"
    using assms(2) by (simp add: k2_def k1_def)
  have "in_shell (on_mem (\<lambda>mem. ret (initMemory (mu * 1024) 0x200000 mem))) k = ret k1"
    by (simp add: in_shell_def on_mem_def k1_def)
  moreover have "in_shell (on_mem (\<lambda>_. ret mem)) (k2\<lparr>k_heap := h\<rparr>) = ret k3"
    by (simp add: in_shell_def on_mem_def k3_def)
  ultimately have "kmain_memory mu k = ret k3"
    by (simp add: kmain_memory_def kprint_eq [OF ok1] k2_def [symmetric] m)
  moreover have "boot_kept k k3" using ok2 by (simp add: boot_kept_def k3_def) (simp add: k2_def k1_def)
  ultimately show thesis by (rule that) (simp_all add: k3_def k2_def k1_def hardware_def)
qed

text \<open>
  As the disk is before the boot: whatever the other devices are made to do, a boot sector that can be
  read names a sector size.
\<close>

definition bootable :: "'m machine \<Rightarrow> 'm ata_state \<Rightarrow> bool" where
  "bootable M d \<longleftrightarrow> (\<forall>m sec d'. off_disk M (hw d) m \<and>
     bread (ata_io (mach_ports M)) (snd (ata_init (mach_ports M) (d\<lparr>hw := m\<rparr>))) 0 = (Some sec, d') \<longrightarrow>
     bytes_per_sector (parse_bpb sec) \<noteq> 0)"

lemma fat_init_returns:
  assumes "\<forall>sec d. bread io (dev fs) 0 = (Some sec, d) \<longrightarrow> bytes_per_sector (parse_bpb sec) \<noteq> 0"
  obtains r fs' where "fat_init io fs = ret (r, fs')" "current_path fs' = current_path fs"
proof -
  obtain x d where b: "bread io (dev fs) 0 = (x, d)" by (rule prod.exhaust)
  show thesis
  proof (cases x)
    case None
    then show ?thesis using b that by (simp add: fat_init_def rd_sector_def)
  next
    case (Some sec)
    then have "bytes_per_sector (parse_bpb sec) \<noteq> 0" using assms b by blast
    then have "(ucast (bytes_per_sector (parse_bpb sec)) :: u32) \<noteq> 0"
      by (simp add: word_unat_eq_iff unat_u16_u32)
    then show ?thesis using b that Some by (simp add: fat_init_def rd_sector_def Let_def)
  qed
qed

lemma kmain_disk_ok:
  assumes ok: "shell_ok (k_shell k)" and "bootable M d0" and "off_disk M (hw d0) (k_hw k)"
    and "ata_drive (hardware (k_shell k)) = ata_drive d0"
  obtains k' where "kmain_disk M k = ret k'" "boot_kept k k'" "ex_mem (kern (k_shell k')) = ex_mem (kern (k_shell k))"
    "k_routines k' = k_routines k" "k_keyb k' = k_keyb k" "k_heap k' = k_heap k"
proof -
  obtain r d where a: "ata_init (mach_ports M) (hardware (k_shell k)) = (r, d)" by (rule prod.exhaust)
  define k1 where "k1 = kprinted (if r = 0 then ''ATA [DONE]'' else ''ATA [FAILED - no disk detected]'')
         (k\<lparr>k_shell := set_hardware d (k_shell k)\<rparr>)"
  have ok1: "shell_ok (k_shell k1)" using ok by (simp add: k1_def kprinted_shell_ok)
  have "d0\<lparr>hw := k_hw k\<rparr> = hardware (k_shell k)" using assms(4) by (simp add: k_hw_def)
  moreover have "dev (ex_fs (kern (k_shell k1))) = d"
    by (simp add: k1_def set_hardware_def)
  ultimately have "\<forall>sec d'. bread (ata_io (mach_ports M)) (dev (ex_fs (kern (k_shell k1)))) 0 = (Some sec, d') \<longrightarrow>
      bytes_per_sector (parse_bpb sec) \<noteq> 0"
    using assms(2,3) a unfolding bootable_def by (metis snd_conv)
  then obtain r' fs where f: "fat_init (ata_io (mach_ports M)) (ex_fs (kern (k_shell k1))) = ret (r', fs)"
    "current_path fs = current_path (ex_fs (kern (k_shell k1)))" by (rule fat_init_returns)
  define s2 where "s2 = (k_shell k1)\<lparr>kern := (kern (k_shell k1))\<lparr>ex_fs := fs\<rparr>\<rparr>"
  have o: "on_fs (fat_init (env_io (mach_env M))) (k_shell k1) = ret (r', s2)"
    using f by (simp add: on_fs_def mach_env_def s2_def)
  have ok2: "shell_ok s2" using ok1 f(2) by (simp add: s2_def shell_ok_def)
  define k2 where "k2 = kprinted (if r' = 0 then ''FAT [DONE]'' else ''FAT [FAILED]'') (k1\<lparr>k_shell := s2\<rparr>)"
  have "kmain_disk M k = ret k2"
    unfolding kmain_disk_def a prod.case using ok ok2 by (simp add: kprint_eq k1_def [symmetric] o k2_def)
  moreover have "boot_kept k k2"
    using kprinted_shell_ok [of "k1\<lparr>k_shell := s2\<rparr>"] ok2
    by (simp add: boot_kept_def k2_def) (simp add: k1_def s2_def set_hardware_def)
  ultimately show thesis by (rule that) (simp_all add: k2_def k1_def s2_def set_hardware_def)
qed

lemma kmain_input_ok:
  assumes ok: "shell_ok (k_shell k)" and m: "memMapPage 0xB8000 0xB8000 3 (ex_mem (kern (k_shell k))) = ret mem"
    and r: "length (k_routines k) = 16"
  obtains k' where "kmain_input M k = ret k'" "boot_kept k k'" "ex_mem (kern (k_shell k')) = mem"
    "k_routines k' = (k_routines k)[1 := Some (Other KeybHandler)]" "\<not> capsOn (k_keyb k')" "\<not> capsLock (k_keyb k')"
    "k_heap k' = k_heap k"
proof -
  define k1 where "k1 = set_hw (speaker_stop (mach_ports M) (k_hw k)) k"
  define kb where "kb = (k_keyb k)\<lparr>capsOn := False, capsLock := False\<rparr>"
  have i: "initKeyb KeybHandler (k_keyb k, k_routines k) = ret (kb, (k_routines k)[1 := Some (Other KeybHandler)])"
    using r by (simp add: initKeyb_def irq_install_handler_def kb_def)
  define k2 where "k2 = kprinted ''Keyboard [DONE]'' (k1\<lparr>k_keyb := kb, k_routines := (k_routines k)[1 := Some (Other KeybHandler)]\<rparr>)"
  have ok2: "shell_ok (k_shell k2)" using ok by (simp add: k2_def k1_def kprinted_shell_ok)
  define k3 where "k3 = k2\<lparr>k_shell := (k_shell k2)\<lparr>kern := (kern (k_shell k2))\<lparr>ex_mem := mem\<rparr>\<rparr>\<rparr>"
  have "in_shell (on_mem (memMapPage 0xB8000 0xB8000 (1 OR 2))) k2 = ret k3"
    using m by (simp add: in_shell_def on_mem_def k3_def k2_def k1_def)
  moreover have ok3: "shell_ok (k_shell k3)" using ok2 by (simp add: k3_def)
  ultimately have "kmain_input M k = ret (kprinted ''User Memory Map [DONE]'' k3)"
    unfolding kmain_input_def Let_def k1_def [symmetric] using ok by (simp add: i kprint_eq k1_def k2_def)
  moreover have "boot_kept k (kprinted ''User Memory Map [DONE]'' k3)"
    using kprinted_shell_ok [OF ok3] by (simp add: boot_kept_def) (simp add: k3_def k2_def k1_def kb_def)
  ultimately show thesis by (rule that) (simp_all add: k3_def k2_def k1_def kb_def)
qed

section \<open>The invariant\<close>

lemma login_view_put [simp]: "login_view (put_login l k) = l"
  by (cases "handler l") (simp_all add: login_view_def put_login_def keyboard_set_char_handler_def)

lemma put_login_simps [simp]:
  "k_gdt (put_login l k) = k_gdt k" "k_idt (put_login l k) = k_idt k" "k_routines (put_login l k) = k_routines k"
  "k_heap (put_login l k) = k_heap k" "k_login (put_login l k) = l" "k_pc (put_login l k) = k_pc k"
  "k_shell (put_login l k) = with_con (screen l) (k_shell k)" "k_hw (put_login l k) = k_hw k"
  "char_handler (k_keyb (put_login l k)) = map_option LoginHandler (handler l)"
  "capsOn (k_keyb (put_login l k)) = capsOn (k_keyb k)" "capsLock (k_keyb (put_login l k)) = capsLock (k_keyb k)"
  by (simp_all add: put_login_def keyboard_set_char_handler_def k_hw_def hardware_def)

lemma login_view_fields [simp]: "pc (login_view k) = pc (k_login k)" "input_buf (login_view k) = input_buf (k_login k)"
  "input_done (login_view k) = input_done (k_login k)" "input_len (login_view k) = input_len (k_login k)"
  "screen (login_view k) = ex_con (kern (k_shell k))" "attempts (login_view k) = attempts (k_login k)"
  by (simp_all add: login_view_def)

text \<open>
  The routines of the timer and the keyboard are installed and no others; during the login the login's
  state is good and the shell has no handler; afterwards the shell has it.
\<close>

definition wired :: "'m kernel \<Rightarrow> bool" where
  "wired k \<longleftrightarrow> k_routines k = [Some OnIrq0, Some (Other KeybHandler)] @ replicate 14 None"

definition kernel_ok :: "'m kernel \<Rightarrow> bool" where
  "kernel_ok k \<longleftrightarrow> shell_ok (k_shell k) \<and> wired k \<and>
     (if k_pc k = InLogin
      then login_ok (login_view k) \<and> pc (k_login k) \<noteq> LoggedIn \<and> char_handler (k_keyb k) \<noteq> Some ShellHandler
      else char_handler (k_keyb k) = Some ShellHandler)"

text \<open>A login state put back into the kernel.\<close>

lemma kernel_ok_put:
  assumes "kernel_ok k" and "login_ok l" and "pc l \<noteq> LoggedIn" and "k_pc k = InLogin"
  shows "kernel_ok (put_login l k)"
proof -
  have "console_ok (screen l)" using assms(2) by (simp add: login_ok_def)
  then show ?thesis using assms by (cases "handler l") (auto simp: kernel_ok_def wired_def shell_ok_con)
qed

lemma kernel_ok_kept:
  "kernel_ok (set_hw m k) = kernel_ok k"
  by (simp add: kernel_ok_def wired_def)

lemma routines_first: "(irq_routines :: 'a option list)[0 := Some a, 1 := Some b] = [Some a, Some b] @ replicate 14 None"
  by (simp add: irq_routines_def numeral_eq_Suc)

lemma kmain_ok:
  assumes "loaded k" and "bootable M (hardware (k_shell k))" and "boot_directory (ex_mem (kern (k_shell k)))"
    and "ipd (ex_mem (kern (k_shell k))) \<noteq> 0x200000" "ipd (ex_mem (kern (k_shell k))) \<noteq> 0x201000"
    and "0x211000 \<le> mem_upper * 1024"
  shows "\<exists>k'. kmain M mem_upper k = ret k' \<and> kernel_ok k' \<and> k_pc k' = InLogin \<and>
    prompting (AskUser 0) (login_view k') \<and> \<not> capsOn (k_keyb k') \<and> \<not> capsLock (k_keyb k') \<and>
    initGDT (gdt_addr M) (tss_addr M) (k_gdt k) = ret (k_gdt k') \<and>
    (\<forall>m. k_idt k' = fst (initIDT (mach_ports M) (idt_addr M) (isr_stub M) (irq_stub M) (k_idt k, m))) \<and>
    wf_tables (ex_mem (kern (k_shell k'))) \<and> view (ex_mem (kern (k_shell k'))) 0xB8000 = Some 0xB8000 \<and>
    total_mem_kb (k_shell k') = mem_upper \<and> ticks (k_shell k') = 0 \<and>
    history_count (k_shell k') = history_count (k_shell k)"
proof -
  obtain k1 where k1: "kmain_devices M mem_upper k = ret k1" "shell_ok (k_shell k1)"
    "initGDT (gdt_addr M) (tss_addr M) (k_gdt k) = ret (k_gdt k1)"
    "\<forall>m. k_idt k1 = fst (initIDT (mach_ports M) (idt_addr M) (isr_stub M) (irq_stub M) (k_idt k, m))"
    "k_routines k1 = (k_routines k)[0 := Some OnIrq0]" "k_keyb k1 = k_keyb k" "k_login k1 = k_login k"
    "history_count (k_shell k1) = history_count (k_shell k)" "shell_len (k_shell k1) = shell_len (k_shell k)"
    "ex_mem (kern (k_shell k1)) = ex_mem (kern (k_shell k))" "total_mem_kb (k_shell k1) = mem_upper" "ticks (k_shell k1) = 0"
    "off_disk M (k_hw k) (k_hw k1)" "ata_drive (hardware (k_shell k1)) = ata_drive (hardware (k_shell k))"
    by (rule kmain_devices_ok [where M = M and mu = mem_upper, OF assms(1)])
  obtain h st1 st2 where mem: "kmallocInit 0x1000 (k_heap k1) (initMemory (mem_upper * 1024) 0x200000 (ex_mem (kern (k_shell k1)))) = ret (h, st1)"
    "memMapPage 0xB8000 0xB8000 3 st1 = ret st2" "view st2 0xB8000 = Some 0xB8000" "wf_tables st2"
    by (rule boot_memory [OF assms(3-6) [folded k1(10)], of "k_heap k1"]) (rule that)
  obtain k2 where k2: "kmain_memory mem_upper k1 = ret k2" "boot_kept k1 k2" "ex_mem (kern (k_shell k2)) = st1"
    "k_heap k2 = h" "k_routines k2 = k_routines k1" "k_keyb k2 = k_keyb k1" "hardware (k_shell k2) = hardware (k_shell k1)"
    by (rule kmain_memory_ok [OF k1(2) mem(1)])
  have ok2: "shell_ok (k_shell k2)" using k2(2) by (simp add: boot_kept_def)
  obtain k3 where k3: "kmain_disk M k2 = ret k3" "boot_kept k2 k3" "ex_mem (kern (k_shell k3)) = ex_mem (kern (k_shell k2))"
    "k_routines k3 = k_routines k2" "k_keyb k3 = k_keyb k2" "k_heap k3 = k_heap k2"
    using kmain_disk_ok [OF ok2 assms(2)] k1(13,14) k2(7) by (metis k_hw_def)
  have ok3: "shell_ok (k_shell k3)" using k3(2) by (simp add: boot_kept_def)
  have "memMapPage 0xB8000 0xB8000 3 (ex_mem (kern (k_shell k3))) = ret st2" using mem(2) k2(3) k3(3) by simp
  moreover have "length (k_routines k3) = 16"
    using assms(1) k1(5) k2(5) k3(4) by (simp add: loaded_def irq_routines_def)
  ultimately obtain k4 where k4: "kmain_input M k3 = ret k4" "boot_kept k3 k4" "ex_mem (kern (k_shell k4)) = st2"
    "k_routines k4 = (k_routines k3)[1 := Some (Other KeybHandler)]" "\<not> capsOn (k_keyb k4)" "\<not> capsLock (k_keyb k4)"
    using kmain_input_ok [OF ok3, of st2 M] by metis
  let ?k = "k4\<lparr>k_pc := InLogin\<rparr>"
  have kept: "shell_ok (k_shell k4)" "k_gdt k4 = k_gdt k1" "k_idt k4 = k_idt k1" "k_login k4 = k_login k"
    "char_handler (k_keyb k4) = char_handler (k_keyb k)" "history_count (k_shell k4) = history_count (k_shell k)"
    "total_mem_kb (k_shell k4) = mem_upper" "ticks (k_shell k4) = 0"
    using k1 k2(2) k3(2) k4(2) by (simp_all add: boot_kept_def)
  have "login_boot (login_view ?k)"
    using assms(1) kept(1,4,5) by (simp add: login_boot_def login_view_def loaded_def shell_ok_console)
  then obtain l where l: "login_start (login_view ?k) = ret l" "login_ok l" "attempts l = 0" "pc l = ReadInput"
    "\<not> input_done l" "input_len l = 0" using login_start_ok by blast
  have "k_routines k4 = [Some OnIrq0, Some (Other KeybHandler)] @ replicate 14 None"
    using assms(1) k1(5) k2(5) k3(4) k4(4) unfolding routines_first [symmetric] loaded_def by simp
  moreover have "console_ok (screen l)" using l(2) by (simp add: login_ok_def)
  ultimately have "kernel_ok (put_login l ?k)"
    using kept(1) l(2,4) by (cases "handler l") (auto simp: kernel_ok_def wired_def shell_ok_con)
  moreover have "prompting (AskUser 0) (login_view (put_login l ?k))"
    unfolding login_view_put using l by (intro prompting_fresh(1)) simp_all
  moreover have "kmain M mem_upper k = ret (put_login l ?k)"
    by (simp add: kmain_def k1(1) k2(1) k3(1) k4(1) in_login_def l(1))
  ultimately show ?thesis
    using k1(3,4) kept k4(3,5,6) mem(3,4) by (intro exI [of _ "put_login l ?k"]) simp
qed


section \<open>Interrupts\<close>

lemma kernel_wired: "kernel_ok k \<Longrightarrow> wired k"
  by (simp add: kernel_ok_def)

lemma kernel_routines:
  assumes "wired k" and "n < 16"
  shows "length (k_routines k) = 16"
    and "k_routines k ! n = (if n = 0 then Some OnIrq0 else if n = 1 then Some (Other KeybHandler) else None)"
  using assms by (auto simp: wired_def nth_append nth_Cons')

lemma kernel_irq_line:
  assumes "wired k" and "on_line n regs"
  shows "kernel_irq M regs k =
    bind_run (if n = 0 then ret (k\<lparr>k_shell := (k_shell k)\<lparr>ticks := onIrq0 (ticks (k_shell k))\<rparr>\<rparr>)
              else if n = 1 then
                bind_run (keybHandler (mach_ports M) (k_keyb k, k_hw k)) (\<lambda>(call, kb, m).
                  case call of None \<Rightarrow> ret (set_hw m (k\<lparr>k_keyb := kb\<rparr>))
                  | Some (h, c) \<Rightarrow> call_handler M h c (set_hw m (k\<lparr>k_keyb := kb\<rparr>)))
              else ret k)
      (\<lambda>k. ret (set_hw (out_all (mach_ports M) (eoi n) (k_hw k)) k))"
proof -
  have n: "n < 16" using assms(2) by (simp add: on_line_def)
  note r = kernel_routines [OF assms(1) n]
  have "k_hw (k\<lparr>k_shell := (k_shell k)\<lparr>ticks := t\<rparr>\<rparr>) = k_hw k" for t by (simp add: k_hw_def hardware_def)
  then show ?thesis
    by (simp add: kernel_irq_def irq_handler_line [OF assms(2) r(1)] r(2) kernel_call_def bind_run_assoc
      case_prod_beta' Let_def cong: bind_run_cong option.case_cong)
qed

lemma same_shell_hw: "shell_ok (k_shell k) \<Longrightarrow> same_shell (k_shell k) (k_shell (set_hw m k))"
  by (simp add: set_hw_def same_shell_steps)

text \<open>During the login the installed handler is the login's, so that a key is a key of the login.\<close>

lemma call_handler_login:
  assumes "char_handler (k_keyb k) = Some h" and "h \<noteq> ShellHandler"
  shows "call_handler M h c k = in_login (login_key c) k"
proof -
  obtain g where "h = LoginHandler g" using assms(2) by (cases h) auto
  then show ?thesis using assms(1) by (cases g) (simp_all add: call_handler_def in_login_def login_key_def login_view_def)
qed

lemma login_key_handler:
  assumes "login_key c l = ret l'"
  shows "handler l' = handler l"
  using assms
  by (auto simp: login_key_def login_handle_char_def login_handle_pass_def put_input_def say_def bind_run_eq_ret
    split: option.splits login_handler.splits if_splits)

lemma kernel_ok_hw:
  assumes "kernel_ok k1" and "same_shell s (k_shell k1)"
  shows "kernel_ok (set_hw m k1)" "same_shell s (k_shell (set_hw m k1))" "login_view (set_hw m k1) = login_view k1"
proof -
  have "shell_ok (k_shell k1)" using assms(1) by (simp add: kernel_ok_def wired_def)
  then show "same_shell s (k_shell (set_hw m k1))" using same_shell_trans [OF assms(2) same_shell_hw] by blast
qed (use assms(1) in \<open>simp_all add: kernel_ok_def wired_def\<close>)

text \<open>A keyboard interrupt during the login: what the keyboard passes on is a key of the login.\<close>

lemma keyb_in_login:
  assumes ok: "kernel_ok k" and l: "k_pc k = InLogin" and n: "on_line 1 regs"
    and kb: "keybHandler (mach_ports M) (k_keyb k, k_hw k) = ret (call, kb, m)" "char_handler kb = char_handler (k_keyb k)"
      "\<forall>h c. call = Some (h, c) \<longrightarrow> char_handler (k_keyb k) = Some h \<and> kb = k_keyb k"
  obtains k' where "kernel_irq M regs k = ret k'" "kernel_ok k'" "k_pc k' = InLogin" "same_shell (k_shell k) (k_shell k')"
    "capsOn (k_keyb k') = capsOn kb" "capsLock (k_keyb k') = capsLock kb"
    "case call of None \<Rightarrow> login_view k' = login_view k | Some (h, c) \<Rightarrow> login_key c (login_view k) = ret (login_view k')"
proof -
  have s: "shell_ok (k_shell k)" and lv: "login_ok (login_view k)" "pc (k_login k) \<noteq> LoggedIn"
    and h: "char_handler (k_keyb k) \<noteq> Some ShellHandler"
    using ok l by (simp_all add: kernel_ok_def wired_def)
  have refl: "same_shell (k_shell k) (k_shell k)" by (rule same_shell_refl [OF s])
  define k1 where "k1 = k\<lparr>k_keyb := kb\<rparr>"
  have k1: "kernel_ok k1" "login_view k1 = login_view k" "k_pc k1 = InLogin" "k_shell k1 = k_shell k" "k_login k1 = k_login k"
    "k_keyb k1 = kb"
    using ok l kb(2) by (simp_all add: kernel_ok_def wired_def k1_def login_view_def)
  have same1: "same_shell (k_shell k) (k_shell k1)" using refl k1(4) by simp
  note irq = kernel_irq_line [OF kernel_wired [OF ok] n, of M] and hw = kernel_ok_hw [OF k1(1) same1]
  show thesis
  proof (cases call)
    case None
    then have "kernel_irq M regs k = ret (set_hw (out_all (mach_ports M) (eoi 1) m) k1)"
      using irq kb(1) by (simp add: k1_def [symmetric])
    then show thesis using None k1 hw by (elim that) simp_all
  next
    case (Some hc)
    obtain g c where gc: "hc = (g, c)" by (cases hc)
    have g: "char_handler (k_keyb (set_hw m k1)) = Some g" "g \<noteq> ShellHandler"
      using kb(3) Some gc h by (auto simp: k1_def)
    obtain l' where l': "login_key c (login_view k) = ret l'" "login_ok l'" "pc l' = pc (k_login k)"
      using key_step [OF lv(1), of c] by auto
    let ?k = "put_login l' (set_hw m k1)"
    have "call_handler M g c (set_hw m k1) = ret ?k"
      unfolding call_handler_login [OF g] by (simp add: in_login_def k1 l')
    then have "kernel_irq M regs k = ret (set_hw (out_all (mach_ports M) (eoi 1) m) ?k)"
      using Some gc irq kb(1) by (simp add: k1_def [symmetric])
    moreover have ok': "kernel_ok ?k"
      using hw(1) k1 l' lv(2) by (intro kernel_ok_put) simp_all
    moreover have "same_shell (k_shell k) (k_shell ?k)"
    proof -
      have "shell_ok (k_shell (set_hw m k1))" using hw(2) by (simp add: same_shell_def)
      moreover have "console_ok (screen l')" using l'(2) by (simp add: login_ok_def)
      ultimately show ?thesis unfolding put_login_simps by (rule same_shell_trans [OF hw(2) same_shell_steps(2)])
    qed
    note hw' = kernel_ok_hw [OF ok' this]
    ultimately show thesis using Some gc k1 hw' l'(1) by (elim that) simp_all
  qed
qed

text \<open>What an interrupt does during the login: at most one key reaches the login.\<close>

lemma irq_in_login:
  assumes ok: "kernel_ok k" and l: "k_pc k = InLogin" and n: "on_line n regs"
  obtains k' where "kernel_irq M regs k = ret k'" "kernel_ok k'" "k_pc k' = InLogin" "same_shell (k_shell k) (k_shell k')"
    "login_view k' = login_view k \<or> (\<exists>c. login_key c (login_view k) = ret (login_view k'))"
proof -
  have s: "shell_ok (k_shell k)" using ok by (simp add: kernel_ok_def wired_def)
  note irq = kernel_irq_line [OF kernel_wired [OF ok] n, of M]
  consider "n = 0" | "n = 1" | "n \<noteq> 0" "n \<noteq> 1" by blast
  then show thesis
  proof cases
    case 1
    let ?k = "k\<lparr>k_shell := (k_shell k)\<lparr>ticks := onIrq0 (ticks (k_shell k))\<rparr>\<rparr>"
    have lvk: "login_view ?k = login_view k" by (simp add: login_view_def)
    moreover have ok': "kernel_ok ?k" using ok unfolding kernel_ok_def wired_def lvk by simp
    moreover have "same_shell (k_shell k) (k_shell ?k)" using same_shell_steps(3) [OF s] by simp
    note hw = kernel_ok_hw [OF ok' this]
    moreover have "kernel_irq M regs k = ret (set_hw (out_all (mach_ports M) (eoi n) (k_hw ?k)) ?k)" using 1 irq by simp
    ultimately show thesis using l by (elim that) simp_all
  next
    case 2
    obtain call kb m where kb: "keybHandler (mach_ports M) (k_keyb k, k_hw k) = ret (call, kb, m)" "char_handler kb = char_handler (k_keyb k)"
      "\<forall>h c. call = Some (h, c) \<longrightarrow> char_handler (k_keyb k) = Some h \<and> kb = k_keyb k" by (rule keybHandler_total)
    show thesis
      by (rule keyb_in_login [where M = M, OF ok l n [unfolded 2] kb])
        (rule that, auto split: option.splits)
  next
    case 3
    then have "kernel_irq M regs k = ret (set_hw (out_all (mach_ports M) (eoi n) (k_hw k)) k)" using irq by simp
    then show thesis using l kernel_ok_hw [OF ok same_shell_refl [OF s]] by (elim that) simp_all
  qed
qed

section \<open>Turns of the main thread\<close>

text \<open>A turn during the login stays in it, or has met the valid password and ends it.\<close>

lemma turn_in_login:
  assumes ok: "kernel_ok k" and l: "k_pc k = InLogin"
  obtains k' where "kernel_turn M k = ret k'" "kernel_ok k'"
    "if k_pc k' = InLogin then same_shell (k_shell k) (k_shell k') \<and> login_turn (login_view k) = ret (login_view k')
     else pc (k_login k) = ReadPassword \<and> input_done (k_login k) \<and> cstr (input_buf (k_login k)) = VALID_PASS"
    "if pc (k_login k) = ReadPassword \<and> input_done (k_login k) \<and> cstr (input_buf (k_login k)) = VALID_PASS
     then k_pc k' = AtPrompt \<and> shell_len (k_shell k') = 0 \<and> history_count (k_shell k') = history_count (k_shell k)
     else k_pc k' = InLogin"
    "capsOn (k_keyb k') = capsOn (k_keyb k)" "capsLock (k_keyb k') = capsLock (k_keyb k)"
proof -
  have s: "shell_ok (k_shell k)" and lv: "login_ok (login_view k)" "pc (k_login k) \<noteq> LoggedIn"
    using ok l by (simp_all add: kernel_ok_def wired_def)
  obtain l' where l': "login_turn (login_view k) = ret l'" "login_ok l'"
    "pc l' = LoggedIn \<longleftrightarrow> pc (k_login k) = ReadPassword \<and> input_done (k_login k) \<and> cstr (input_buf (k_login k)) = VALID_PASS"
    using login_turn_ok [OF lv(1)] lv(2) by (auto split: if_splits)
  have c: "console_ok (screen l')" using l'(2) by (simp add: login_ok_def)
  have same: "same_shell (k_shell k) (with_con (screen l') (k_shell k))" by (rule same_shell_steps(2) [OF s c])
  show thesis
  proof (cases "pc l' = LoggedIn")
    case False
    then have "kernel_turn M k = ret (put_login l' k)" using l l'(1) by (simp add: kernel_turn_def in_login_def)
    moreover have "kernel_ok (put_login l' k)" using False l l'(2) ok by (intro kernel_ok_put)
    ultimately show thesis using False same l l'(1,3) by (elim that) auto
  next
    case True
    let ?s = "(with_con (screen l') (k_shell k))\<lparr>shell_len := 0, shell_buf := (shell_buf (k_shell k))[0 := 0]\<rparr>"
    let ?k = "(put_login l' k)\<lparr>k_shell := ?s, k_keyb := keyboard_set_char_handler (Some ShellHandler) (k_keyb (put_login l' k)), k_pc := AtPrompt\<rparr>"
    have "shell_buf (k_shell k) \<noteq> []" using s by (auto simp: shell_ok_def)
    then have "in_shell shell_init (put_login l' k) = ret ((put_login l' k)\<lparr>k_shell := ?s\<rparr>)"
      by (simp add: in_shell_def shell_init_def)
    then have "kernel_turn M k = ret ?k" using True l l'(1) by (simp add: kernel_turn_def in_login_def)
    moreover have "kernel_ok ?k"
      using ok c by (simp add: kernel_ok_def wired_def keyboard_set_char_handler_def) (simp add: shell_ok_def)
    ultimately show thesis using True l l'(3) by (elim that) (auto simp: keyboard_set_char_handler_def)
  qed
qed


section \<open>The system as a step relation\<close>

text \<open>An interrupt on a line, a change of the hardware by itself, a turn of the main thread.\<close>

inductive kernel_step :: "'m machine \<Rightarrow> 'm kernel \<Rightarrow> 'm kernel \<Rightarrow> bool" for M where
  irq: "on_line n regs \<Longrightarrow> kernel_irq M regs k = ret k' \<Longrightarrow> kernel_step M k k'"
| device: "kernel_step M k (set_hw m k)"
| turn: "kernel_turn M k = ret k' \<Longrightarrow> kernel_step M k k'"

inductive_cases kernel_stepE: "kernel_step M k k'"

text \<open>The runs that are still in the login.\<close>

inductive login_run :: "'m machine \<Rightarrow> 'm kernel \<Rightarrow> 'm kernel \<Rightarrow> bool" for M k0 where
  start: "k_pc k0 = InLogin \<Longrightarrow> login_run M k0 k0"
| step: "login_run M k0 k \<Longrightarrow> kernel_step M k k' \<Longrightarrow> k_pc k' = InLogin \<Longrightarrow> login_run M k0 k'"

lemma step_in_login:
  assumes "kernel_ok k" and "k_pc k = InLogin" and "kernel_step M k k'" and "k_pc k' = InLogin"
  shows "kernel_ok k'" and "same_shell (k_shell k) (k_shell k')"
proof -
  have s: "shell_ok (k_shell k)" using assms(1) by (simp add: kernel_ok_def wired_def)
  from assms(3) have "kernel_ok k' \<and> same_shell (k_shell k) (k_shell k')"
  proof cases
    case (irq n regs)
    obtain k1 where "kernel_irq M regs k = ret k1" "kernel_ok k1" "k_pc k1 = InLogin" "same_shell (k_shell k) (k_shell k1)"
      "login_view k1 = login_view k \<or> (\<exists>c. login_key c (login_view k) = ret (login_view k1))"
      by (rule irq_in_login [where M = M, OF assms(1,2) irq(1)])
    then show ?thesis using irq(2) by simp
  next
    case (device m)
    then show ?thesis using kernel_ok_hw [OF assms(1) same_shell_refl [OF s], of m] by simp
  next
    case turn
    obtain k1 where k1: "kernel_turn M k = ret k1" "kernel_ok k1"
      "if k_pc k1 = InLogin then same_shell (k_shell k) (k_shell k1) \<and> login_turn (login_view k) = ret (login_view k1)
       else pc (k_login k) = ReadPassword \<and> input_done (k_login k) \<and> cstr (input_buf (k_login k)) = VALID_PASS"
      using turn_in_login [where M = M, OF assms(1,2)] by blast
    moreover have "k1 = k'" using turn k1(1) by simp
    ultimately show ?thesis using assms(4) by simp
  qed
  then show "kernel_ok k'" "same_shell (k_shell k) (k_shell k')" by simp_all
qed

lemma login_run_ok:
  assumes "login_run M k0 k" and "kernel_ok k0"
  shows "kernel_ok k \<and> k_pc k = InLogin \<and> same_shell (k_shell k0) (k_shell k)"
  using assms
proof (induction rule: login_run.induct)
  case start
  then show ?case by (simp add: same_shell_refl kernel_ok_def wired_def)
next
  case (step k k')
  then show ?case using step_in_login [OF _ _ step.hyps(2,3)] same_shell_trans by blast
qed

section \<open>Keys\<close>

text \<open>
  A byte of the keyboard: the controller gets it and raises its line. \<open>present\<close> is the controller
  receiving a byte, \<open>regs\<close> the registers the entry stub of line 1 pushes.
\<close>

definition key_irq ::
    "'m machine \<Rightarrow> InterruptRegisters \<Rightarrow> (u8 \<Rightarrow> 'm \<Rightarrow> 'm) \<Rightarrow> u8 \<Rightarrow> 'm kernel \<Rightarrow> 'm kernel run" where
  "key_irq M regs present b k = kernel_irq M regs (set_hw (present b (k_hw k)) k)"


definition at_rest :: "'m kernel \<Rightarrow> bool" where
  "at_rest k \<longleftrightarrow> \<not> capsOn (k_keyb k) \<and> \<not> capsLock (k_keyb k)"



text \<open>The login, with the shell as it was at \<open>s0\<close>.\<close>

definition keys_arrive :: "'m machine \<Rightarrow> InterruptRegisters \<Rightarrow> (u8 \<Rightarrow> 'm \<Rightarrow> 'm) \<Rightarrow> bool" where
  "keys_arrive M regs present \<longleftrightarrow> on_line 1 regs \<and> (\<forall>b m. holds_byte (mach_ports M) b (present b m))"













section \<open>Keys in the shell\<close>






lemma shell_line_hardware [simp]: "shell_line (set_hardware d s) = shell_line s"
  by (simp add: shell_line_def set_hardware_def)










section \<open>Properties\<close>

text \<open>The state the loader leaves, enough memory, and a boot sector that is unreadable or names a sector size.\<close>

definition ready_to_boot :: "'m machine \<Rightarrow> u32 \<Rightarrow> 'm kernel \<Rightarrow> bool" where
  "ready_to_boot M mem_upper k \<longleftrightarrow> loaded k \<and> bootable M (hardware (k_shell k)) \<and> boot_directory (ex_mem (kern (k_shell k))) \<and>
     ipd (ex_mem (kern (k_shell k))) \<noteq> 0x200000 \<and> ipd (ex_mem (kern (k_shell k))) \<noteq> 0x201000 \<and>
     0x211000 \<le> mem_upper * 1024"

lemma ready_kmain:
  assumes "ready_to_boot M mem_upper k"
  obtains k' where "kmain M mem_upper k = ret k'" "kernel_ok k'" "k_pc k' = InLogin" "prompting (AskUser 0) (login_view k')"
    "at_rest k'" "history_count (k_shell k') = history_count (k_shell k)"
  using kmain_ok [of k M mem_upper] assms unfolding ready_to_boot_def at_rest_def by blast

text \<open>
  Property C31: the boot. From the state the loader leaves \<^verbatim>\<open>kmain\<close>, not interrupted on the way,
  reaches the wait for the user name: the descriptor tables are those of \<^verbatim>\<open>initGDT\<close> and \<^verbatim>\<open>initIDT\<close>, timer and keyboard and no others
  have their interrupt lines, the clock stands at 0, shift and caps lock are off, the page tables are well
  formed with the video memory mapped to itself, the shell is intact, and the first attempt to log in begins.
\<close>

theorem kmain_boots:
  assumes "ready_to_boot M mem_upper k"
  shows "\<exists>k'. kmain M mem_upper k = ret k' \<and> shell_ok (k_shell k') \<and> k_pc k' = InLogin \<and>
    k_routines k' = [Some OnIrq0, Some (Other KeybHandler)] @ replicate 14 None \<and>
    prompting (AskUser 0) (login_view k') \<and> \<not> capsOn (k_keyb k') \<and> \<not> capsLock (k_keyb k') \<and>
    initGDT (gdt_addr M) (tss_addr M) (k_gdt k) = ret (k_gdt k') \<and>
    (\<forall>m. k_idt k' = fst (initIDT (mach_ports M) (idt_addr M) (isr_stub M) (irq_stub M) (k_idt k, m))) \<and>
    wf_tables (ex_mem (kern (k_shell k'))) \<and> view (ex_mem (kern (k_shell k'))) 0xB8000 = Some 0xB8000 \<and>
    total_mem_kb (k_shell k') = mem_upper \<and> ticks (k_shell k') = 0 \<and>
    history_count (k_shell k') = history_count (k_shell k)"
proof -
  have "loaded k" "bootable M (hardware (k_shell k))" "boot_directory (ex_mem (kern (k_shell k)))"
    "ipd (ex_mem (kern (k_shell k))) \<noteq> 0x200000" "ipd (ex_mem (kern (k_shell k))) \<noteq> 0x201000" "0x211000 \<le> mem_upper * 1024"
    using assms by (simp_all add: ready_to_boot_def)
  from kmain_ok [OF this] show ?thesis unfolding kernel_ok_def wired_def by blast
qed

text \<open>
  Property C39: the login guards the shell. After the boot, as long as the login lasts, whatever
  interrupts arrive on the sixteen lines, whatever the hardware does and whenever the main thread runs,
  no command has been executed and no key has reached the shell: its line, its history, its prompt, its
  buffers, the current directory and everything the file system keeps are as they were. Every interrupt and every
  turn returns. The login ends only by a turn of the main thread at the password prompt, with Enter
  pressed and the valid password in the buffer.
\<close>

theorem login_guards_shell:
  assumes "ready_to_boot M mem_upper k" and "kmain M mem_upper k = ret k0" and "login_run M k0 k1"
  shows "same_shell (k_shell k0) (k_shell k1) \<and>
    (\<forall>n regs. on_line n regs \<longrightarrow> returns (kernel_irq M regs k1)) \<and> returns (kernel_turn M k1) \<and>
    (\<forall>k2. kernel_step M k1 k2 \<and> k_pc k2 \<noteq> InLogin \<longrightarrow>
      kernel_turn M k1 = ret k2 \<and> k_pc k2 = AtPrompt \<and> pc (k_login k1) = ReadPassword \<and> input_done (k_login k1) \<and>
      cstr (input_buf (k_login k1)) = VALID_PASS)"
proof -
  have "kernel_ok k0" using ready_kmain [OF assms(1)] assms(2) by fastforce
  then have k1: "kernel_ok k1" "k_pc k1 = InLogin" "same_shell (k_shell k0) (k_shell k1)"
    using login_run_ok [OF assms(3)] by simp_all
  obtain k3 where k3: "kernel_turn M k1 = ret k3"
    "if k_pc k3 = InLogin then same_shell (k_shell k1) (k_shell k3) \<and> login_turn (login_view k1) = ret (login_view k3)
     else pc (k_login k1) = ReadPassword \<and> input_done (k_login k1) \<and> cstr (input_buf (k_login k1)) = VALID_PASS"
    "if pc (k_login k1) = ReadPassword \<and> input_done (k_login k1) \<and> cstr (input_buf (k_login k1)) = VALID_PASS
     then k_pc k3 = AtPrompt \<and> shell_len (k_shell k3) = 0 \<and> history_count (k_shell k3) = history_count (k_shell k1)
     else k_pc k3 = InLogin"
    using turn_in_login [OF k1(1,2), of M] by blast
  have irqs: "\<exists>k'. kernel_irq M regs k1 = ret k' \<and> k_pc k' = InLogin" if "on_line n regs" for n regs
    using irq_in_login [OF k1(1,2) that, of M] by blast
  have exits: "kernel_turn M k1 = ret k2 \<and> k_pc k2 = AtPrompt \<and> pc (k_login k1) = ReadPassword \<and> input_done (k_login k1) \<and>
      cstr (input_buf (k_login k1)) = VALID_PASS" if "kernel_step M k1 k2" "k_pc k2 \<noteq> InLogin" for k2
    using that(1)
  proof cases
    case (irq n regs)
    obtain k' where "kernel_irq M regs k1 = ret k'" "k_pc k' = InLogin" using irqs [OF irq(1)] by blast
    then have "k_pc k2 = InLogin" using irq(2) by simp
    then show ?thesis using that(2) by blast
  next
    case (device m)
    then have "k_pc k2 = InLogin" using k1(2) by simp
    then show ?thesis using that(2) by blast
  next
    case turn
    then have eq: "k2 = k3" using k3(1) by simp
    have out: "pc (k_login k1) = ReadPassword \<and> input_done (k_login k1) \<and> cstr (input_buf (k_login k1)) = VALID_PASS"
      using k3(3) that(2) unfolding eq by presburger
    then have "k_pc k3 = AtPrompt" using k3(3) by presburger
    then show ?thesis using out k3(1) eq by blast
  qed
  show ?thesis using k1(3) irqs k3(1) exits unfolding returns_def by blast
qed


text \<open>A machine to apply them to: the simulated drive with a formatted disk, and the last byte from the keyboard.\<close>

definition board_ports :: "(sim_drive \<times> u8) ports" where
  "board_ports = \<lparr>
     inPortB = (\<lambda>p (m, key). if disk_port p then (case inPortB sim_ports p m of (b, m) \<Rightarrow> (b, m, key))
                            else (if p = 0x60 then key else 0, m, key)),
     outPortB = (\<lambda>p b (m, key). (if disk_port p then outPortB sim_ports p b m else m, key)),
     inPortW = (\<lambda>p (m, key). case inPortW sim_ports p m of (w, m) \<Rightarrow> (w, m, key)),
     outPortW = (\<lambda>p w (m, key). (outPortW sim_ports p w m, key))\<rparr>"

interpretation board: pio_drive board_ports "s_phase \<circ> fst" "s_regs \<circ> fst" "sim_latency \<circ> fst" "s_media \<circ> fst" "0x10000" ATA_SLAVE
proof unfold_locales
  fix m m' :: "sim_drive \<times> u8" and s
  show "(sim_latency \<circ> fst) m < 100000" by (simp add: sim_latency_def)
  show "(s_phase \<circ> fst) m' = (s_phase \<circ> fst) m \<and> (s_regs \<circ> fst) m' = (s_regs \<circ> fst) m \<and>
      (s_media \<circ> fst) m' = (s_media \<circ> fst) m \<and> (sim_latency \<circ> fst) m' = (sim_latency \<circ> fst) m - 1 \<and>
      (0 < (sim_latency \<circ> fst) m \<longrightarrow> s AND 0x80 \<noteq> 0) \<and>
      ((sim_latency \<circ> fst) m = 0 \<longrightarrow> s AND 0x80 = 0 \<and> s AND 0x01 = 0 \<and> ((s_phase \<circ> fst) m \<noteq> Idle \<longrightarrow> s AND 0x08 \<noteq> 0))"
    if "inPortB board_ports ATA_STATUS m = (s, m')"
    using that by (cases m) (auto simp: board_ports_def disk_port_def sim_ports_def sim_latency_def split: if_splits)
qed (auto simp: board_ports_def disk_port_def sim_ports_def sim_command_def sim_latency_def split: if_splits)

definition board :: "(sim_drive \<times> u8) machine" where
  "board = \<lparr>mach_ports = board_ports, mach_poke = (\<lambda>a b m. m), mach_program = ret, mach_cpuid = (0, 0, 0),
     gdt_addr = 0xC0110000, tss_addr = 0xC01FFFA0, idt_addr = 0xC0120000,
     isr_stub = (\<lambda>n. 0xC0101000 + of_nat n * 16), irq_stub = (\<lambda>n. 0xC0102000 + of_nat n * 16)\<rparr>"

definition press :: "u8 \<Rightarrow> sim_drive \<times> u8 \<Rightarrow> sim_drive \<times> u8" where
  "press b m = (fst m, b)"

lemma board_keys: "keys_arrive board (line_regs 1) press"
  by (simp add: keys_arrive_def on_line_def line_regs_def board_def board_ports_def holds_byte_def press_def disk_port_def)

definition board_drive :: "(sim_drive \<times> u8) ata_state" where
  "board_drive = \<lparr>ata_drive = ATA_MASTER, hw = (\<lparr>s_phase = Idle, s_regs = (\<lambda>_. 0), s_busy = 0,
     s_media = sample_disk(0 := boot_sector)\<rparr>, 0)\<rparr>"

definition board_kernel :: "(sim_drive \<times> u8) kernel" where
  "board_kernel = \<lparr>k_gdt = blank_gdt,
     k_idt = \<lparr>idt_entries = replicate 256 zero_gate, idt_ptr = \<lparr>idt_lim = 0, idt_base = 0\<rparr>, idtr = None\<rparr>,
     k_routines = irq_routines, k_keyb = \<lparr>capsOn = False, capsLock = False, char_handler = None\<rparr>,
     k_heap = \<lparr>heapStart = 0, heapSize = 0, threshold = 0, kmallocInitialized = False\<rparr>, k_login = login_sample,
     k_shell = \<lparr>kern = \<lparr>ex_fs = \<lparr>params = params sample_volume, initialized = False, fat_start = 0, root_start = 0,
         data_start = 0, root_sectors = 0, current_dir_cluster = 0, current_path = current_path sample_volume,
         fat_bufs = fat_bufs sample_volume, dev = board_drive\<rparr>,
         ex_con = blank_screen, ex_mem = sample_memory, program_buf = replicate 65536 0\<rparr>,
       prompt_name = bytes ''user'' @ replicate 28 0, history = replicate 10 (replicate 256 0), history_count = 0,
       shell_buf = replicate 256 0, shell_len = 0, file_buf = replicate 32768 0, ticks = 0, total_mem_kb = 0\<rparr>,
     k_pc = InLogin\<rparr>"

lemma board_untouched: "off_disk board m m' \<Longrightarrow> m' = m"
  by (induction rule: off_disk.induct) (simp_all add: board_def board_ports_def case_prod_beta')

lemma board_init:
  "drive_ready (s_phase \<circ> fst) (s_media \<circ> fst) 0x10000 ATA_SLAVE (snd (ata_init board_ports board_drive))"
  "s_media (fst (hw (snd (ata_init board_ports board_drive)))) 0 = boot_sector"
proof -
  define m where "m = outPortB board_ports ATA_DRIVE_HEAD ATA_SLAVE (hw board_drive)"
  have m: "s_phase (fst m) = Idle" "s_busy (fst m) = 0" "s_media (fst m) = sample_disk(0 := boot_sector)"
    by (simp_all add: m_def board_ports_def disk_port_def sim_ports_def board_drive_def)
  have still: "inPortB board_ports ATA_STATUS m = (0x40, m)"
    using m(1,2) by (cases m) (simp add: board_ports_def disk_port_def sim_ports_def)
  have "((\<lambda>m. snd (inPortB board_ports ATA_STATUS m)) ^^ n) m = m" for n by (induction n) (simp_all add: still)
  then have "ata_init board_ports board_drive = (0, board_drive\<lparr>ata_drive := ATA_SLAVE, hw := m\<rparr>)"
    using still by (simp add: ata_init_def ata_probe_def m_def [symmetric])
  moreover have "\<forall>a < 0x10000. length (sample_disk a) = 512"
    using sample_mounted ata_same(7) by (simp add: mounted_def mem_good_def)
  ultimately show "drive_ready (s_phase \<circ> fst) (s_media \<circ> fst) 0x10000 ATA_SLAVE (snd (ata_init board_ports board_drive))"
    "s_media (fst (hw (snd (ata_init board_ports board_drive)))) 0 = boot_sector"
    using m by (simp_all add: drive_ready_def boot_sector_def)
qed

lemma board_bootable: "bootable board board_drive"
  unfolding bootable_def
proof (intro allI impI, elim conjE)
  fix m sec d'
  assume "off_disk board (hw board_drive) m"
    and r: "bread (ata_io (mach_ports board)) (snd (ata_init (mach_ports board) (board_drive\<lparr>hw := m\<rparr>))) 0 = (Some sec, d')"
  then have "board_drive\<lparr>hw := m\<rparr> = board_drive" using board_untouched by fastforce
  then have "bread (ata_io board_ports) (snd (ata_init board_ports board_drive)) 0 = (Some sec, d')"
    using r by (simp add: board_def)
  from board.ata.bread_good [OF board_init(1) _ this] have "sec = boot_sector" using board_init(2) by simp
  then show "bytes_per_sector (parse_bpb sec) \<noteq> 0" by (simp add: parse_bpb_def boot_sector_def le16_def)
qed

lemma board_ready: "ready_to_boot board 0x4000 board_kernel"
  unfolding ready_to_boot_def
proof (intro conjI)
  show "loaded board_kernel"
    by (simp add: loaded_def board_kernel_def shell_ok_def blank_screen_ok nul_buffer_def bytes_def sample_volume_def
      list_all_iff blank_gdt_def login_sample_def) (simp add: blank_screen_def)
  show "bootable board (hardware (k_shell board_kernel))" using board_bootable by (simp add: board_kernel_def hardware_def)
  show "boot_directory (ex_mem (kern (k_shell board_kernel)))" using sample_boot by (simp add: board_kernel_def)
qed (simp_all add: board_kernel_def sample_memory_def)

theorem kmain_boots_witness:
  "\<exists>k'. kmain board 0x4000 board_kernel = ret k' \<and> prompting (AskUser 0) (login_view k') \<and>
    k_routines k' = [Some OnIrq0, Some (Other KeybHandler)] @ replicate 14 None \<and>
    view (ex_mem (kern (k_shell k'))) 0xB8000 = Some 0xB8000"
  using kmain_boots [OF board_ready] by blast

text \<open>The login after a key has been pressed.\<close>

theorem login_guards_shell_witness:
  "\<exists>k0 k1. kmain board 0x4000 board_kernel = ret k0 \<and> key_irq board (line_regs 1) press 0x23 k0 = ret k1 \<and>
    same_shell (k_shell k0) (k_shell k1) \<and> returns (kernel_turn board k1)"
proof -
  obtain k0 where k0: "kmain board 0x4000 board_kernel = ret k0" "kernel_ok k0" "k_pc k0 = InLogin"
    by (rule ready_kmain [OF board_ready])
  have n: "on_line 1 (line_regs 1)" using board_keys by (simp add: keys_arrive_def)
  let ?k = "set_hw (press 0x23 (k_hw k0)) k0"
  have k: "kernel_ok ?k" "k_pc ?k = InLogin" using k0 by (simp_all add: kernel_ok_kept)
  obtain k1 where k1: "kernel_irq board (line_regs 1) ?k = ret k1" "k_pc k1 = InLogin"
    by (rule irq_in_login [OF k n])
  have "login_run board k0 ?k" by (rule login_run.step [OF login_run.start [OF k0(3)] kernel_step.device k(2)])
  then have "login_run board k0 k1" by (rule login_run.step) (rule kernel_step.irq [OF n k1(1)], rule k1(2))
  from login_guards_shell [OF board_ready k0(1) this] show ?thesis
    using k0(1) k1(1) unfolding key_irq_def by blast
qed


end
