(* ===== verification/Spec2Isabelle.thy ===== *)
theory Spec2Isabelle
  imports Fat_Volume Ata Console Stdio Paging Keyboard Login Idt Gdt Timer Rtc Devices Font Vga
    Exec Shell Shell_Line Shell_Files Kernel
begin

text \<open>
  Verification of the MasterOS kernel (the C sources under \<^verbatim>\<open>src/masterOS/src\<close>): a 32-bit kernel
  with a text console, a keyboard driven login and shell, an ATA disk driver and a FAT12 file system.

  \<^bold>\<open>The program.\<close> \<^verbatim>\<open>kmain\<close> loads a font, sets up segments, interrupts, the timer, memory, the disk,
  the file system and the keyboard, and calls \<^verbatim>\<open>login\<close>. From then on everything happens in keyboard
  interrupts: \<^verbatim>\<open>irq_handler\<close> calls \<^verbatim>\<open>keybHandler\<close>, which calls the installed character handler: one of
  the login's two, and after the login the shell's, which runs commands inside the interrupt. The main
  thread waits in loops. The shell reaches the disk by \<^verbatim>\<open>fat.c\<close> on \<^verbatim>\<open>ata.c\<close>, the screen by
  \<^verbatim>\<open>vga.c\<close>, and the speaker, the clock, power and \<^verbatim>\<open>cpuid\<close> directly.

  \<^bold>\<open>How C is rendered.\<close> Theory Prelude: integers are words of their width (\<open>u8\<close> to \<open>u64\<close>), so that
  arithmetic wraps as on the target (for the few signed sums, such as \<^verbatim>\<open>k_atoi\<close>, this is what the
  compiler's wrapping code does). A piece of code that can fail has the type \<open>'a run\<close>: \<open>ret x\<close> returns,
  \<open>fail e\<close> is a memory access outside its object, a null pointer, a division by zero or a page fault,
  and \<open>None\<close> is not returning. Arrays are lists whose every access is checked; state is passed in
  records, one per component, with the fields named after the static variables; a C string is the
  bytes before the first NUL. \<open>returns\<close> says that a piece of code ends without a fault.

  \<^bold>\<open>Theories and sources.\<close>
    \<^item> Ports (\<^verbatim>\<open>memory/util.c\<close>): the port instructions, a parameter; \<open>memSet\<close>.
    \<^item> Ata (\<^verbatim>\<open>drivers/fs/ata.c\<close>): polling, selection, sector transfers. Block_Device: the contract
      between \<^verbatim>\<open>fat.c\<close> and \<^verbatim>\<open>ata.c\<close>.
    \<^item> Fat_Codec, Fat_Names, Fat_Disk, Fat (\<^verbatim>\<open>drivers/fs/fat.c\<close>): the 12-bit table, 8.3 names, static
      state and sector access, and the operations. Fat_Dir, Fat_Io, Fat_File, Fat_Ops, Fat_Files: their
      lemmas, from directory entries and disk traffic up to whole operations on a volume. Fat_Volume:
      the properties of the file system.
    \<^item> Console (\<^verbatim>\<open>drivers/vga/vga.c\<close>), Stdio (\<^verbatim>\<open>stdlib/stdio.c\<close>), Font and Vga (\<^verbatim>\<open>ibm_font.h\<close>,
      \<^verbatim>\<open>VGAR.c\<close>, \<^verbatim>\<open>VGAF.c\<close>, \<^verbatim>\<open>VGAM.c\<close> of \<^verbatim>\<open>drivers/vga\<close>).
    \<^item> Memory (\<^verbatim>\<open>memory/memory.c\<close>, \<^verbatim>\<open>memory/kmalloc.c\<close>); Paging: what it does to the address space.
    \<^item> Gdt (\<^verbatim>\<open>drivers/gdt.c\<close>), Idt (\<^verbatim>\<open>interrupts/idt.c\<close>), Timer (\<^verbatim>\<open>timer.c\<close>), Rtc (\<^verbatim>\<open>rtc.c\<close>), Devices
      (\<^verbatim>\<open>speaker.c\<close>, \<^verbatim>\<open>cpu.c\<close>, \<^verbatim>\<open>power.c\<close>), Keyboard (\<^verbatim>\<open>drivers/device/keyboard.c\<close>).
    \<^item> Line_Edit: the reference line editor of the three character handlers. Login (\<^verbatim>\<open>login.c\<close>). Exec
      (\<^verbatim>\<open>drivers/device/exec.c\<close>). Shell (\<^verbatim>\<open>shell.c\<close>); Shell_Line, Shell_Files: its lemmas and properties.
    \<^item> Kernel (\<^verbatim>\<open>kernel.c\<close>): the boot, interrupts and main thread turns on the state of all components.

  \<^bold>\<open>Parameters.\<close> Not C code, so arguments of the definitions: the ports (\<open>'m ports\<close>) and the stores to
  video memory (\<open>poke\<close>); a loaded program (\<open>env_program\<close>); the answer of \<^verbatim>\<open>cpuid\<close>; the addresses the
  linker gives tables and interrupt stubs; the bytes that a call of \<^verbatim>\<open>putc\<close> finds behind its
  parameter (\<open>rest\<close>: \<^verbatim>\<open>putc\<close> passes \<^verbatim>\<open>&c\<close> to \<^verbatim>\<open>print\<close>, which reads on to the next NUL); the strings
  that pointer arguments of \<^verbatim>\<open>printf\<close> point to.

  \<^bold>\<open>Interfaces.\<close> The locales \<open>block_device\<close> and \<open>reliable_device\<close> are what the file system needs of a
  disk; \<open>pio_drive\<close> is the ATA protocol, and a sublocale shows that \<^verbatim>\<open>ata_read\<close> and \<^verbatim>\<open>ata_write\<close> over
  it give a reliable device; simulated drives interpret it. \<open>line_editor\<close> is the contract between a
  character handler and its line, interpreted by login and shell; \<open>key_receiver\<close> carries it over the
  keyboard driver, interpreted for the kernel's interrupts during the login and at the prompt.
  \<open>rtc_chip\<close> and \<open>vga_adapter\<close> are the clock's and the adapter's register protocols.

  \<^bold>\<open>What the lemmas show.\<close> File system: on a mounted volume (512 byte sectors, at most 17 table
  sectors and 4080 clusters, root directory current) over a reliable device, written, overwritten,
  renamed, deleted and listed files behave as a map from names to contents, other files are kept, and
  the cluster loops end. Driver: a sector written is read back, and polling ends. Console: no store
  leaves the screen. Formatted output: what a reference renderer computes is printed. Memory: mapping a
  page changes exactly its translation; which frames the allocator gives. Descriptor tables: what the
  processor reads from them. Clock and timer: decoded time, uptime. Keyboard: one interrupt delivers the
  character of an independent US layout, and every text can be typed. Login: only the valid
  credentials pass, in every interleaving of interrupts and main thread. Shell: a typed line is the
  line executed; \<^verbatim>\<open>create\<close> and \<^verbatim>\<open>type\<close> down to the drive's ports. Kernel: the boot reaches the login,
  the login guards the shell, and a whole session from scan codes to the executed command.

  \<^bold>\<open>Defects shown.\<close> The free cluster search overruns its buffer on a full table of 18 sectors
  (Fat_Codec); the frame allocator overwrites its bitmap byte, so that it alternates between two frames
  and the first heap page becomes a page table (Memory, Paging); the eleventh command overruns
  the history (Shell_Line); \<^verbatim>\<open>CGV\<close> overruns its caller's buffer (Devices); the limit of the task state
  segment contains its address (Gdt); every interrupt gate is open to ring 3 (Idt); \<^verbatim>\<open>print\<close> loses
  the colour of characters from 0x80 on (Console).

  \<^bold>\<open>Loops and bounds.\<close> Loops over counters are structural recursion on the iterations left, which
  for the polls of \<^verbatim>\<open>ata.c\<close> is the code's own timeout of 100000. Loops that may not end (cluster
  chains, directories, the clock's settling) are partial functions, so that not ending is \<open>None\<close>;
  the properties prove that they return. No other fuel is used.

  \<^bold>\<open>Not modelled.\<close> The assembly files (\<^verbatim>\<open>boot.s\<close>, \<^verbatim>\<open>gdt.s\<close>, \<^verbatim>\<open>idt.s\<close>): their loads are recorded, not
  executed; the multiboot structures; the translation cache (\<^verbatim>\<open>inval\<close> has no effect, and page tables
  act at once); the size and layout of the stack. Interrupts arrive between turns of the main thread and
  not within \<^verbatim>\<open>kmain\<close>, whose boot is taken as uninterrupted. The per-process page directories of
  \<^verbatim>\<open>memory.c\<close> are never used by the program and are kept apart from the physical memory.
\<close>

end
